(* ===== verification/Prelude.thy ===== *)
theory Prelude
  imports Main "HOL-Library.Monad_Syntax" "HOL-Library.Sublist"
begin

text \<open>
  Shared by every component: the C and GLib string routines the runtime calls, with the
  behaviour their documentation gives them, decimal conversion, and lemmas on them.

  A \<^verbatim>\<open>gchar *\<close> that may be NULL is a \<^typ>\<open>string option\<close>. A call that does not return
  because the process dies (a failed \<^verbatim>\<open>g_assert\<close>, a NULL dereference) is
  \<^term>\<open>None\<close> in an option result, and sequencing is the option monad's do-notation.
\<close>

named_theorems cstr_simps \<open>evaluation rules for the C string routines\<close>

subsection \<open>Characters and comparison\<close>

type_synonym cstring = "string option"

abbreviation char_code :: "char \<Rightarrow> nat" where
  "char_code c \<equiv> (of_char c :: nat)"

definition NUL :: char where "NUL = CHR 0x00"

text \<open>\<^verbatim>\<open>g_ascii_isdigit\<close>\<close>

definition is_digit :: "char \<Rightarrow> bool" where
  "is_digit c \<longleftrightarrow> 48 \<le> char_code c \<and> char_code c \<le> 57"

text \<open>\<^verbatim>\<open>isspace\<close> in the C locale.\<close>

definition is_space :: "char \<Rightarrow> bool" where
  "is_space c \<longleftrightarrow> char_code c = 32 \<or> 9 \<le> char_code c \<and> char_code c \<le> 13"

text \<open>
  \<^verbatim>\<open>strcmp\<close> compares bytes as unsigned values. Only the sign of its result is specified,
  and the runtime only uses the sign; the model returns -1, 0 or 1.
\<close>

fun strcmp :: "string \<Rightarrow> string \<Rightarrow> int" where
  "strcmp [] [] = 0"
| "strcmp [] (y # ys) = -1"
| "strcmp (x # xs) [] = 1"
| "strcmp (x # xs) (y # ys) =
     (if char_code x < char_code y then -1
      else if char_code y < char_code x then 1
      else strcmp xs ys)"

text \<open>\<^verbatim>\<open>g_strcmp0\<close>: NULL sorts before every string.\<close>

fun g_strcmp0 :: "cstring \<Rightarrow> cstring \<Rightarrow> int" where
  "g_strcmp0 None None = 0"
| "g_strcmp0 None (Some b) = -1"
| "g_strcmp0 (Some a) None = 1"
| "g_strcmp0 (Some a) (Some b) = strcmp a b"

lemma strcmp_refl [simp]: "strcmp s s = 0"
  by (induction s) auto

lemma char_code_inj: "\<not> char_code x < char_code y \<Longrightarrow> \<not> char_code y < char_code x \<Longrightarrow> x = y"
  by (metis linorder_neqE_nat of_char_eq_iff)

lemma strcmp_eq_0 [simp]: "strcmp a b = 0 \<longleftrightarrow> a = b"
proof (induction a b rule: strcmp.induct)
  case (4 x xs y ys)
  then show ?case using char_code_inj [of x y] by auto
qed simp_all

lemma g_strcmp0_eq_0 [simp]: "g_strcmp0 a b = 0 \<longleftrightarrow> a = b"
  by (cases a; cases b) auto

lemma strcmp_range: "strcmp a b \<in> {-1, 0, 1}"
  by (induction a b rule: strcmp.induct) auto

lemma sgn_strcmp [simp]: "sgn (strcmp a b) = strcmp a b"
  using strcmp_range [of a b] by auto

lemma strcmp_swap: "strcmp b a = - strcmp a b"
  by (induction a b rule: strcmp.induct) auto

lemma strcmp_trans:
  "strcmp a b \<le> 0 \<Longrightarrow> strcmp b c \<le> 0 \<Longrightarrow> strcmp a c \<le> 0"
proof (induction a b arbitrary: c rule: strcmp.induct)
  case (1)
  then show ?case by simp
next
  case (2 y ys)
  then show ?case by (cases c) auto
next
  case (3 x xs)
  then show ?case by simp
next
  case (4 x xs y ys)
  note IH = "4.IH" and pre = "4.prems"
  show ?case
  proof (cases c)
    case Nil
    with pre show ?thesis by simp
  next
    case (Cons z zs)
    show ?thesis
      using IH [of zs] pre unfolding Cons by (simp split: if_split_asm) auto
  qed
qed

subsection \<open>Searching, splitting and joining\<close>

text \<open>\<^verbatim>\<open>strstr\<close>, as the position of the first occurrence.\<close>

fun strstr :: "string \<Rightarrow> string \<Rightarrow> nat option" where
  "strstr needle [] = (if needle = [] then Some 0 else None)"
| "strstr needle (c # cs) =
     (if prefix needle (c # cs) then Some 0
      else map_option Suc (strstr needle cs))"

text \<open>
  \<^verbatim>\<open>g_strsplit\<close> with a one-character delimiter. \<open>g_strsplit_max c n s\<close> makes at most
  \<open>n + 1\<close> tokens, the last one being the unsplit remainder; \<open>g_strsplit\<close> is the
  call with \<^verbatim>\<open>max_tokens = -1\<close>. The empty string gives the empty vector.
\<close>

fun split_first :: "char \<Rightarrow> string \<Rightarrow> string \<times> string option" where
  "split_first d [] = ([], None)"
| "split_first d (c # cs) =
     (if c = d then ([], Some cs)
      else (case split_first d cs of (a, r) \<Rightarrow> (c # a, r)))"

fun split_max :: "char \<Rightarrow> nat \<Rightarrow> string \<Rightarrow> string list" where
  "split_max d 0 s = [s]"
| "split_max d (Suc n) s =
     (case split_first d s of
        (a, None) \<Rightarrow> [a]
      | (a, Some r) \<Rightarrow> a # split_max d n r)"

fun split_all :: "char \<Rightarrow> string \<Rightarrow> string list" where
  "split_all d [] = [[]]"
| "split_all d (c # cs) =
     (if c = d then [] # split_all d cs
      else (case split_all d cs of
              [] \<Rightarrow> [[c]]
            | t # ts \<Rightarrow> (c # t) # ts))"

definition g_strsplit :: "char \<Rightarrow> string \<Rightarrow> string list" where
  "g_strsplit d s = (if s = [] then [] else split_all d s)"

definition g_strsplit_max :: "char \<Rightarrow> nat \<Rightarrow> string \<Rightarrow> string list" where
  "g_strsplit_max d n s = (if s = [] then [] else split_max d n s)"

text \<open>\<^verbatim>\<open>g_strjoinv\<close>\<close>

fun g_strjoinv :: "string \<Rightarrow> string list \<Rightarrow> string" where
  "g_strjoinv sep [] = []"
| "g_strjoinv sep [s] = s"
| "g_strjoinv sep (s # t # ts) = s @ sep @ g_strjoinv sep (t # ts)"

lemma split_first_no_delim: "d \<notin> set s \<Longrightarrow> split_first d s = (s, None)"
  by (induction s) auto

lemma split_first_delim: "d \<notin> set a \<Longrightarrow> split_first d (a @ d # r) = (a, Some r)"
  by (induction a) auto

lemma delim_unique:
  fixes d :: char
  assumes "d \<notin> set a" and "d \<notin> set c" and "a @ d # r = c @ d # r'"
  shows "a = c \<and> r = r'"
proof -
  have "(a, Some r) = split_first d (a @ d # r)" by (rule split_first_delim [OF assms(1), symmetric])
  also have "\<dots> = split_first d (c @ d # r')" by (rule arg_cong [OF assms(3)])
  also have "\<dots> = (c, Some r')" by (rule split_first_delim [OF assms(2)])
  finally show ?thesis by simp
qed

lemma split_all_no_delim: "d \<notin> set s \<Longrightarrow> split_all d s = [s]"
  by (induction s) auto

lemma split_all_delim: "d \<notin> set a \<Longrightarrow> split_all d (a @ d # r) = a # split_all d r"
  by (induction a) auto

lemma split_all_nonempty [simp]: "split_all d s \<noteq> []"
  by (cases s) (auto split: list.splits)

lemma split_all_join:
  assumes "ts \<noteq> []" and "\<forall>t \<in> set ts. d \<notin> set t"
  shows "split_all d (g_strjoinv [d] ts) = ts"
  using assms
proof (induction "[d]" ts rule: g_strjoinv.induct)
  case (3 s t ts)
  then show ?case by (simp add: split_all_delim)
qed (auto simp: split_all_no_delim)

lemma g_strjoinv_split_all: "g_strjoinv [d] (split_all d s) = s"
proof (induction s)
  case Nil
  then show ?case by simp
next
  case (Cons c cs)
  obtain t ts where s: "split_all d cs = t # ts"
    by (cases "split_all d cs") auto
  with Cons show ?case by (cases ts) auto
qed

lemma strstr_single:
  "strstr [d] s = (if d \<in> set s then Some (length (takeWhile (\<lambda>c. c \<noteq> d) s)) else None)"
  by (induction s) auto

lemma strstr_Some:
  "strstr n h = Some i \<Longrightarrow> i + length n \<le> length h \<and> take (length n) (drop i h) = n"
proof (induction n h arbitrary: i rule: strstr.induct)
  case (1 n)
  then show ?case by (auto split: if_splits)
next
  case (2 n c cs)
  show ?case
  proof (cases "prefix n (c # cs)")
    case True
    with 2 have "i = 0" by simp
    with True show ?thesis by (auto simp: prefix_def) (metis append_eq_conv_conj length_append le_add1 length_Cons)+
  next
    case False
    with 2 show ?thesis by auto
  qed
qed

lemma strstr_None: "strstr n h = None \<longleftrightarrow> \<not> (\<exists>a b. h = a @ n @ b)"
proof (induction n h rule: strstr.induct)
  case (1 n)
  then show ?case by auto
next
  case (2 n c cs)
  show ?case
  proof (cases "prefix n (c # cs)")
    case True
    then show ?thesis by (auto simp: prefix_def) (metis append_Nil)
  next
    case False
    have "(\<exists>a b. c # cs = a @ n @ b) \<longleftrightarrow> (\<exists>a b. cs = a @ n @ b)" (is "?L \<longleftrightarrow> ?R")
    proof
      assume ?L
      then obtain a b where e: "c # cs = a @ n @ b" by blast
      with False have "a \<noteq> []" by (auto simp: prefix_def)
      with e show ?R by (cases a) auto
    next
      assume ?R
      then obtain a b where "cs = a @ n @ b" by blast
      then have "c # cs = (c # a) @ n @ b" by simp
      then show ?L by blast
    qed
    with False 2 show ?thesis by simp
  qed
qed

lemma strstr_first: "d \<notin> set a \<Longrightarrow> strstr [d] (a @ d # r) = Some (length a)"
  by (induction a) auto

lemma strstr_absent: "d \<notin> set s \<Longrightarrow> strstr [d] s = None"
  by (induction s) auto

lemma set_g_strjoinv: "set (g_strjoinv sep ts) \<subseteq> \<Union> (set ` set ts) \<union> set sep"
  by (induction sep ts rule: g_strjoinv.induct) auto

lemma g_strjoinv_nonempty:
  "ts \<noteq> [] \<Longrightarrow> \<forall>t \<in> set ts. t \<noteq> [] \<Longrightarrow> g_strjoinv sep ts \<noteq> []"
  by (induction sep ts rule: g_strjoinv.induct) auto

subsection \<open>Fixed-size buffers\<close>

text \<open>
  \<^verbatim>\<open>g_strlcpy\<close> and \<^verbatim>\<open>g_snprintf\<close> into a buffer of \<open>n\<close> bytes keep at most
  \<open>n - 1\<close> bytes; \<^verbatim>\<open>"%s"\<close> of a NULL pointer prints \<^verbatim>\<open>(null)\<close>.
  A \<^verbatim>\<open>gchar[N]\<close> member is the string before its first NUL.
\<close>

definition PATH_MAX :: nat where "PATH_MAX = 4096"
definition LINE_MAX :: nat where "LINE_MAX = 2048"

definition buf_put :: "nat \<Rightarrow> string \<Rightarrow> string" where
  "buf_put n s = take (n - 1) s"

definition fmt_s :: "cstring \<Rightarrow> string" where
  "fmt_s s = (case s of None \<Rightarrow> ''(null)'' | Some t \<Rightarrow> t)"

lemma buf_put_fits [simp]: "length s < n \<Longrightarrow> buf_put n s = s"
  by (simp add: buf_put_def)

lemma length_buf_put: "0 < n \<Longrightarrow> length (buf_put n s) < n"
  by (auto simp: buf_put_def min_def)

lemma fmt_s_Some [simp]: "fmt_s (Some s) = s"
  by (simp add: fmt_s_def)

text \<open>Reading a C string at an offset of a byte buffer: up to the first NUL.\<close>

definition cstr_at :: "string \<Rightarrow> nat \<Rightarrow> string" where
  "cstr_at buf i = takeWhile (\<lambda>c. c \<noteq> NUL) (drop i buf)"

lemma cstr_at_prefix: "NUL \<notin> set a \<Longrightarrow> cstr_at (a @ NUL # r) 0 = a"
  by (simp add: cstr_at_def takeWhile_append)

lemma cstr_at_whole: "NUL \<notin> set a \<Longrightarrow> cstr_at a 0 = a"
  by (simp add: cstr_at_def takeWhile_eq_all_conv) blast

lemma cstr_at_skip: "length a = i \<Longrightarrow> cstr_at (a @ c # r) (Suc i) = cstr_at r 0"
  by (simp add: cstr_at_def)

subsection \<open>Paths\<close>

abbreviation slash :: char where "slash \<equiv> CHR ''/''"

text \<open>
  \<^verbatim>\<open>g_build_path ("/", ...)\<close>: empty elements are ignored; between two elements there is
  exactly one separator; the leading separators of the first element and the trailing ones
  of the last are kept; a single element is returned as it is.
\<close>

definition strip_slashes :: "string \<Rightarrow> string" where
  "strip_slashes e = rev (dropWhile (\<lambda>c. c = slash) (rev (dropWhile (\<lambda>c. c = slash) e)))"

definition g_build_path :: "string list \<Rightarrow> string" where
  "g_build_path es =
     (let ne = filter (\<lambda>e. e \<noteq> []) es in
      case ne of
        [] \<Rightarrow> []
      | [e] \<Rightarrow> e
      | e # _ \<Rightarrow> takeWhile (\<lambda>c. c = slash) e
               @ g_strjoinv [slash] (filter (\<lambda>x. x \<noteq> []) (map strip_slashes ne))
               @ takeWhile (\<lambda>c. c = slash) (rev (last ne)))"

text \<open>\<^verbatim>\<open>g_path_get_dirname\<close> and \<^verbatim>\<open>g_path_get_basename\<close>\<close>

definition g_path_get_dirname :: "string \<Rightarrow> string" where
  "g_path_get_dirname s =
     (if slash \<notin> set s then ''.''
      else let d = rev (dropWhile (\<lambda>c. c = slash) (dropWhile (\<lambda>c. c \<noteq> slash) (rev s)))
           in if d = [] then [slash] else d)"

definition g_path_get_basename :: "string \<Rightarrow> string" where
  "g_path_get_basename s =
     (if s = [] then ''.''
      else let r = dropWhile (\<lambda>c. c = slash) (rev s)
           in if r = [] then [slash] else rev (takeWhile (\<lambda>c. c \<noteq> slash) r))"

subsection \<open>Decimal numbers\<close>

definition LONG_MAX :: int where "LONG_MAX = 9223372036854775807"
definition LONG_MIN :: int where "LONG_MIN = - 9223372036854775808"

definition digit_val :: "char \<Rightarrow> int" where
  "digit_val c = int (char_code c) - 48"

definition dec_val :: "string \<Rightarrow> int" where
  "dec_val ds = foldl (\<lambda>v c. 10 * v + digit_val c) 0 ds"

text \<open>
  \<^verbatim>\<open>strtol\<close> in base 10 (and \<^verbatim>\<open>g_ascii_strtoll\<close>, which differs only in ignoring the
  locale): the value, saturated at the limits of a 64-bit \<^verbatim>\<open>long\<close>, and whether any digit
  was read, that is whether \<^verbatim>\<open>endptr\<close> moved.
\<close>

definition strtol :: "string \<Rightarrow> int \<times> bool" where
  "strtol s =
     (let s1 = dropWhile is_space s;
          neg = (s1 \<noteq> [] \<and> hd s1 = CHR ''-'');
          s2 = (if s1 \<noteq> [] \<and> (hd s1 = CHR ''-'' \<or> hd s1 = CHR ''+'') then tl s1 else s1);
          ds = takeWhile is_digit s2;
          v = (if neg then - dec_val ds else dec_val ds)
      in (max LONG_MIN (min LONG_MAX v), ds \<noteq> []))"

definition atol :: "string \<Rightarrow> int" where
  "atol s = fst (strtol s)"

text \<open>Conversion of a \<^verbatim>\<open>long\<close> to a 32-bit \<^verbatim>\<open>int\<close> or \<^verbatim>\<open>unsigned int\<close>.\<close>

definition to_int32 :: "int \<Rightarrow> int" where
  "to_int32 v = signed_take_bit 31 v"

definition to_uint32 :: "int \<Rightarrow> int" where
  "to_uint32 v = take_bit 32 v"

definition atoi :: "string \<Rightarrow> int" where
  "atoi s = to_int32 (atol s)"

text \<open>\<^verbatim>\<open>printf\<close> of a decimal number.\<close>

fun dec_of_nat :: "nat \<Rightarrow> string" where
  "dec_of_nat n =
     (if n < 10 then [char_of (48 + n)]
      else dec_of_nat (n div 10) @ [char_of (48 + n mod 10)])"

declare dec_of_nat.simps [simp del]

definition dec_of_int :: "int \<Rightarrow> string" where
  "dec_of_int i = (if i < 0 then CHR ''-'' # dec_of_nat (nat (- i)) else dec_of_nat (nat i))"

lemma to_int32_id: "- (2 ^ 31) \<le> v \<Longrightarrow> v < 2 ^ 31 \<Longrightarrow> to_int32 v = v"
  by (simp add: to_int32_def signed_take_bit_int_eq_self)

lemma is_digit_char_of [simp]: "(d::nat) < 10 \<Longrightarrow> is_digit (char_of (48 + d))"
  by (simp add: is_digit_def)

lemma digit_val_char_of [simp]: "(d::nat) < 10 \<Longrightarrow> digit_val (char_of (48 + d)) = int d"
  by (simp add: digit_val_def)

lemma dec_val_append: "dec_val (xs @ [c]) = 10 * dec_val xs + digit_val c"
  by (simp add: dec_val_def)

lemma dec_val_dec_of_nat [simp]: "dec_val (dec_of_nat n) = int n"
proof (induction n rule: dec_of_nat.induct)
  case (1 n)
  show ?case
  proof (cases "n < 10")
    case True
    then show ?thesis by (simp add: dec_of_nat.simps dec_val_def)
  next
    case False
    with 1 have "dec_val (dec_of_nat n) = 10 * int (n div 10) + int (n mod 10)"
      by (subst dec_of_nat.simps) (simp add: dec_val_append)
    also have "\<dots> = int (10 * (n div 10) + n mod 10)"
      by (simp only: of_nat_add of_nat_mult of_nat_numeral)
    also have "\<dots> = int n" by (simp only: mult_div_mod_eq)
    finally show ?thesis .
  qed
qed

lemma dec_of_nat_digits: "list_all is_digit (dec_of_nat n)"
proof (induction n rule: dec_of_nat.induct)
  case (1 n)
  then show ?case
    by (subst dec_of_nat.simps) (auto simp del: char_of_def)
qed

lemma dec_of_nat_nonempty [simp]: "dec_of_nat n \<noteq> []"
  by (subst dec_of_nat.simps) simp

lemma is_digit_not_space: "is_digit c \<Longrightarrow> \<not> is_space c"
  by (auto simp: is_digit_def is_space_def)

lemma is_digit_not_sign: "is_digit c \<Longrightarrow> c \<noteq> CHR ''-'' \<and> c \<noteq> CHR ''+'' \<and> c \<noteq> CHR ''.''"
  by (auto simp: is_digit_def)

lemma dec_val_nonneg: "list_all is_digit ds \<Longrightarrow> 0 \<le> dec_val ds"
proof (induction ds rule: rev_induct)
  case Nil
  then show ?case by (simp add: dec_val_def)
next
  case (snoc c ds)
  then show ?case by (simp add: dec_val_append is_digit_def digit_val_def)
qed

text \<open>
  A run of digits, followed by something that is not one, is read back as its value.
\<close>

lemma strtol_digits:
  assumes "list_all is_digit ds" and "ds \<noteq> []" and "r = [] \<or> \<not> is_digit (hd r)"
  shows "strtol (ds @ r) = (min LONG_MAX (dec_val ds), True)"
proof -
  obtain d ds' where ds: "ds = d # ds'" using assms(2) by (cases ds) auto
  have d: "is_digit d" using assms(1) ds by simp
  have "takeWhile is_digit (ds @ r) = ds"
    using assms(1,3) by (cases r) (auto simp: list_all_iff takeWhile_append)
  moreover have "dropWhile is_space (ds @ r) = ds @ r"
    using ds is_digit_not_space [OF d] by simp
  moreover have "LONG_MIN \<le> min LONG_MAX (dec_val ds)"
    using dec_val_nonneg [OF assms(1)] by (simp add: LONG_MIN_def LONG_MAX_def)
  ultimately show ?thesis
    using ds is_digit_not_sign [OF d] by (auto simp: strtol_def Let_def)
qed

lemma atol_dec_of_nat: "int n \<le> LONG_MAX \<Longrightarrow> atol (dec_of_nat n) = int n"
  using strtol_digits [OF dec_of_nat_digits dec_of_nat_nonempty, of "[]" n]
  by (simp add: atol_def)

lemma strtol_dec_of_nat: "int n \<le> LONG_MAX \<Longrightarrow> strtol (dec_of_nat n) = (int n, True)"
  using strtol_digits [OF dec_of_nat_digits dec_of_nat_nonempty, of "[]" n]
  by simp

lemma atoi_dec_of_nat: "n < 2 ^ 31 \<Longrightarrow> atoi (dec_of_nat n) = int n"
  by (simp add: atoi_def atol_dec_of_nat LONG_MAX_def to_int32_id)

end
