(* ===== verification/World.thy ===== *)
theory World
  imports Prelude "HOL-Library.Countable"
begin

text \<open>
  The outside of the program. Every call the runtime makes to the kernel, to GLib's I/O and
  to the programs it starts is a value of \<open>call\<close>; the history of the calls made so
  far with their replies is the \<open>world\<close>, newest first; and the environment \<open>env\<close>
  chooses each reply from the history and the call. The environment is a parameter of every
  definition that performs a call: a statement that holds for all environments holds whatever
  the kernel answers, and what a statement needs of the kernel is a hypothesis on the
  environment. The order of effects is the order of the history.

  The JSON reader and writer of json-glib are not part of the repository either: they are the
  two functions \<open>json_parse\<close> and \<open>json_gen\<close> of the environment, on the type of JSON values.
\<close>

text \<open>
  A number that is not an integer is kept as its rendering with \<^verbatim>\<open>%f\<close>, all the code asks of it.
\<close>

datatype json =
    JNull
  | JBool bool
  | JInt int
  | JDouble string
  | JString string
  | JArr "json list"
  | JObj "(string \<times> json) list"

instance json :: countable by countable_datatype

datatype call =
    FileSet string string            \<comment> \<open>\<^verbatim>\<open>g_file_set_contents\<close>: path, contents\<close>
  | FileGet string                   \<comment> \<open>\<^verbatim>\<open>g_file_get_contents\<close>\<close>
  | FileExists string                \<comment> \<open>\<^verbatim>\<open>g_file_test (G_FILE_TEST_EXISTS)\<close>\<close>
  | FileIsDir string                 \<comment> \<open>\<^verbatim>\<open>g_file_test (G_FILE_TEST_IS_DIR)\<close>\<close>
  | Stat string                      \<comment> \<open>\<^verbatim>\<open>stat\<close> succeeds\<close>
  | StatIsDir string                 \<comment> \<open>\<^verbatim>\<open>S_ISDIR\<close> of the mode \<^verbatim>\<open>stat\<close> returned\<close>
  | StatSize string                  \<comment> \<open>the size \<^verbatim>\<open>stat\<close> returned\<close>
  | Unlink string
  | Chmod string nat
  | Mkdir string nat
  | MkdirParents string nat
  | System string
  | Realpath string
  | Access string
  | AccessErrnoIsENOENT string       \<comment> \<open>\<^verbatim>\<open>errno == ENOENT\<close> after a failed \<^verbatim>\<open>access\<close>\<close>
  | GetCwd
  | Chdir string
  | FindProgram string               \<comment> \<open>\<^verbatim>\<open>g_find_program_in_path\<close>\<close>
  | Now                              \<comment> \<open>microseconds since the epoch, negative for NULL\<close>
  | IsDaylightSavings int            \<comment> \<open>of the local time zone, at that time\<close>
  | Iso8601 int                      \<comment> \<open>\<^verbatim>\<open>g_time_val_to_iso8601\<close>, of a number of microseconds\<close>
  | RandomUuid                       \<comment> \<open>the 16 bytes of \<^verbatim>\<open>uuid_generate_random\<close>\<close>
  | Kill int int                     \<comment> \<open>pid, signal\<close>
  | Mount string string string nat cstring \<comment> \<open>source, target, type, flags, options\<close>
  | Umount string
  | OpenRead string
  | SetNs int int
  | Unshare int
  | Close int
  | SetSid
  | PtraceTraceme
  | PtraceDetach int int
  | Spawn string "string list"       \<comment> \<open>working directory, argv; the pid\<close>
  | SpawnHook "string list" "string list option"
  | Waitpid int
  | WaitStopSignal int               \<comment> \<open>the stop signal in the status of the last wait\<close>
  | HookPipe nat                     \<comment> \<open>the descriptor of a standard stream of the hook just spawned\<close>
  | WriteFd int string
  | RunHookLoop int                  \<comment> \<open>the exit status of the hook the loop waits for\<close>
  | IsATty
  | MonitorDir string
  | SockNew
  | SockConnect string
  | SockSend string
  | SockRecv nat
  | SockFd                           \<comment> \<open>the descriptor of the socket\<close>
  | LoopNew
  | Getuid
  | DirOpen string                   \<comment> \<open>\<^verbatim>\<open>g_dir_open\<close>, \<^verbatim>\<open>opendir\<close>\<close>
  | DirFd string
  | CloseDir string
  | OpenRdwr string
  | OpenAppend string nat            \<comment> \<open>\<^verbatim>\<open>open\<close> to append, creating with this mode; the descriptor\<close>
  | ChannelNew int                   \<comment> \<open>\<^verbatim>\<open>g_io_channel_unix_new\<close>\<close>
  | ChannelWrite string              \<comment> \<open>the whole string is written, or the write fails\<close>
  | ChannelShutdown
  | ChannelSend string               \<comment> \<open>the bytes a non-blocking channel takes, negative when it fails\<close>
  | ChannelRecv nat                  \<comment> \<open>what is read into a buffer of this size, NULL when nothing can be\<close>
  | ReadLine
  | OpenLog
  | Syslog string
  | CloseLog
  | ErrorText                        \<comment> \<open>the text of the last error, of \<^verbatim>\<open>errno\<close> or a \<^verbatim>\<open>GError\<close>\<close>
  | PrintErr string
  | Getpid
  | Dup2 int int
  | Print string

datatype reply =
    RBool bool
  | RInt int
  | RStr cstring

type_synonym world = "(call \<times> reply) list"

text \<open>
  The events that a main loop waits for: the directory watch reports that a file of the
  directory was written, or deleted, or something else; the process socket is closed; a timer
  has run out; the standard input, or the socket of a console, can be read, or the socket can
  be written. The flag of the last three says that the other end has hung up.
\<close>

datatype loop_event =
    DirChangesDone string
  | DirDeleted string
  | DirOther
  | ProcSocketClosed
  | TimerTick
  | StdinEvent bool
  | SocketEvent bool
  | SocketOutEvent bool

record env =
  sys_bool :: "world \<Rightarrow> call \<Rightarrow> bool"
  sys_int  :: "world \<Rightarrow> call \<Rightarrow> int"
  sys_str  :: "world \<Rightarrow> call \<Rightarrow> cstring"
  sys_dir  :: "world \<Rightarrow> string \<Rightarrow> string list"
  sys_events :: "world \<Rightarrow> loop_event list"
  json_parse :: "string \<Rightarrow> json option"
  json_gen :: "bool \<Rightarrow> json \<Rightarrow> string"
  sysconfdir :: string
  defaultsdir :: string

text \<open>
  \<open>sys_dir\<close> gives the names of a directory that was opened, \<open>sys_events\<close> the
  events that a main loop started at this point receives, after which it waits for ever; \<open>sysconfdir\<close> and
  \<open>defaultsdir\<close> are the two directories fixed when the runtime is built. An environment in
  which every call succeeds:
\<close>

definition env0 :: env where
  "env0 = \<lparr>sys_bool = \<lambda>w c. True, sys_int = \<lambda>w c. 0, sys_str = \<lambda>w c. None, sys_dir = \<lambda>w p. [],
     sys_events = \<lambda>w. [],
     json_parse = \<lambda>s. None, json_gen = \<lambda>p j. [], sysconfdir = ''/etc/cor'',
     defaultsdir = ''/usr/share/defaults/cor''\<rparr>"

definition callB :: "env \<Rightarrow> call \<Rightarrow> world \<Rightarrow> bool \<times> world" where
  "callB E c w = (sys_bool E w c, (c, RBool (sys_bool E w c)) # w)"

definition callI :: "env \<Rightarrow> call \<Rightarrow> world \<Rightarrow> int \<times> world" where
  "callI E c w = (sys_int E w c, (c, RInt (sys_int E w c)) # w)"

definition callS :: "env \<Rightarrow> call \<Rightarrow> world \<Rightarrow> cstring \<times> world" where
  "callS E c w = (sys_str E w c, (c, RStr (sys_str E w c)) # w)"

lemmas call_defs = callB_def callI_def callS_def

subsection \<open>Files, as the history left them\<close>

text \<open>
  The contents of a regular file after a history that starts from the disk \<open>d\<close>: a
  successful \<^verbatim>\<open>g_file_set_contents\<close> replaces it, a successful \<^verbatim>\<open>unlink\<close> removes it.
\<close>

type_synonym disk = "string \<Rightarrow> cstring"

fun file_view :: "disk \<Rightarrow> world \<Rightarrow> string \<Rightarrow> cstring" where
  "file_view d [] p = d p"
| "file_view d (x # w) p =
     (case x of
        (FileSet q s, RBool True) \<Rightarrow> if p = q then Some s else file_view d w p
      | (Unlink q, RInt r) \<Rightarrow> if r = 0 \<and> p = q then None else file_view d w p
      | _ \<Rightarrow> file_view d w p)"

text \<open>
  What the runtime relies on when it reads a file back: \<^verbatim>\<open>g_file_get_contents\<close> returns
  what the file holds, and fails on a missing one.
\<close>

definition reads_back :: "env \<Rightarrow> disk \<Rightarrow> string \<Rightarrow> bool" where
  "reads_back E d p \<longleftrightarrow> (\<forall>w. sys_str E w (FileGet p) = file_view d w p)"

text \<open>What the runtime relies on in the JSON library: a document is read back as it was written.\<close>

definition codec :: "env \<Rightarrow> bool" where
  "codec E \<longleftrightarrow> (\<forall>doc. json_parse E (json_gen E True doc) = Some doc)"

text \<open>An environment with files and a JSON library that satisfy both.\<close>

definition disk_env :: "disk \<Rightarrow> env" where
  "disk_env d = env0\<lparr>
     sys_bool := \<lambda>w c. (case c of FileExists p \<Rightarrow> file_view d w p \<noteq> None | IsATty \<Rightarrow> False | _ \<Rightarrow> True),
     sys_str := \<lambda>w c. (case c of FileGet p \<Rightarrow> file_view d w p | _ \<Rightarrow> None),
     json_parse := \<lambda>s. Some (from_nat (length s)),
     json_gen := \<lambda>p j. replicate (to_nat j) (CHR ''j'')\<rparr>"

lemma disk_env_ok: "codec (disk_env d)" "reads_back (disk_env d) d p"
  by (simp_all add: codec_def reads_back_def disk_env_def)

text \<open>Calls that leave every file as it is.\<close>

definition keeps_files :: "call \<Rightarrow> bool" where
  "keeps_files c \<longleftrightarrow> (case c of FileSet _ _ \<Rightarrow> False | Unlink _ \<Rightarrow> False | _ \<Rightarrow> True)"

lemma file_view_keeps [simp]: "keeps_files c \<Longrightarrow> file_view d ((c, r) # w) p = file_view d w p"
  by (cases c) (auto simp: keeps_files_def)

lemma file_view_set:
  "file_view d ((FileSet q s, RBool b) # w) p = (if b \<and> p = q then Some s else file_view d w p)"
  by (cases b) auto

lemma file_view_unlink:
  "file_view d ((Unlink q, RInt r) # w) p = (if r = 0 \<and> p = q then None else file_view d w p)"
  by simp

lemma file_view_append:
  "file_view d (new @ w) p = file_view (file_view d w) new p"
proof (induction new)
  case (Cons x new)
  then show ?case by (cases x) (auto split: call.splits reply.splits bool.splits)
qed simp

text \<open>The calls of a history, oldest first.\<close>

definition calls :: "world \<Rightarrow> call list" where
  "calls w = rev (map fst w)"

lemma calls_simps [simp]: "calls [] = []" "calls (x # w) = calls w @ [fst x]"
  by (simp_all add: calls_def)

text \<open>What was printed on the standard output, oldest first.\<close>

definition prints :: "world \<Rightarrow> string list" where
  "prints w = concat (map (\<lambda>c. case c of Print s \<Rightarrow> [s] | _ \<Rightarrow> []) (calls w))"

lemma prints_simps [simp]:
  "prints [] = []" "prints ((c, r) # w) = prints w @ (case c of Print s \<Rightarrow> [s] | _ \<Rightarrow> [])"
  by (simp_all add: prints_def)

text \<open>A run that only makes calls of some kind.\<close>

definition extends_by :: "(call \<Rightarrow> bool) \<Rightarrow> world \<Rightarrow> world \<Rightarrow> bool" where
  "extends_by P w w' \<longleftrightarrow> (\<exists>new. w' = new @ w \<and> (\<forall>x \<in> set new. P (fst x)))"

lemma extends_by_refl [simp, intro]: "extends_by P w w"
  by (simp add: extends_by_def)

lemma extends_by_snoc [simp, intro]: "extends_by P w w' \<Longrightarrow> P c \<Longrightarrow> extends_by P w ((c, r) # w')"
proof -
  assume "extends_by P w w'" and c: "P c"
  then obtain new where "w' = new @ w" "\<forall>x \<in> set new. P (fst x)"
    unfolding extends_by_def by blast
  with c show ?thesis unfolding extends_by_def by (intro exI [of _ "(c, r) # new"]) simp
qed

lemma extends_by_trans:
  assumes "extends_by P w w1" and "extends_by P w1 w2"
  shows "extends_by P w w2"
proof -
  from assms obtain new1 new2 where "w1 = new1 @ w" "\<forall>x \<in> set new1. P (fst x)"
    "w2 = new2 @ w1" "\<forall>x \<in> set new2. P (fst x)"
    unfolding extends_by_def by blast
  then show ?thesis unfolding extends_by_def by (intro exI [of _ "new2 @ new1"]) auto
qed

lemma extends_by_step: "extends_by P ((c, r) # w) w' \<Longrightarrow> P c \<Longrightarrow> extends_by P w w'"
  by (rule extends_by_trans [OF extends_by_snoc [OF extends_by_refl]])

lemma extends_by_mono: "extends_by P w w' \<Longrightarrow> (\<And>c. P c \<Longrightarrow> Q c) \<Longrightarrow> extends_by Q w w'"
  unfolding extends_by_def by blast

lemma extends_by_induct [consumes 1, case_names refl snoc]:
  assumes "extends_by P w w'" and "Q w" and "\<And>c r v. P c \<Longrightarrow> Q v \<Longrightarrow> Q ((c, r) # v)"
  shows "Q w'"
proof -
  obtain new where w': "w' = new @ w" "\<forall>x \<in> set new. P (fst x)"
    using assms(1) unfolding extends_by_def by blast
  have "\<forall>x \<in> set new. P (fst x) \<Longrightarrow> Q (new @ w)"
    using assms(2,3) by (induction new) auto
  with w' show ?thesis by blast
qed

lemma file_view_extends: "extends_by keeps_files w w' \<Longrightarrow> file_view d w' p = file_view d w p"
  by (induction rule: extends_by_induct) (simp_all del: file_view.simps)

subsection \<open>Iteration over a list of children\<close>

text \<open>
  \<^verbatim>\<open>g_node_children_foreach\<close> and the other list walks: the callback runs on each element in
  order, threading the state, and may end the process.
\<close>

fun foreach :: "('a \<Rightarrow> 's \<Rightarrow> 's option) \<Rightarrow> 'a list \<Rightarrow> 's \<Rightarrow> 's option" where
  "foreach f [] s = Some s"
| "foreach f (x # xs) s = do { s' \<leftarrow> f x s; foreach f xs s' }"

lemma foreach_append:
  "foreach f (xs @ ys) s = do { s' \<leftarrow> foreach f xs s; foreach f ys s' }"
proof (induction xs arbitrary: s)
  case (Cons x xs)
  then show ?case by (cases "f x s") auto
qed simp

lemma foreach_invariant:
  assumes "foreach f xs s = Some t" and "I s"
    and "\<And>x s t. x \<in> set xs \<Longrightarrow> f x s = Some t \<Longrightarrow> I s \<Longrightarrow> I t"
  shows "I t"
  using assms
proof (induction xs arbitrary: s)
  case (Cons x xs)
  then obtain s' where "f x s = Some s'" "foreach f xs s' = Some t"
    by (auto simp: bind_eq_Some_conv)
  with Cons show ?case by (metis list.set_intros)
qed simp

lemma foreach_total:
  "(\<And>x s. x \<in> set xs \<Longrightarrow> \<exists>t. f x s = Some t) \<Longrightarrow> \<exists>t. foreach f xs s = Some t"
proof (induction xs arbitrary: s)
  case (Cons x xs)
  then obtain s' where "f x s = Some s'" by (metis list.set_intros(1))
  with Cons show ?case by auto
qed simp

lemma foreach_total_inv:
  assumes "I s" and "\<And>x s. x \<in> set xs \<Longrightarrow> I s \<Longrightarrow> \<exists>t. f x s = Some t \<and> I t"
  shows "\<exists>t. foreach f xs s = Some t \<and> I t"
  using assms
proof (induction xs arbitrary: s)
  case (Cons x xs)
  from Cons.prems obtain s' where "f x s = Some s'" "I s'" by (metis list.set_intros(1))
  with Cons show ?case by simp
qed simp


lemma foreach_None_iff:
  "(\<And>x s. f x s = None \<longleftrightarrow> P x) \<Longrightarrow> foreach f xs s = None \<longleftrightarrow> (\<exists>x \<in> set xs. P x)"
proof (induction xs arbitrary: s)
  case (Cons x xs)
  show ?case
  proof (cases "f x s")
    case None
    then have "P x" using Cons.prems [of x s] by blast
    with None show ?thesis by simp
  next
    case (Some t)
    then have "\<not> P x" using Cons.prems [of x s] by (metis option.distinct(1))
    with Some Cons.IH [OF Cons.prems, of t] show ?thesis by simp
  qed
qed simp

end
