(* ===== verification/Oci_Types.thy ===== *)
theory Oci_Types
  imports World "HOL-Library.Word"
begin

text \<open>
  The data of \<^verbatim>\<open>src/oci.h\<close> and \<^verbatim>\<open>src/command.h\<close>. A struct is a record, an enum a
  datatype. A \<^verbatim>\<open>gchar *\<close> is a \<^typ>\<open>cstring\<close>; a \<^verbatim>\<open>gchar[PATH_MAX]\<close> is a
  string shorter than \<^const>\<open>PATH_MAX\<close>, empty when unset; a \<^verbatim>\<open>GSList\<close> is a list; a
  NULL-terminated \<^verbatim>\<open>gchar **\<close> that may be NULL is an optional list. The members of
  different structs that share a name are told apart by a prefix.
\<close>

subsection \<open>Constants\<close>

definition CLR_OCI_SUPPORTED_SPEC_VERSION :: string where
  "CLR_OCI_SUPPORTED_SPEC_VERSION = ''1.0.0-rc1''"
definition CLR_OCI_CONFIG_FILE :: string where "CLR_OCI_CONFIG_FILE = ''config.json''"
definition CLR_OCI_HYPERVISOR_SOCKET :: string where "CLR_OCI_HYPERVISOR_SOCKET = ''hypervisor.sock''"
definition CLR_OCI_PROCESS_SOCKET :: string where "CLR_OCI_PROCESS_SOCKET = ''process.sock''"
definition CLR_OCI_CONSOLE_SOCKET :: string where "CLR_OCI_CONSOLE_SOCKET = ''console.sock''"
definition CLR_OCI_STATE_FILE :: string where "CLR_OCI_STATE_FILE = ''state.json''"
definition CLR_OCI_RUNTIME_DIR_PREFIX :: string where
  "CLR_OCI_RUNTIME_DIR_PREFIX = ''/run/opencontainer/containers''"
definition CLR_OCI_SCRIPT_MODE :: nat where "CLR_OCI_SCRIPT_MODE = 493"  \<comment> \<open>0755\<close>
definition CLR_OCI_DIR_MODE :: nat where "CLR_OCI_DIR_MODE = 488"  \<comment> \<open>0750\<close>
definition CLR_OCI_EXPECTED_PLATFORM :: string where "CLR_OCI_EXPECTED_PLATFORM = ''linux''"
definition CLR_OCI_EXPECTED_ARCHITECTURE :: string where "CLR_OCI_EXPECTED_ARCHITECTURE = ''amd64''"
definition CLR_OCI_WORKLOAD_FILE :: string where "CLR_OCI_WORKLOAD_FILE = ''/.containerexec''"
definition CLR_OCI_ENV_FILE :: string where "CLR_OCI_ENV_FILE = ''/.dockerenv''"
definition CLR_OCI_WORKLOAD_SHELL :: string where "CLR_OCI_WORKLOAD_SHELL = ''/bin/sh''"
definition CLR_OCI_EXEC_CMD :: string where "CLR_OCI_EXEC_CMD = ''ssh''"
definition CLR_OCI_VM_CONFIG :: string where "CLR_OCI_VM_CONFIG = ''vm.json''"

subsection \<open>Enumerations\<close>

datatype oci_status =
    OCI_STATUS_CREATED
  | OCI_STATUS_RUNNING
  | OCI_STATUS_PAUSED
  | OCI_STATUS_STOPPED
  | OCI_STATUS_STOPPING
  | OCI_STATUS_INVALID

datatype oci_namespace =
    OCI_NS_PID
  | OCI_NS_NET
  | OCI_NS_MOUNT
  | OCI_NS_IPC
  | OCI_NS_UTS
  | OCI_NS_USER
  | OCI_NS_CGROUP
  | OCI_NS_INVALID

text \<open>The values of the enumerators: the \<^verbatim>\<open>CLONE_*\<close> flags.\<close>

fun oci_namespace_value :: "oci_namespace \<Rightarrow> int" where
  "oci_namespace_value OCI_NS_PID = 0x20000000"
| "oci_namespace_value OCI_NS_NET = 0x40000000"
| "oci_namespace_value OCI_NS_MOUNT = 0x00020000"
| "oci_namespace_value OCI_NS_IPC = 0x08000000"
| "oci_namespace_value OCI_NS_UTS = 0x04000000"
| "oci_namespace_value OCI_NS_USER = 0x10000000"
| "oci_namespace_value OCI_NS_CGROUP = 0x02000000"
| "oci_namespace_value OCI_NS_INVALID = 0"

subsection \<open>The OCI configuration\<close>

record oci_cfg_platform =
  plat_os :: cstring
  plat_arch :: cstring

record oci_cfg_root =
  rootfs_path :: string
  read_only :: bool

record oci_cfg_user =
  uid :: int
  gid :: int

record oci_cfg_hook =
  hook_path :: string
  hook_args :: "string list option"
  hook_env :: "string list option"
  hook_timeout :: int

record oci_cfg_hooks =
  prestart :: "oci_cfg_hook list"
  poststart :: "oci_cfg_hook list"
  poststop :: "oci_cfg_hook list"

record oci_cfg_annotation =
  ann_key :: string
  ann_value :: cstring

record oci_cfg_namespace =
  ns_type :: oci_namespace
  ns_path :: cstring

record oci_cfg_process =
  proc_args :: "string list option"
  proc_cwd :: string
  proc_env :: "string list option"
  proc_terminal :: bool
  proc_user :: oci_cfg_user

text \<open>\<^verbatim>\<open>struct clr_oci_mount\<close>, with the members of its \<^verbatim>\<open>struct mntent\<close>.\<close>

record clr_oci_mount =
  mnt_flags :: "64 word"
  mnt_fsname :: cstring
  mnt_dir :: cstring
  mnt_type :: cstring
  mnt_opts :: cstring
  mnt_dest :: string
  ignore_mount :: bool

record oci_cfg =
  oci_version :: cstring
  hooks :: oci_cfg_hooks
  hostname :: cstring
  mounts :: "clr_oci_mount list"
  annotations :: "oci_cfg_annotation list"
  platform :: oci_cfg_platform
  rootfs :: oci_cfg_root
  oci_process :: oci_cfg_process
  namespaces :: "oci_cfg_namespace list"

subsection \<open>Runtime data\<close>

record clr_oci_vm_cfg =
  hypervisor_path :: string
  image_path :: string
  kernel_path :: string
  workload_path :: string
  kernel_params :: cstring

record oci_state =
  s_oci_version :: cstring
  s_id :: cstring
  s_pid :: int
  s_bundle_path :: cstring
  s_comms_path :: cstring
  s_procsock_path :: cstring
  s_status :: oci_status
  s_create_time :: cstring
  s_mounts :: "clr_oci_mount list"
  s_annotations :: "oci_cfg_annotation list"
  s_console :: cstring
  s_use_socket_console :: bool
  s_vm :: "clr_oci_vm_cfg option"

record clr_oci_container_state =
  state_file_path :: string
  runtime_path :: string
  comms_path :: string
  procsock_path :: string
  workload_pid :: int
  status :: oci_status

record clr_oci_config =
  oci :: oci_cfg
  vm :: "clr_oci_vm_cfg option"
  cstate :: clr_oci_container_state
  bundle_path :: cstring
  pid_file :: cstring
  console :: cstring
  use_socket_console :: bool
  root_dir :: cstring
  optarg_container_id :: cstring
  dry_run_mode :: bool
  detached_mode :: bool

record start_data =
  sd_bundle :: cstring
  sd_console :: cstring
  sd_pid_file :: cstring
  sd_detach :: bool
  sd_dry_run_mode :: bool

subsection \<open>Zeroed structures (\<^verbatim>\<open>g_new0\<close> and \<^verbatim>\<open>= { 0 }\<close>)\<close>

definition vm_cfg0 :: clr_oci_vm_cfg where
  "vm_cfg0 = \<lparr>hypervisor_path = [], image_path = [], kernel_path = [], workload_path = [],
     kernel_params = None\<rparr>"

definition mount0 :: clr_oci_mount where
  "mount0 = \<lparr>mnt_flags = 0, mnt_fsname = None, mnt_dir = None, mnt_type = None, mnt_opts = None,
     mnt_dest = [], ignore_mount = False\<rparr>"

definition hook0 :: oci_cfg_hook where
  "hook0 = \<lparr>hook_path = [], hook_args = None, hook_env = None, hook_timeout = 0\<rparr>"

definition namespace0 :: oci_cfg_namespace where
  "namespace0 = \<lparr>ns_type = OCI_NS_INVALID, ns_path = None\<rparr>"

definition oci_state0 :: oci_state where
  "oci_state0 = \<lparr>s_oci_version = None, s_id = None, s_pid = 0, s_bundle_path = None,
     s_comms_path = None, s_procsock_path = None, s_status = OCI_STATUS_CREATED,
     s_create_time = None, s_mounts = [], s_annotations = [], s_console = None,
     s_use_socket_console = False, s_vm = None\<rparr>"

definition oci_cfg0 :: oci_cfg where
  "oci_cfg0 = \<lparr>oci_version = None, hooks = \<lparr>prestart = [], poststart = [], poststop = []\<rparr>,
     hostname = None, mounts = [], annotations = [],
     platform = \<lparr>plat_os = None, plat_arch = None\<rparr>,
     rootfs = \<lparr>rootfs_path = [], read_only = False\<rparr>,
     oci_process = \<lparr>proc_args = None, proc_cwd = [], proc_env = None, proc_terminal = False,
       proc_user = \<lparr>uid = 0, gid = 0\<rparr>\<rparr>,
     namespaces = []\<rparr>"

definition container_state0 :: clr_oci_container_state where
  "container_state0 = \<lparr>state_file_path = [], runtime_path = [], comms_path = [],
     procsock_path = [], workload_pid = 0, status = OCI_STATUS_CREATED\<rparr>"

definition config0 :: clr_oci_config where
  "config0 = \<lparr>oci = oci_cfg0, vm = None, cstate = container_state0, bundle_path = None,
     pid_file = None, console = None, use_socket_console = False, root_dir = None,
     optarg_container_id = None, dry_run_mode = False, detached_mode = False\<rparr>"

lemmas zeroed = vm_cfg0_def mount0_def hook0_def namespace0_def oci_state0_def oci_cfg0_def
  container_state0_def config0_def

lemma zero_fields [simp]:
  "cstate config0 = container_state0" "oci config0 = oci_cfg0" "vm config0 = None"
  "optarg_container_id config0 = None" "root_dir config0 = None"
  "mounts oci_cfg0 = []" "annotations oci_cfg0 = []" "hooks oci_cfg0 = \<lparr>prestart = [], poststart = [], poststop = []\<rparr>"
  "state_file_path container_state0 = []" "runtime_path container_state0 = []"
  by (simp_all add: zeroed)

abbreviation set_status :: "oci_status \<Rightarrow> clr_oci_config \<Rightarrow> clr_oci_config" where
  "set_status s c \<equiv> c\<lparr>cstate := (cstate c)\<lparr>status := s\<rparr>\<rparr>"

subsection \<open>Tables that name an enumeration\<close>

text \<open>
  \<^verbatim>\<open>struct clr_oci_map\<close> tables, without their terminator, and the two loops every user
  of such a table writes: the name of the first entry with a number, the number of the first
  entry with a name.
\<close>

type_synonym 'a clr_oci_map = "('a \<times> string) list"

fun name_of :: "'a clr_oci_map \<Rightarrow> 'a \<Rightarrow> cstring" where
  "name_of [] k = None"
| "name_of ((n, s) # tbl) k = (if n = k then Some s else name_of tbl k)"

fun num_of :: "'a clr_oci_map \<Rightarrow> cstring \<Rightarrow> 'a option" where
  "num_of [] str = None"
| "num_of ((n, s) # tbl) str = (if g_strcmp0 str (Some s) = 0 then Some n else num_of tbl str)"

lemma name_of_Some_in: "name_of tbl k = Some s \<Longrightarrow> (k, s) \<in> set tbl"
  by (induction tbl k rule: name_of.induct) (auto split: if_splits)

lemma num_of_Some_in: "num_of tbl str = Some k \<Longrightarrow> \<exists>s. str = Some s \<and> (k, s) \<in> set tbl"
  by (induction tbl str rule: num_of.induct) (auto split: if_splits)

lemma num_of_None_iff: "num_of tbl (Some s) = None \<longleftrightarrow> s \<notin> set (map snd tbl)"
  by (induction tbl "Some s" rule: num_of.induct) auto

lemma name_of_None_iff: "name_of tbl k = None \<longleftrightarrow> k \<notin> set (map fst tbl)"
  by (induction tbl k rule: name_of.induct) auto

text \<open>The contract of a table: no number and no name occurs twice.\<close>

locale enum_table =
  fixes tbl :: "'a clr_oci_map"
  assumes nums: "distinct (map fst tbl)"
    and names: "distinct (map snd tbl)"
begin

lemma name_of_in: "(k, s) \<in> set tbl \<Longrightarrow> name_of tbl k = Some s"
  using nums by (induction tbl k rule: name_of.induct) (auto simp: rev_image_eqI)

lemma num_of_in: "(k, s) \<in> set tbl \<Longrightarrow> num_of tbl (Some s) = Some k"
  using names by (induction tbl "Some s" rule: num_of.induct) (auto simp: rev_image_eqI)

lemma roundtrip: "name_of tbl k = Some s \<longleftrightarrow> num_of tbl (Some s) = Some k"
proof
  assume "name_of tbl k = Some s"
  then show "num_of tbl (Some s) = Some k" by (intro num_of_in name_of_Some_in)
next
  assume "num_of tbl (Some s) = Some k"
  then show "name_of tbl k = Some s" by (auto dest: num_of_Some_in intro: name_of_in)
qed

end

end
