(* ===== verification/Memory.thy ===== *)
theory Memory
  imports Oci_Types "HOL-Library.Multiset"
begin

text \<open>
  The memory that the structures own and the functions that release it. The other theories treat
  a structure as a value; here it is the tree of the blocks that its pointers lead to. A block is
  live or it is not, and releasing one that is not live kills the process.
\<close>

subsection \<open>Blocks\<close>

type_synonym addr = nat

text \<open>The live blocks; blocks from \<open>next_addr\<close> on were never handed out.\<close>

record mem =
  live :: "addr set"
  next_addr :: addr

definition g_malloc :: "mem \<Rightarrow> addr \<times> mem" where
  "g_malloc m = (next_addr m, m\<lparr>live := insert (next_addr m) (live m), next_addr := Suc (next_addr m)\<rparr>)"

definition g_free :: "addr \<Rightarrow> mem \<Rightarrow> mem option" where
  "g_free a m = (if a \<in> live m then Some (m\<lparr>live := live m - {a}\<rparr>) else None)"

text \<open>\<^verbatim>\<open>g_free\<close> of a pointer that may be NULL; the macro also resets the pointer.\<close>

definition g_free_if_set :: "addr option \<Rightarrow> mem \<Rightarrow> mem option" where
  "g_free_if_set p m = (case p of None \<Rightarrow> Some m | Some a \<Rightarrow> g_free a m)"

text \<open>A vector of strings: its array and its strings.\<close>

type_synonym strv = "addr \<times> addr list"

fun free_list :: "addr list \<Rightarrow> mem \<Rightarrow> mem option" where
  "free_list [] m = Some m"
| "free_list (a # as) m = do { m \<leftarrow> g_free a m; free_list as m }"

definition g_strfreev :: "strv option \<Rightarrow> mem \<Rightarrow> mem option" where
  "g_strfreev v m = (case v of None \<Rightarrow> Some m | Some (a, ss) \<Rightarrow> do { m \<leftarrow> free_list ss m; g_free a m })"

text \<open>
  A list: its cells and what they point to. \<^verbatim>\<open>g_slist_free_full\<close> releases all the elements,
  then all the cells.
\<close>

type_synonym 'a gslist = "(addr \<times> 'a) list"

fun g_slist_foreach :: "('a \<Rightarrow> mem \<Rightarrow> mem option) \<Rightarrow> 'a gslist \<Rightarrow> mem \<Rightarrow> mem option" where
  "g_slist_foreach f [] m = Some m"
| "g_slist_foreach f ((a, x) # l) m = do { m \<leftarrow> f x m; g_slist_foreach f l m }"

definition g_slist_free_full :: "('a \<Rightarrow> mem \<Rightarrow> mem option) \<Rightarrow> 'a gslist \<Rightarrow> mem \<Rightarrow> mem option" where
  "g_slist_free_full f l m = do { m \<leftarrow> g_slist_foreach f l m; free_list (map fst l) m }"

subsection \<open>Structures\<close>

text \<open>The block of a structure, where it has one of its own, and the pointers it owns.\<close>

record mount_mem =
  mm_block :: addr
  mm_fsname :: "addr option"
  mm_dir :: "addr option"
  mm_type :: "addr option"
  mm_opts :: "addr option"

record annotation_mem =
  ma_block :: addr
  ma_key :: "addr option"
  ma_value :: "addr option"

record hook_mem =
  mh_block :: addr
  mh_args :: "strv option"
  mh_env :: "strv option"

record ns_mem =
  mn_block :: addr
  mn_path :: "addr option"

record vm_mem =
  mv_block :: addr
  mv_kernel_params :: "addr option"

record state_mem =
  ms_block :: addr
  ms_oci_version :: "addr option"
  ms_id :: "addr option"
  ms_bundle_path :: "addr option"
  ms_comms_path :: "addr option"
  ms_procsock_path :: "addr option"
  ms_create_time :: "addr option"
  ms_mounts :: "mount_mem gslist"
  ms_annotations :: "annotation_mem gslist"
  ms_console :: "addr option"
  ms_vm :: "vm_mem option"

record config_mem =
  mc_oci_version :: "addr option"
  mc_hostname :: "addr option"
  mc_console :: "addr option"
  mc_bundle_path :: "addr option"
  mc_root_dir :: "addr option"
  mc_pid_file :: "addr option"
  mc_vm :: "vm_mem option"
  mc_args :: "strv option"
  mc_env :: "strv option"
  mc_mounts :: "mount_mem gslist"
  mc_annotations :: "annotation_mem gslist"
  mc_os :: "addr option"
  mc_arch :: "addr option"
  mc_prestart :: "hook_mem gslist"
  mc_poststart :: "hook_mem gslist"
  mc_poststop :: "hook_mem gslist"
  mc_namespaces :: "ns_mem gslist"

definition config_mem0 :: config_mem where
  "config_mem0 = \<lparr>mc_oci_version = None, mc_hostname = None, mc_console = None, mc_bundle_path = None,
     mc_root_dir = None, mc_pid_file = None, mc_vm = None, mc_args = None, mc_env = None, mc_mounts = [],
     mc_annotations = [], mc_os = None, mc_arch = None, mc_prestart = [], mc_poststart = [],
     mc_poststop = [], mc_namespaces = []\<rparr>"

subsection \<open>Release\<close>

definition clr_oci_mount_free :: "mount_mem \<Rightarrow> mem \<Rightarrow> mem option" where
  "clr_oci_mount_free x m = do {
     m \<leftarrow> g_free_if_set (mm_fsname x) m;
     m \<leftarrow> g_free_if_set (mm_dir x) m;
     m \<leftarrow> g_free_if_set (mm_type x) m;
     m \<leftarrow> g_free_if_set (mm_opts x) m;
     g_free (mm_block x) m
   }"

definition clr_oci_mounts_free_all :: "mount_mem gslist \<Rightarrow> mem \<Rightarrow> mem option" where
  "clr_oci_mounts_free_all l m = (if l = [] then Some m else g_slist_free_full clr_oci_mount_free l m)"

definition clr_oci_annotation_free :: "annotation_mem \<Rightarrow> mem \<Rightarrow> mem option" where
  "clr_oci_annotation_free x m = do {
     m \<leftarrow> g_free_if_set (ma_key x) m;
     m \<leftarrow> g_free_if_set (ma_value x) m;
     g_free (ma_block x) m
   }"

definition clr_oci_annotations_free_all :: "annotation_mem gslist \<Rightarrow> mem \<Rightarrow> mem option" where
  "clr_oci_annotations_free_all l m =
     (if l = [] then Some m else g_slist_free_full clr_oci_annotation_free l m)"

definition clr_oci_hook_free :: "hook_mem \<Rightarrow> mem \<Rightarrow> mem option" where
  "clr_oci_hook_free h m = do {
     m \<leftarrow> g_strfreev (mh_args h) m;
     m \<leftarrow> g_strfreev (mh_env h) m;
     g_free (mh_block h) m
   }"

definition clr_oci_ns_free :: "ns_mem \<Rightarrow> mem \<Rightarrow> mem option" where
  "clr_oci_ns_free ns m = do {
     m \<leftarrow> g_free_if_set (mn_path ns) m;
     g_free (mn_block ns) m
   }"

text \<open>The VM is released in line, by the two functions that follow.\<close>

definition vm_free :: "vm_mem option \<Rightarrow> mem \<Rightarrow> mem option" where
  "vm_free v m =
     (case v of
        None \<Rightarrow> Some m
      | Some vmc \<Rightarrow> do { m \<leftarrow> g_free_if_set (mv_kernel_params vmc) m; g_free (mv_block vmc) m })"

definition state_free :: "state_mem option \<Rightarrow> mem \<Rightarrow> mem option" where
  "state_free p m =
     (case p of
        None \<Rightarrow> Some m
      | Some st \<Rightarrow> do {
          m \<leftarrow> g_free_if_set (ms_oci_version st) m;
          m \<leftarrow> g_free_if_set (ms_id st) m;
          m \<leftarrow> g_free_if_set (ms_bundle_path st) m;
          m \<leftarrow> g_free_if_set (ms_comms_path st) m;
          m \<leftarrow> g_free_if_set (ms_procsock_path st) m;
          m \<leftarrow> g_free_if_set (ms_create_time st) m;
          m \<leftarrow> g_free_if_set (ms_console st) m;
          m \<leftarrow> clr_oci_mounts_free_all (ms_mounts st) m;
          m \<leftarrow> vm_free (ms_vm st) m;
          m \<leftarrow> clr_oci_annotations_free_all (ms_annotations st) m;
          g_free (ms_block st) m
        })"

text \<open>
  The pointers that the macro resets are NULL afterwards; those of the VM, the vectors and the
  lists still point to the released blocks.
\<close>

definition clr_oci_config_free :: "config_mem \<Rightarrow> mem \<Rightarrow> (config_mem \<times> mem) option" where
  "clr_oci_config_free config m = do {
     m \<leftarrow> g_free_if_set (mc_oci_version config) m;
     m \<leftarrow> g_free_if_set (mc_hostname config) m;
     m \<leftarrow> g_free_if_set (mc_console config) m;
     m \<leftarrow> g_free_if_set (mc_bundle_path config) m;
     m \<leftarrow> g_free_if_set (mc_root_dir config) m;
     m \<leftarrow> g_free_if_set (mc_pid_file config) m;
     m \<leftarrow> vm_free (mc_vm config) m;
     m \<leftarrow> g_strfreev (mc_args config) m;
     m \<leftarrow> g_strfreev (mc_env config) m;
     m \<leftarrow> clr_oci_mounts_free_all (mc_mounts config) m;
     m \<leftarrow> clr_oci_annotations_free_all (mc_annotations config) m;
     m \<leftarrow> g_free_if_set (mc_os config) m;
     m \<leftarrow> g_free_if_set (mc_arch config) m;
     m \<leftarrow> g_slist_free_full clr_oci_hook_free (mc_prestart config) m;
     m \<leftarrow> g_slist_free_full clr_oci_hook_free (mc_poststart config) m;
     m \<leftarrow> g_slist_free_full clr_oci_hook_free (mc_poststop config) m;
     m \<leftarrow> g_slist_free_full clr_oci_ns_free (mc_namespaces config) m;
     Some (config\<lparr>mc_oci_version := None, mc_hostname := None, mc_console := None, mc_bundle_path := None,
             mc_root_dir := None, mc_pid_file := None, mc_os := None, mc_arch := None\<rparr>, m)
   }"

subsection \<open>What is owned\<close>

text \<open>The blocks of a structure in the order in which they are released.\<close>

definition owned_ptr :: "addr option \<Rightarrow> addr list" where
  "owned_ptr p = (case p of None \<Rightarrow> [] | Some a \<Rightarrow> [a])"

definition owned_strv :: "strv option \<Rightarrow> addr list" where
  "owned_strv v = (case v of None \<Rightarrow> [] | Some (a, ss) \<Rightarrow> ss @ [a])"

definition owned_list :: "('a \<Rightarrow> addr list) \<Rightarrow> 'a gslist \<Rightarrow> addr list" where
  "owned_list f l = concat (map (f \<circ> snd) l) @ map fst l"

definition owned_mount :: "mount_mem \<Rightarrow> addr list" where
  "owned_mount x = owned_ptr (mm_fsname x) @ owned_ptr (mm_dir x) @ owned_ptr (mm_type x) @ owned_ptr (mm_opts x)
     @ [mm_block x]"

definition owned_annotation :: "annotation_mem \<Rightarrow> addr list" where
  "owned_annotation x = owned_ptr (ma_key x) @ owned_ptr (ma_value x) @ [ma_block x]"

definition owned_hook :: "hook_mem \<Rightarrow> addr list" where
  "owned_hook h = owned_strv (mh_args h) @ owned_strv (mh_env h) @ [mh_block h]"

definition owned_ns :: "ns_mem \<Rightarrow> addr list" where
  "owned_ns ns = owned_ptr (mn_path ns) @ [mn_block ns]"

definition owned_vm :: "vm_mem option \<Rightarrow> addr list" where
  "owned_vm v = (case v of None \<Rightarrow> [] | Some x \<Rightarrow> owned_ptr (mv_kernel_params x) @ [mv_block x])"

definition owned_state :: "state_mem \<Rightarrow> addr list" where
  "owned_state st = owned_ptr (ms_oci_version st) @ owned_ptr (ms_id st) @ owned_ptr (ms_bundle_path st)
     @ owned_ptr (ms_comms_path st) @ owned_ptr (ms_procsock_path st) @ owned_ptr (ms_create_time st)
     @ owned_ptr (ms_console st) @ owned_list owned_mount (ms_mounts st) @ owned_vm (ms_vm st)
     @ owned_list owned_annotation (ms_annotations st) @ [ms_block st]"

definition owned_config :: "config_mem \<Rightarrow> addr list" where
  "owned_config c = owned_ptr (mc_oci_version c) @ owned_ptr (mc_hostname c) @ owned_ptr (mc_console c)
     @ owned_ptr (mc_bundle_path c) @ owned_ptr (mc_root_dir c) @ owned_ptr (mc_pid_file c) @ owned_vm (mc_vm c)
     @ owned_strv (mc_args c) @ owned_strv (mc_env c) @ owned_list owned_mount (mc_mounts c)
     @ owned_list owned_annotation (mc_annotations c) @ owned_ptr (mc_os c) @ owned_ptr (mc_arch c)
     @ owned_list owned_hook (mc_prestart c) @ owned_list owned_hook (mc_poststart c)
     @ owned_list owned_hook (mc_poststop c) @ owned_list owned_ns (mc_namespaces c)"

named_theorems releases \<open>release functions as the release of a list of blocks\<close>

lemma free_list_none [simp]: "free_list [] = Some"
  by (simp add: fun_eq_iff)

lemma free_list_append [releases]: "free_list (as @ bs) m = do { m \<leftarrow> free_list as m; free_list bs m }"
proof (induction as arbitrary: m)
  case (Cons a as)
  then show ?case by (cases "g_free a m") simp_all
qed simp

text \<open>Releasing a list of blocks works exactly when they are live and none occurs twice.\<close>

lemma free_list_iff:
  "free_list as m = (if distinct as \<and> set as \<subseteq> live m then Some (m\<lparr>live := live m - set as\<rparr>) else None)"
proof (induction as arbitrary: m)
  case (Cons a as)
  have "live m - {a} - set as = live m - set (a # as)" by auto
  with Cons show ?case by (auto simp: g_free_def)
qed simp

lemma free_ptr [releases]: "g_free_if_set p m = free_list (owned_ptr p) m"
  by (cases p) (simp_all add: g_free_if_set_def owned_ptr_def)

lemma free_strv [releases]: "g_strfreev v m = free_list (owned_strv v) m"
  by (auto simp: g_strfreev_def owned_strv_def free_list_append split: option.split)

lemma free_list_one [simp]: "free_list [a] = g_free a"
  by (simp add: fun_eq_iff)

text \<open>What an element's release does, the release of a list does for all of them.\<close>

locale releaser =
  fixes release :: "'a \<Rightarrow> mem \<Rightarrow> mem option" and owned :: "'a \<Rightarrow> addr list"
  assumes release_owned: "release x m = free_list (owned x) m"
begin

lemma release_list: "g_slist_free_full release l m = free_list (owned_list owned l) m"
proof -
  have "g_slist_foreach release l m = free_list (concat (map (owned \<circ> snd) l)) m"
  proof (induction l arbitrary: m)
    case (Cons x l)
    then show ?case
      by (cases x; cases "release (snd x) m") (simp_all add: release_owned free_list_append)
  qed simp
  then show ?thesis by (simp add: g_slist_free_full_def owned_list_def free_list_append)
qed

lemma release_nonempty: "(if l = [] then Some m else g_slist_free_full release l m) = free_list (owned_list owned l) m"
  by (simp add: release_list owned_list_def)

end

interpretation mounts_release: releaser clr_oci_mount_free owned_mount
  by unfold_locales (simp add: clr_oci_mount_free_def owned_mount_def releases)

interpretation annotations_release: releaser clr_oci_annotation_free owned_annotation
  by unfold_locales (simp add: clr_oci_annotation_free_def owned_annotation_def releases)

interpretation hooks_release: releaser clr_oci_hook_free owned_hook
  by unfold_locales (simp add: clr_oci_hook_free_def owned_hook_def releases)

interpretation ns_release: releaser clr_oci_ns_free owned_ns
  by unfold_locales (simp add: clr_oci_ns_free_def owned_ns_def releases)

lemma free_lists [releases]:
  "clr_oci_mounts_free_all l m = free_list (owned_list owned_mount l) m"
  "clr_oci_annotations_free_all l2 m = free_list (owned_list owned_annotation l2) m"
  by (simp_all only: clr_oci_mounts_free_all_def clr_oci_annotations_free_all_def
      mounts_release.release_nonempty annotations_release.release_nonempty)

lemma free_vm [releases]: "vm_free v m = free_list (owned_vm v) m"
  by (auto simp: vm_free_def owned_vm_def releases split: option.split)

lemma free_state: "state_free (Some st) m = free_list (owned_state st) m"
  by (simp add: state_free_def owned_state_def releases)

lemma free_config: "map_option snd (clr_oci_config_free config m) = free_list (owned_config config) m"
  by (simp add: clr_oci_config_free_def owned_config_def releases hooks_release.release_list
      ns_release.release_list map_option_bind comp_def)

subsection \<open>Messages and trees\<close>

text \<open>A GLib string: its structure and its buffer.\<close>

record gstring_mem =
  gs_block :: addr
  gs_str :: addr

definition clr_oci_net_msg_free :: "gstring_mem \<Rightarrow> mem \<Rightarrow> mem option" where
  "clr_oci_net_msg_free msg m = do { m \<leftarrow> g_free (gs_str msg) m; g_free (gs_block msg) m }"

definition clr_oci_net_msgs_free_all :: "gstring_mem gslist \<Rightarrow> mem \<Rightarrow> mem option" where
  "clr_oci_net_msgs_free_all msgs m = (if msgs = [] then Some m else g_slist_free_full clr_oci_net_msg_free msgs m)"

definition owned_msg :: "gstring_mem \<Rightarrow> addr list" where
  "owned_msg msg = [gs_str msg, gs_block msg]"

interpretation msgs_release: releaser clr_oci_net_msg_free owned_msg
  by unfold_locales (simp add: clr_oci_net_msg_free_def owned_msg_def)

text \<open>
  A tree of nodes, each with a string. The macro releases the strings in post-order, children
  before their parent, and then the nodes in the same order.
\<close>

datatype node_mem = NodeMem (nm_block: addr) (nm_data: "addr option") (nm_children: "node_mem list")

definition gnode_free :: "node_mem \<Rightarrow> mem \<Rightarrow> mem option" where
  "gnode_free node m = (case nm_data node of None \<Rightarrow> Some m | Some a \<Rightarrow> g_free a m)"

fun in_post_order :: "(node_mem \<Rightarrow> mem \<Rightarrow> mem option) \<Rightarrow> node_mem \<Rightarrow> mem \<Rightarrow> mem option" and
    in_post_order_all :: "(node_mem \<Rightarrow> mem \<Rightarrow> mem option) \<Rightarrow> node_mem list \<Rightarrow> mem \<Rightarrow> mem option" where
  "in_post_order f (NodeMem a d ns) m = do { m \<leftarrow> in_post_order_all f ns m; f (NodeMem a d ns) m }"
| "in_post_order_all f [] m = Some m"
| "in_post_order_all f (n # ns) m = do { m \<leftarrow> in_post_order f n m; in_post_order_all f ns m }"

definition g_free_node :: "node_mem option \<Rightarrow> mem \<Rightarrow> mem option" where
  "g_free_node p m =
     (case p of
        None \<Rightarrow> Some m
      | Some node \<Rightarrow> do {
          m \<leftarrow> in_post_order gnode_free node m;
          in_post_order (\<lambda>n. g_free (nm_block n)) node m
        })"

fun post_order :: "node_mem \<Rightarrow> node_mem list" where
  "post_order (NodeMem a d ns) = concat (map post_order ns) @ [NodeMem a d ns]"

lemma in_post_order_list:
  "(\<And>n m. f n m = free_list (owned n) m) \<Longrightarrow>
     in_post_order f n m = free_list (concat (map owned (post_order n))) m"
  "(\<And>n m. f n m = free_list (owned n) m) \<Longrightarrow>
     in_post_order_all f ns m = free_list (concat (map owned (concat (map post_order ns)))) m"
  by (induction f n m and f ns m rule: in_post_order_in_post_order_all.induct)
    (auto simp: free_list_append cong: Option.bind_cong split: Option.bind_split)

text \<open>The whole tree is released, and only it.\<close>

lemma free_node:
  "g_free_node (Some n) m =
     free_list (concat (map (owned_ptr \<circ> nm_data) (post_order n)) @ map nm_block (post_order n)) m"
proof -
  have data: "gnode_free n m = free_list ((owned_ptr \<circ> nm_data) n) m" for n m
    by (simp add: gnode_free_def owned_ptr_def split: option.split)
  have block: "g_free (nm_block n) m = free_list [nm_block n] m" for n m by simp
  have "in_post_order (\<lambda>n. g_free (nm_block n)) n = free_list (map nm_block (post_order n))"
    using in_post_order_list(1) [of "\<lambda>n. g_free (nm_block n)" "\<lambda>n. [nm_block n]", OF block] by (simp add: fun_eq_iff)
  then show ?thesis
    by (simp only: g_free_node_def option.case in_post_order_list(1) [OF data] free_list_append)
qed

subsection \<open>Allocation\<close>

text \<open>
  The blocks that a structure takes when it is made: one for every string that is there, one for
  every cell, one for itself. The order of the allocations does not matter.
\<close>

definition place_ptr :: "cstring \<Rightarrow> mem \<Rightarrow> addr option \<times> mem" where
  "place_ptr s m = (case s of None \<Rightarrow> (None, m) | Some _ \<Rightarrow> (case g_malloc m of (a, m) \<Rightarrow> (Some a, m)))"

fun place_all :: "('v \<Rightarrow> mem \<Rightarrow> 'a \<times> mem) \<Rightarrow> 'v list \<Rightarrow> mem \<Rightarrow> 'a list \<times> mem" where
  "place_all f [] m = ([], m)"
| "place_all f (v # vs) m =
     (case f v m of (x, m) \<Rightarrow> (case place_all f vs m of (xs, m) \<Rightarrow> (x # xs, m)))"

definition place_strv :: "string list option \<Rightarrow> mem \<Rightarrow> strv option \<times> mem" where
  "place_strv v m =
     (case v of
        None \<Rightarrow> (None, m)
      | Some ss \<Rightarrow>
          (case place_all (\<lambda>_. g_malloc) ss m of (as, m) \<Rightarrow> (case g_malloc m of (a, m) \<Rightarrow> (Some (a, as), m))))"

definition place_list :: "('v \<Rightarrow> mem \<Rightarrow> 'a \<times> mem) \<Rightarrow> 'v list \<Rightarrow> mem \<Rightarrow> 'a gslist \<times> mem" where
  "place_list f vs m =
     (case place_all f vs m of (xs, m) \<Rightarrow>
        (case place_all (\<lambda>_. g_malloc) vs m of (cells, m) \<Rightarrow> (zip cells xs, m)))"

definition place_mount :: "clr_oci_mount \<Rightarrow> mem \<Rightarrow> mount_mem \<times> mem" where
  "place_mount x m =
     (case place_ptr (mnt_fsname x) m of (fs, m) \<Rightarrow>
      case place_ptr (mnt_dir x) m of (dr, m) \<Rightarrow>
      case place_ptr (mnt_type x) m of (ty, m) \<Rightarrow>
      case place_ptr (mnt_opts x) m of (os, m) \<Rightarrow>
      case g_malloc m of (b, m) \<Rightarrow>
        (\<lparr>mm_block = b, mm_fsname = fs, mm_dir = dr, mm_type = ty, mm_opts = os\<rparr>, m))"

definition place_annotation :: "oci_cfg_annotation \<Rightarrow> mem \<Rightarrow> annotation_mem \<times> mem" where
  "place_annotation x m =
     (case place_ptr (Some (ann_key x)) m of (k, m) \<Rightarrow>
      case place_ptr (ann_value x) m of (v, m) \<Rightarrow>
      case g_malloc m of (b, m) \<Rightarrow> (\<lparr>ma_block = b, ma_key = k, ma_value = v\<rparr>, m))"

definition place_hook :: "oci_cfg_hook \<Rightarrow> mem \<Rightarrow> hook_mem \<times> mem" where
  "place_hook x m =
     (case place_strv (hook_args x) m of (as, m) \<Rightarrow>
      case place_strv (hook_env x) m of (es, m) \<Rightarrow>
      case g_malloc m of (b, m) \<Rightarrow> (\<lparr>mh_block = b, mh_args = as, mh_env = es\<rparr>, m))"

definition place_ns :: "oci_cfg_namespace \<Rightarrow> mem \<Rightarrow> ns_mem \<times> mem" where
  "place_ns x m =
     (case place_ptr (ns_path x) m of (p, m) \<Rightarrow>
      case g_malloc m of (b, m) \<Rightarrow> (\<lparr>mn_block = b, mn_path = p\<rparr>, m))"

definition place_vm :: "clr_oci_vm_cfg option \<Rightarrow> mem \<Rightarrow> vm_mem option \<times> mem" where
  "place_vm v m =
     (case v of
        None \<Rightarrow> (None, m)
      | Some x \<Rightarrow>
          (case place_ptr (kernel_params x) m of (p, m) \<Rightarrow>
           case g_malloc m of (b, m) \<Rightarrow> (Some \<lparr>mv_block = b, mv_kernel_params = p\<rparr>, m)))"

definition place_state :: "oci_state \<Rightarrow> mem \<Rightarrow> state_mem \<times> mem" where
  "place_state st m =
     (case place_ptr (s_oci_version st) m of (ov, m) \<Rightarrow>
      case place_ptr (s_id st) m of (i, m) \<Rightarrow>
      case place_ptr (s_bundle_path st) m of (bp, m) \<Rightarrow>
      case place_ptr (s_comms_path st) m of (cp, m) \<Rightarrow>
      case place_ptr (s_procsock_path st) m of (pp, m) \<Rightarrow>
      case place_ptr (s_create_time st) m of (ct, m) \<Rightarrow>
      case place_ptr (s_console st) m of (co, m) \<Rightarrow>
      case place_list place_mount (s_mounts st) m of (ms, m) \<Rightarrow>
      case place_vm (s_vm st) m of (v, m) \<Rightarrow>
      case place_list place_annotation (s_annotations st) m of (an, m) \<Rightarrow>
      case g_malloc m of (b, m) \<Rightarrow>
        (\<lparr>ms_block = b, ms_oci_version = ov, ms_id = i, ms_bundle_path = bp, ms_comms_path = cp,
           ms_procsock_path = pp, ms_create_time = ct, ms_mounts = ms, ms_annotations = an,
           ms_console = co, ms_vm = v\<rparr>, m))"

definition place_config :: "clr_oci_config \<Rightarrow> mem \<Rightarrow> config_mem \<times> mem" where
  "place_config c m =
     (case place_ptr (oci_version (oci c)) m of (ov, m) \<Rightarrow>
      case place_ptr (hostname (oci c)) m of (hn, m) \<Rightarrow>
      case place_ptr (console c) m of (co, m) \<Rightarrow>
      case place_ptr (bundle_path c) m of (bp, m) \<Rightarrow>
      case place_ptr (root_dir c) m of (rd, m) \<Rightarrow>
      case place_ptr (pid_file c) m of (pf, m) \<Rightarrow>
      case place_vm (vm c) m of (v, m) \<Rightarrow>
      case place_strv (proc_args (oci_process (oci c))) m of (as, m) \<Rightarrow>
      case place_strv (proc_env (oci_process (oci c))) m of (es, m) \<Rightarrow>
      case place_list place_mount (mounts (oci c)) m of (ms, m) \<Rightarrow>
      case place_list place_annotation (annotations (oci c)) m of (an, m) \<Rightarrow>
      case place_ptr (plat_os (platform (oci c))) m of (os, m) \<Rightarrow>
      case place_ptr (plat_arch (platform (oci c))) m of (ar, m) \<Rightarrow>
      case place_list place_hook (prestart (hooks (oci c))) m of (h1, m) \<Rightarrow>
      case place_list place_hook (poststart (hooks (oci c))) m of (h2, m) \<Rightarrow>
      case place_list place_hook (poststop (hooks (oci c))) m of (h3, m) \<Rightarrow>
      case place_list place_ns (namespaces (oci c)) m of (ns, m) \<Rightarrow>
        (\<lparr>mc_oci_version = ov, mc_hostname = hn, mc_console = co, mc_bundle_path = bp, mc_root_dir = rd,
           mc_pid_file = pf, mc_vm = v, mc_args = as, mc_env = es, mc_mounts = ms, mc_annotations = an,
           mc_os = os, mc_arch = ar, mc_prestart = h1, mc_poststart = h2, mc_poststop = h3,
           mc_namespaces = ns\<rparr>, m))"

text \<open>Between two states of the memory exactly the given blocks were handed out.\<close>

definition grown :: "mem \<Rightarrow> addr list \<Rightarrow> mem \<Rightarrow> bool" where
  "grown m as m' \<longleftrightarrow> distinct as \<and> (\<forall>a \<in> set as. next_addr m \<le> a \<and> a < next_addr m')
     \<and> live m' = live m \<union> set as \<and> next_addr m \<le> next_addr m'"

lemma grown_none [simp, intro]: "grown m [] m"
  by (simp add: grown_def)

lemma grown_append: "grown m as m1 \<Longrightarrow> grown m1 bs m2 \<Longrightarrow> grown m (as @ bs) m2"
  by (fastforce simp: grown_def)

lemma grown_perm: "grown m as m' \<Longrightarrow> mset as = mset bs \<Longrightarrow> grown m bs m'"
  using mset_eq_setD mset_eq_imp_distinct_iff unfolding grown_def by metis

lemma malloc_grown: "g_malloc m = (a, m') \<Longrightarrow> grown m [a] m'"
  by (auto simp: g_malloc_def grown_def)

lemma ptr_grown: "place_ptr s m = (p, m') \<Longrightarrow> grown m (owned_ptr p) m'"
  by (auto simp: place_ptr_def owned_ptr_def dest: malloc_grown split: option.splits prod.splits)

lemma cells_grown: "place_all (\<lambda>_. g_malloc) vs m = (as, m') \<Longrightarrow> grown m as m' \<and> length as = length vs"
proof (induction vs arbitrary: m as)
  case (Cons v vs)
  from Cons.prems obtain a m1 bs where a: "g_malloc m = (a, m1)" "place_all (\<lambda>_. g_malloc) vs m1 = (bs, m')" "as = a # bs"
    by (auto split: prod.splits)
  from grown_append [OF malloc_grown [OF a(1)]] Cons.IH [OF a(2)] a(3) show ?case by fastforce
qed simp

lemma strv_grown: "place_strv v m = (p, m') \<Longrightarrow> grown m (owned_strv p) m'"
  using cells_grown grown_append malloc_grown
  by (fastforce simp: place_strv_def owned_strv_def split: option.splits prod.splits)

locale placer =
  fixes place :: "'v \<Rightarrow> mem \<Rightarrow> 'a \<times> mem" and owned :: "'a \<Rightarrow> addr list"
  assumes place_grown: "place v m = (x, m') \<Longrightarrow> grown m (owned x) m'"
begin

lemma all_grown: "place_all place vs m = (xs, m') \<Longrightarrow> grown m (concat (map owned xs)) m' \<and> length xs = length vs"
proof (induction vs arbitrary: m xs)
  case (Cons v vs)
  from Cons.prems obtain x m1 ys where x: "place v m = (x, m1)" "place_all place vs m1 = (ys, m')" "xs = x # ys"
    by (auto split: prod.splits)
  from grown_append [OF place_grown [OF x(1)]] Cons.IH [OF x(2)] x(3) show ?case by fastforce
qed simp

lemma list_grown:
  assumes "place_list place vs m = (l, m')"
  shows "grown m (owned_list owned l) m'"
proof -
  obtain xs m1 cells where p: "place_all place vs m = (xs, m1)" "place_all (\<lambda>_. g_malloc) vs m1 = (cells, m')"
    and l: "l = zip cells xs"
    using assms by (auto simp: place_list_def split: prod.splits)
  have len: "length cells = length xs" using all_grown [OF p(1)] cells_grown [OF p(2)] by simp
  then have "map (owned \<circ> snd) l = map owned xs" "map fst l = cells"
    by (simp_all add: l flip: map_map)
  then have "owned_list owned l = concat (map owned xs) @ cells" by (simp add: owned_list_def)
  then show ?thesis using grown_append all_grown [OF p(1)] cells_grown [OF p(2)] by metis
qed

end

lemmas place_grown = ptr_grown strv_grown malloc_grown

interpretation mounts_place: placer place_mount owned_mount
  by unfold_locales
    (auto simp: place_mount_def owned_mount_def dest!: place_grown split: prod.splits;
     (rule grown_append, assumption)+, assumption)

interpretation annotations_place: placer place_annotation owned_annotation
  by unfold_locales
    (auto simp: place_annotation_def owned_annotation_def dest!: place_grown split: prod.splits;
     (rule grown_append, assumption)+, assumption)

interpretation hooks_place: placer place_hook owned_hook
  by unfold_locales
    (auto simp: place_hook_def owned_hook_def dest!: place_grown split: prod.splits;
     (rule grown_append, assumption)+, assumption)

interpretation ns_place: placer place_ns owned_ns
  by unfold_locales
    (auto simp: place_ns_def owned_ns_def dest!: place_grown split: prod.splits;
     (rule grown_append, assumption)+, assumption)

lemma vm_grown: "place_vm v m = (p, m') \<Longrightarrow> grown m (owned_vm p) m'"
  using place_grown grown_append
  by (fastforce simp: place_vm_def owned_vm_def split: option.splits prod.splits)

lemmas lists_grown = mounts_place.list_grown annotations_place.list_grown hooks_place.list_grown
  ns_place.list_grown vm_grown

lemma state_grown: "place_state st m = (p, m') \<Longrightarrow> grown m (owned_state p) m'"
  by (auto simp: place_state_def owned_state_def dest!: place_grown lists_grown split: prod.splits;
     (rule grown_append, assumption)+, assumption)

lemma config_grown: "place_config c m = (p, m') \<Longrightarrow> grown m (owned_config p) m'"
  by (auto simp: place_config_def owned_config_def dest!: place_grown lists_grown split: prod.splits;
     (rule grown_append, assumption)+, assumption)

subsection \<open>What is held\<close>

text \<open>
  Since the state \<open>m0\<close> of the memory, exactly the blocks of the multiset came on top; it says
  which blocks are held, and by its being a set in disguise that nobody holds one twice.
\<close>

definition sound :: "mem \<Rightarrow> bool" where
  "sound m \<longleftrightarrow> (\<forall>a \<in> live m. a < next_addr m)"

definition holds :: "mem \<Rightarrow> addr multiset \<Rightarrow> mem \<Rightarrow> bool" where
  "holds m0 M m \<longleftrightarrow> (\<exists>as. mset as = M \<and> grown m0 as m)"

lemma holds_none [simp, intro]: "holds m {#} m"
  by (auto simp: holds_def)

lemma holds_nothing: "holds m0 {#} m \<Longrightarrow> live m = live m0"
  by (auto simp: holds_def grown_def)

lemma holds_grow:
  assumes "holds m0 M m" and "grown m as m'"
  shows "holds m0 (mset as + M) m'"
proof -
  obtain bs where bs: "mset bs = M" "grown m0 bs m" using assms(1) by (auto simp: holds_def)
  have "mset (bs @ as) = mset as + M" by (simp add: bs(1))
  with grown_append [OF bs(2) assms(2)] show ?thesis unfolding holds_def by blast
qed

lemma holds_free:
  assumes "sound m0" and "holds m0 (mset bs + M) m"
  shows "\<exists>m'. free_list bs m = Some m' \<and> holds m0 M m'"
proof -
  obtain as where as: "mset as = mset bs + M" "grown m0 as m" using assms(2) by (auto simp: holds_def)
  obtain cs where cs: "mset cs = M" using ex_mset by blast
  have g: "grown m0 (bs @ cs) m" using grown_perm [OF as(2)] as(1) cs by simp
  then have "distinct bs" "set bs \<subseteq> live m" by (auto simp: grown_def)
  then have "free_list bs m = Some (m\<lparr>live := live m - set bs\<rparr>)" by (simp add: free_list_iff)
  moreover have "grown m0 cs (m\<lparr>live := live m - set bs\<rparr>)"
  proof -
    have new: "next_addr m0 \<le> b" if "b \<in> set bs" for b using g that by (simp add: grown_def)
    have "live m0 \<inter> set bs = {}" using new assms(1) by (fastforce simp: sound_def)
    moreover have "set cs \<inter> set bs = {}" using g by (auto simp: grown_def)
    ultimately have "live m - set bs = live m0 \<union> set cs" using g by (auto simp: grown_def)
    then show ?thesis using g by (simp add: grown_def)
  qed
  ultimately show ?thesis using cs by (auto simp: holds_def)
qed

text \<open>What was made of a state or a configuration and is released leaves the memory as it was.\<close>

theorem made_and_released:
  assumes "sound m"
  shows "place_state st m = (p, m1) \<Longrightarrow> \<exists>m2. state_free (Some p) m1 = Some m2 \<and> live m2 = live m"
    and "place_config c m = (q, m1) \<Longrightarrow> \<exists>q' m2. clr_oci_config_free q m1 = Some (q', m2) \<and> live m2 = live m"
proof -
  have free: "\<exists>m2. free_list as m1 = Some m2 \<and> live m2 = live m" if "grown m as m1" for as m1
    using holds_free [OF assms, of as "{#}" m1] holds_grow [OF holds_none that] holds_nothing by auto
  show "\<exists>m2. state_free (Some p) m1 = Some m2 \<and> live m2 = live m" if "place_state st m = (p, m1)"
    using free [OF state_grown [OF that]] by (simp add: free_state)
  show "\<exists>q' m2. clr_oci_config_free q m1 = Some (q', m2) \<and> live m2 = live m" if "place_config c m = (q, m1)"
    using free [OF config_grown [OF that]] free_config [of q m1] by (cases "clr_oci_config_free q m1") auto
qed

end
