(* ===== verification/Semver.thy ===== *)
theory Semver
  imports Prelude
begin

text \<open>
  \<^verbatim>\<open>src/semver.c\<close>: comparison of Semantic Versioning 2.0.0 strings, used by
  \<^verbatim>\<open>clr_oci_config_check\<close> to refuse a \<^verbatim>\<open>config.json\<close> newer than the supported
  specification. First the code, then the precedence order of the SemVer document as an
  abstract specification on parsed versions, and the refinement between the two.
\<close>

subsection \<open>The code\<close>

fun clr_oci_string_is_numeric :: "cstring \<Rightarrow> bool" where
  "clr_oci_string_is_numeric None = False"
| "clr_oci_string_is_numeric (Some s) = list_all is_digit s"

text \<open>
  The loop over the two NULL-terminated field vectors; a vector that has ended yields the
  NULL pointer. The numeric difference is a \<^verbatim>\<open>long\<close> cast to \<^verbatim>\<open>gint\<close>.
\<close>

fun cmp_pre_release_fields :: "string list \<Rightarrow> string list \<Rightarrow> int" where
  "cmp_pre_release_fields [] [] = 0"
| "cmp_pre_release_fields (fa # as) [] = 1"
| "cmp_pre_release_fields [] (fb # bs) = -1"
| "cmp_pre_release_fields (fa # as) (fb # bs) =
     (let ret = (if clr_oci_string_is_numeric (Some fa) \<and> clr_oci_string_is_numeric (Some fb)
                 then to_int32 (atol fa - atol fb)
                 else g_strcmp0 (Some fa) (Some fb))
      in if ret \<noteq> 0 then ret else cmp_pre_release_fields as bs)"

definition clr_oci_semver_cmp_patch_pre_releases :: "string \<Rightarrow> string \<Rightarrow> int" where
  "clr_oci_semver_cmp_patch_pre_releases pre_rel_a pre_rel_b =
     cmp_pre_release_fields (g_strsplit CHR ''.'' pre_rel_a) (g_strsplit CHR ''.'' pre_rel_b)"

text \<open>
  The buffer is cut in place: a NUL is written over the first \<^verbatim>\<open>-\<close> and the first
  \<^verbatim>\<open>+\<close>, wherever they are, and the three parts are C strings inside it.
\<close>

definition clr_oci_semver_split_patch_version :: "string \<Rightarrow> int \<times> cstring \<times> cstring" where
  "clr_oci_semver_split_patch_version patch_version =
     (let build_metadata = strstr ''+'' patch_version;
          pre_release = strstr ''-'' patch_version;
          buf = (case pre_release of None \<Rightarrow> patch_version | Some i \<Rightarrow> patch_version[i := NUL]);
          buf = (case build_metadata of None \<Rightarrow> buf | Some j \<Rightarrow> buf[j := NUL])
      in (atoi (cstr_at buf 0),
          map_option (\<lambda>i. cstr_at buf (Suc i)) pre_release,
          map_option (\<lambda>j. cstr_at buf (Suc j)) build_metadata))"

text \<open>\<^verbatim>\<open>g_assert (patch_a)\<close>: a NULL patch version aborts.\<close>

definition clr_oci_semver_cmp_patch_versions :: "cstring \<Rightarrow> cstring \<Rightarrow> int option" where
  "clr_oci_semver_cmp_patch_versions patch_a patch_b = do {
     a \<leftarrow> patch_a;
     b \<leftarrow> patch_b;
     (case (clr_oci_semver_split_patch_version a, clr_oci_semver_split_patch_version b) of
        ((pva, pra, bma), (pvb, prb, bmb)) \<Rightarrow>
          if pva > pvb then Some 1
          else if pva < pvb then Some (-1)
          else (case (pra, prb) of
                  (Some _, None) \<Rightarrow> Some (-1)
                | (None, Some _) \<Rightarrow> Some 1
                | (None, None) \<Rightarrow> Some 0
                | (Some ra, Some rb) \<Rightarrow> Some (clr_oci_semver_cmp_patch_pre_releases ra rb)))
   }"

text \<open>
  Entry \<open>i\<close> of a NULL-terminated vector. \<^verbatim>\<open>atol (NULL)\<close> faults, and so does the
  read of a field behind the terminator: both are \<^term>\<open>None\<close> here.
\<close>

definition field :: "string list \<Rightarrow> nat \<Rightarrow> cstring" where
  "field fields i = (if i < length fields then Some (fields ! i) else None)"

definition clr_oci_semver_cmp_fields :: "string list \<Rightarrow> string list \<Rightarrow> int option" where
  "clr_oci_semver_cmp_fields fields_a fields_b = do {
     major_a \<leftarrow> field fields_a 0;
     minor_a \<leftarrow> field fields_a 1;
     major_b \<leftarrow> field fields_b 0;
     minor_b \<leftarrow> field fields_b 1;
     let maj_a = atol major_a;
     let min_a = atol minor_a;
     let maj_b = atol major_b;
     let min_b = atol minor_b;
     if maj_a > maj_b then Some 1
     else if maj_a < maj_b then Some (-1)
     else if min_a > min_b then Some 1
     else if min_a < min_b then Some (-1)
     else clr_oci_semver_cmp_patch_versions (field fields_a 2) (field fields_b 2)
   }"

definition clr_oci_semver_2_0_0_cmp :: "string \<Rightarrow> string \<Rightarrow> int option" where
  "clr_oci_semver_2_0_0_cmp version_a version_b =
     clr_oci_semver_cmp_fields (g_strsplit_max CHR ''.'' 2 version_a)
                               (g_strsplit_max CHR ''.'' 2 version_b)"

definition clr_oci_semver_cmp :: "string \<Rightarrow> string \<Rightarrow> int option" where
  "clr_oci_semver_cmp version_a version_b = clr_oci_semver_2_0_0_cmp version_a version_b"

subsection \<open>The specification: SemVer 2.0.0 precedence\<close>

datatype ident = Num nat | Alpha string

record version =
  v_major :: nat
  v_minor :: nat
  v_patch :: nat
  v_pre :: "ident list"
  v_build :: cstring

definition cmp_nat :: "nat \<Rightarrow> nat \<Rightarrow> int" where
  "cmp_nat a b = (if a < b then -1 else if b < a then 1 else 0)"

fun spec_cmp_ident :: "ident \<Rightarrow> ident \<Rightarrow> int" where
  "spec_cmp_ident (Num a) (Num b) = cmp_nat a b"
| "spec_cmp_ident (Num a) (Alpha b) = -1"
| "spec_cmp_ident (Alpha a) (Num b) = 1"
| "spec_cmp_ident (Alpha a) (Alpha b) = strcmp a b"

fun spec_cmp_idents :: "ident list \<Rightarrow> ident list \<Rightarrow> int" where
  "spec_cmp_idents [] [] = 0"
| "spec_cmp_idents (a # as) [] = 1"
| "spec_cmp_idents [] (b # bs) = -1"
| "spec_cmp_idents (a # as) (b # bs) =
     (let r = spec_cmp_ident a b in if r \<noteq> 0 then r else spec_cmp_idents as bs)"

definition spec_cmp_pre :: "ident list \<Rightarrow> ident list \<Rightarrow> int" where
  "spec_cmp_pre as bs =
     (if as = [] \<and> bs = [] then 0
      else if as = [] then 1
      else if bs = [] then -1
      else spec_cmp_idents as bs)"

definition spec_cmp :: "version \<Rightarrow> version \<Rightarrow> int" where
  "spec_cmp a b =
     (if v_major a \<noteq> v_major b then cmp_nat (v_major a) (v_major b)
      else if v_minor a \<noteq> v_minor b then cmp_nat (v_minor a) (v_minor b)
      else if v_patch a \<noteq> v_patch b then cmp_nat (v_patch a) (v_patch b)
      else spec_cmp_pre (v_pre a) (v_pre b))"

fun render_ident :: "ident \<Rightarrow> string" where
  "render_ident (Num n) = dec_of_nat n"
| "render_ident (Alpha s) = s"

definition render_pre :: "ident list \<Rightarrow> string" where
  "render_pre is = g_strjoinv ''.'' (map render_ident is)"

definition render_patch :: "version \<Rightarrow> string" where
  "render_patch v =
     dec_of_nat (v_patch v)
     @ (if v_pre v = [] then [] else ''-'' @ render_pre (v_pre v))
     @ (case v_build v of None \<Rightarrow> [] | Some b \<Rightarrow> ''+'' @ b)"

definition render :: "version \<Rightarrow> string" where
  "render v = dec_of_nat (v_major v) @ ''.'' @ dec_of_nat (v_minor v) @ ''.'' @ render_patch v"

text \<open>
  The versions the code orders as the specification does: numbers that fit a \<^verbatim>\<open>gint\<close>
  (a \<^verbatim>\<open>long\<close> for major and minor), alphanumeric identifiers that begin with a letter, and
  no hyphen in the build metadata of a release version.
\<close>

definition is_letter :: "char \<Rightarrow> bool" where
  "is_letter c \<longleftrightarrow> 65 \<le> char_code c \<and> char_code c \<le> 90 \<or> 97 \<le> char_code c \<and> char_code c \<le> 122"

definition is_ident_char :: "char \<Rightarrow> bool" where
  "is_ident_char c \<longleftrightarrow> is_digit c \<or> is_letter c \<or> c = CHR ''-''"

fun wf_ident :: "ident \<Rightarrow> bool" where
  "wf_ident (Num n) = (n < 2 ^ 31)"
| "wf_ident (Alpha s) = (s \<noteq> [] \<and> is_letter (hd s) \<and> list_all is_ident_char s)"

definition wf_version :: "version \<Rightarrow> bool" where
  "wf_version v \<longleftrightarrow>
     int (v_major v) \<le> LONG_MAX \<and> int (v_minor v) \<le> LONG_MAX \<and> v_patch v < 2 ^ 31
     \<and> list_all wf_ident (v_pre v)
     \<and> (case v_build v of None \<Rightarrow> True
        | Some b \<Rightarrow> NUL \<notin> set b \<and> (v_pre v = [] \<longrightarrow> CHR ''-'' \<notin> set b))"

subsection \<open>Characters of a rendered version\<close>

lemma digit_facts:
  "is_digit c \<Longrightarrow> c \<noteq> CHR ''.'' \<and> c \<noteq> CHR ''-'' \<and> c \<noteq> CHR ''+'' \<and> c \<noteq> NUL"
  by (auto simp: is_digit_def NUL_def)

lemma ident_char_facts:
  "is_ident_char c \<Longrightarrow> c \<noteq> CHR ''.'' \<and> c \<noteq> CHR ''+'' \<and> c \<noteq> NUL"
  by (auto simp: is_ident_char_def is_digit_def is_letter_def NUL_def)

lemma dec_of_nat_chars:
  "c \<in> set (dec_of_nat n) \<Longrightarrow> c \<noteq> CHR ''.'' \<and> c \<noteq> CHR ''-'' \<and> c \<noteq> CHR ''+'' \<and> c \<noteq> NUL"
  using dec_of_nat_digits [of n] by (simp add: list_all_iff digit_facts)

lemma render_ident_chars:
  "wf_ident i \<Longrightarrow> c \<in> set (render_ident i) \<Longrightarrow> c \<noteq> CHR ''.'' \<and> c \<noteq> CHR ''+'' \<and> c \<noteq> NUL"
  by (cases i) (auto simp: dec_of_nat_chars list_all_iff ident_char_facts)

lemma render_ident_nonempty: "wf_ident i \<Longrightarrow> render_ident i \<noteq> []"
  by (cases i) auto

lemma render_pre_chars:
  assumes "list_all wf_ident is" and "c \<in> set (render_pre is)"
  shows "c \<noteq> CHR ''+'' \<and> c \<noteq> NUL"
proof -
  from assms(2) set_g_strjoinv [of "''.''" "map render_ident is"]
  have "c = CHR ''.'' \<or> (\<exists>i \<in> set is. c \<in> set (render_ident i))"
    by (auto simp: render_pre_def)
  then show ?thesis
  proof
    assume "c = CHR ''.''"
    then show ?thesis by (simp add: NUL_def)
  next
    assume "\<exists>i \<in> set is. c \<in> set (render_ident i)"
    with assms(1) show ?thesis by (auto simp: list_all_iff dest: render_ident_chars)
  qed
qed

lemma g_strsplit_render_pre:
  assumes "list_all wf_ident is" and "is \<noteq> []"
  shows "g_strsplit CHR ''.'' (render_pre is) = map render_ident is"
proof -
  have "render_pre is \<noteq> []"
    unfolding render_pre_def
    using assms by (intro g_strjoinv_nonempty) (auto simp: list_all_iff render_ident_nonempty)
  moreover have "split_all CHR ''.'' (render_pre is) = map render_ident is"
    unfolding render_pre_def
    using assms by (intro split_all_join) (auto simp: list_all_iff dest: render_ident_chars)
  ultimately show ?thesis by (simp add: g_strsplit_def)
qed

lemma build_chars:
  "wf_version v \<Longrightarrow> v_build v = Some b \<Longrightarrow> NUL \<notin> set b \<and> (v_pre v = [] \<longrightarrow> CHR ''-'' \<notin> set b)"
  by (simp add: wf_version_def)

subsection \<open>Splitting a rendered version\<close>

lemma split_patch_render:
  assumes wf: "wf_version v"
  shows "\<exists>bm. clr_oci_semver_split_patch_version (render_patch v) =
     (int (v_patch v), (if v_pre v = [] then None else Some (render_pre (v_pre v))), bm)"
proof -
  define d where "d = dec_of_nat (v_patch v)"
  define p where "p = render_pre (v_pre v)"
  have dc: "CHR ''-'' \<notin> set d" "CHR ''+'' \<notin> set d" "NUL \<notin> set d"
    unfolding d_def using dec_of_nat_chars by blast+
  have pc: "CHR ''+'' \<notin> set p" "NUL \<notin> set p"
    unfolding p_def using wf render_pre_chars by (auto simp: wf_version_def)
  have num: "atoi d = int (v_patch v)"
    unfolding d_def using wf by (intro atoi_dec_of_nat) (simp add: wf_version_def)
  note cut = strstr_first strstr_absent cstr_at_prefix cstr_at_whole cstr_at_skip
  show ?thesis
  proof (cases "v_pre v = []"; cases "v_build v")
    assume "v_pre v = []" and "v_build v = None"
    then have "render_patch v = d" by (simp add: render_patch_def d_def)
    with dc num \<open>v_pre v = []\<close> show ?thesis
      by (simp add: clr_oci_semver_split_patch_version_def cut)
  next
    fix b assume "v_pre v = []" and b: "v_build v = Some b"
    then have "render_patch v = d @ CHR ''+'' # b" by (simp add: render_patch_def d_def)
    moreover have "CHR ''-'' \<notin> set (d @ CHR ''+'' # b)"
      using dc build_chars [OF wf b] \<open>v_pre v = []\<close> by auto
    ultimately show ?thesis
      using dc num \<open>v_pre v = []\<close> build_chars [OF wf b]
      by (simp add: clr_oci_semver_split_patch_version_def cut)
  next
    assume ne: "v_pre v \<noteq> []" and "v_build v = None"
    then have "render_patch v = d @ CHR ''-'' # p" by (simp add: render_patch_def d_def p_def)
    moreover have "CHR ''+'' \<notin> set (d @ CHR ''-'' # p)" using dc pc by auto
    ultimately show ?thesis
      using dc pc num ne
      by (simp add: clr_oci_semver_split_patch_version_def cut flip: p_def)
  next
    fix b assume ne: "v_pre v \<noteq> []" and b: "v_build v = Some b"
    let ?s = "d @ CHR ''-'' # p @ CHR ''+'' # b"
    from ne b have r: "render_patch v = ?s" by (simp add: render_patch_def d_def p_def)
    have "strstr ''+'' ((d @ CHR ''-'' # p) @ CHR ''+'' # b) = Some (length (d @ CHR ''-'' # p))"
      using dc pc by (intro strstr_first) auto
    then have plus: "strstr ''+'' ?s = Some (length d + Suc (length p))" by simp
    have minus: "strstr ''-'' ?s = Some (length d)" using dc by (intro strstr_first)
    have "((d @ NUL # p) @ CHR ''+'' # b)[length (d @ NUL # p) := NUL] = (d @ NUL # p) @ NUL # b"
      by (rule list_update_length)
    then have "(?s[length d := NUL])[length d + Suc (length p) := NUL] = d @ NUL # p @ NUL # b"
      by simp
    with plus minus show ?thesis
      using dc pc num ne
      by (simp add: clr_oci_semver_split_patch_version_def r cut flip: p_def)
  qed
qed

lemma split_version_render:
  "g_strsplit_max CHR ''.'' 2 (render v) =
     [dec_of_nat (v_major v), dec_of_nat (v_minor v), render_patch v]"
proof -
  have "CHR ''.'' \<notin> set (dec_of_nat n)" for n using dec_of_nat_chars by blast
  then show ?thesis
    by (simp add: g_strsplit_max_def render_def numeral_2_eq_2 split_first_delim)
qed

subsection \<open>Precedence of pre-release identifiers\<close>

lemma numeric_render_Num: "clr_oci_string_is_numeric (Some (dec_of_nat n))"
  by (simp add: dec_of_nat_digits)

lemma letter_not_digit: "is_letter c \<Longrightarrow> \<not> is_digit c"
  by (auto simp: is_letter_def is_digit_def)

lemma not_numeric_Alpha: "wf_ident (Alpha s) \<Longrightarrow> \<not> clr_oci_string_is_numeric (Some s)"
  by (cases s) (auto dest: letter_not_digit)

lemma strcmp_digit_letter:
  assumes "list_all is_digit ds" and "ds \<noteq> []" and "wf_ident (Alpha s)"
  shows "strcmp ds s = -1" and "strcmp s ds = 1"
proof -
  obtain d ds' where "ds = d # ds'" using assms(2) by (cases ds) auto
  moreover obtain c cs where "s = c # cs" using assms(3) by (cases s) auto
  moreover have "is_digit d" "is_letter c" using assms calculation by auto
  then have "char_code d < char_code c" by (auto simp: is_digit_def is_letter_def)
  ultimately show "strcmp ds s = -1" and "strcmp s ds = 1" by auto
qed

definition cmp_field :: "string \<Rightarrow> string \<Rightarrow> int" where
  "cmp_field fa fb =
     (if clr_oci_string_is_numeric (Some fa) \<and> clr_oci_string_is_numeric (Some fb)
      then to_int32 (atol fa - atol fb) else strcmp fa fb)"

lemma cmp_pre_release_fields_Cons:
  "cmp_pre_release_fields (fa # as) (fb # bs) =
     (if cmp_field fa fb \<noteq> 0 then cmp_field fa fb else cmp_pre_release_fields as bs)"
  by (auto simp: cmp_field_def Let_def simp del: clr_oci_string_is_numeric.simps)

lemma sgn_cmp_field:
  assumes "wf_ident a" and "wf_ident b"
  shows "sgn (cmp_field (render_ident a) (render_ident b)) = spec_cmp_ident a b"
proof (cases a; cases b)
  fix m n assume ab: "a = Num m" "b = Num n"
  with assms have mn: "m < 2 ^ 31" "n < 2 ^ 31" by auto
  then have "atol (dec_of_nat m) = int m" "atol (dec_of_nat n) = int n"
    by (simp_all add: atol_dec_of_nat LONG_MAX_def)
  moreover have "to_int32 (int m - int n) = int m - int n"
    using mn by (intro to_int32_id) auto
  ultimately show ?thesis
    using ab numeric_render_Num
    by (simp add: cmp_field_def cmp_nat_def del: clr_oci_string_is_numeric.simps)
next
  fix m s assume ab: "a = Num m" "b = Alpha s"
  with assms show ?thesis
    using not_numeric_Alpha [of s] strcmp_digit_letter(1) [OF dec_of_nat_digits dec_of_nat_nonempty, of s m]
    by (simp add: cmp_field_def del: clr_oci_string_is_numeric.simps)
next
  fix s n assume ab: "a = Alpha s" "b = Num n"
  with assms show ?thesis
    using not_numeric_Alpha [of s] strcmp_digit_letter(2) [OF dec_of_nat_digits dec_of_nat_nonempty, of s n]
    by (simp add: cmp_field_def del: clr_oci_string_is_numeric.simps)
next
  fix s t assume ab: "a = Alpha s" "b = Alpha t"
  with assms show ?thesis
    using not_numeric_Alpha [of s]
    by (simp add: cmp_field_def del: clr_oci_string_is_numeric.simps)
qed

lemma sgn_cmp_pre_release_fields:
  "list_all wf_ident as \<Longrightarrow> list_all wf_ident bs \<Longrightarrow>
   sgn (cmp_pre_release_fields (map render_ident as) (map render_ident bs)) = spec_cmp_idents as bs"
proof (induction as bs rule: spec_cmp_idents.induct)
  case (4 a as b bs)
  have "sgn (cmp_field (render_ident a) (render_ident b)) = spec_cmp_ident a b"
    using 4 by (intro sgn_cmp_field) auto
  with 4 show ?case
    by (auto simp: cmp_pre_release_fields_Cons sgn_0_0 Let_def simp del: cmp_pre_release_fields.simps(4))
qed auto

lemma sgn_pre_releases:
  assumes "list_all wf_ident as" "list_all wf_ident bs" "as \<noteq> []" "bs \<noteq> []"
  shows "sgn (clr_oci_semver_cmp_patch_pre_releases (render_pre as) (render_pre bs)) = spec_cmp_idents as bs"
  using assms
  by (simp add: clr_oci_semver_cmp_patch_pre_releases_def g_strsplit_render_pre
      sgn_cmp_pre_release_fields)

subsection \<open>Refinement\<close>

lemma cmp_patch_render:
  assumes "wf_version a" and "wf_version b"
  shows "\<exists>r. clr_oci_semver_cmp_patch_versions (Some (render_patch a)) (Some (render_patch b)) = Some r
     \<and> sgn r = (if v_patch a \<noteq> v_patch b then cmp_nat (v_patch a) (v_patch b)
              else spec_cmp_pre (v_pre a) (v_pre b))"
proof -
  obtain ma mb where
    "clr_oci_semver_split_patch_version (render_patch a) =
       (int (v_patch a), (if v_pre a = [] then None else Some (render_pre (v_pre a))), ma)"
    "clr_oci_semver_split_patch_version (render_patch b) =
       (int (v_patch b), (if v_pre b = [] then None else Some (render_pre (v_pre b))), mb)"
    using split_patch_render assms by blast
  moreover have "sgn (clr_oci_semver_cmp_patch_pre_releases (render_pre (v_pre a)) (render_pre (v_pre b)))
      = spec_cmp_idents (v_pre a) (v_pre b)" if "v_pre a \<noteq> []" "v_pre b \<noteq> []"
    using assms that by (intro sgn_pre_releases) (auto simp: wf_version_def)
  ultimately show ?thesis
    by (auto simp: clr_oci_semver_cmp_patch_versions_def cmp_nat_def spec_cmp_pre_def)
qed

lemma atol_major_minor:
  "wf_version v \<Longrightarrow> atol (dec_of_nat (v_major v)) = int (v_major v)
     \<and> atol (dec_of_nat (v_minor v)) = int (v_minor v)"
  by (simp add: wf_version_def atol_dec_of_nat)

subsection \<open>The comparison is a total preorder\<close>

text \<open>
  The contract of a three-way comparison, and what follows from it. The numeric, byte-wise,
  identifier, identifier-list and version comparisons are all instances.
\<close>

locale three_way =
  fixes cmp :: "'a \<Rightarrow> 'a \<Rightarrow> int"
  assumes swap: "cmp b a = - cmp a b"
    and trans: "cmp a b \<le> 0 \<Longrightarrow> cmp b c \<le> 0 \<Longrightarrow> cmp a c \<le> 0"
begin

lemma refl: "cmp a a = 0"
  using swap [of a a] by simp

lemma total: "cmp a b \<le> 0 \<or> cmp b a \<le> 0"
  using swap [of a b] by linarith

lemma eq_sym: "cmp a b = 0 \<Longrightarrow> cmp b a = 0"
  using swap [of a b] by simp

lemma eq_trans: "cmp a b = 0 \<Longrightarrow> cmp b c = 0 \<Longrightarrow> cmp a c = 0"
  using trans [of a b c] trans [of c b a] swap [of a b] swap [of b c] swap [of a c] by linarith

lemma less_le_trans: "cmp a b < 0 \<Longrightarrow> cmp b c \<le> 0 \<Longrightarrow> cmp a c < 0"
  using trans [of a b c] trans [of b c a] swap [of a b] swap [of a c] by linarith

lemma le_less_trans: "cmp a b \<le> 0 \<Longrightarrow> cmp b c < 0 \<Longrightarrow> cmp a c < 0"
  using trans [of a b c] trans [of c a b] swap [of b c] swap [of a c] by linarith

text \<open>Comparing by one key first and by a second one on a tie is again a comparison.\<close>

lemma lex_trans:
  assumes "three_way cmp2"
    and "(if cmp a b \<noteq> 0 then cmp a b else cmp2 x y) \<le> 0"
    and "(if cmp b c \<noteq> 0 then cmp b c else cmp2 y z) \<le> 0"
  shows "(if cmp a c \<noteq> 0 then cmp a c else cmp2 x z) \<le> 0"
proof (cases "cmp a b = 0 \<and> cmp b c = 0")
  case True
  with assms eq_trans three_way.trans [OF assms(1)] show ?thesis by auto
next
  case False
  then have "cmp a c < 0"
    using assms less_le_trans [of a b c] le_less_trans [of a b c] by (auto split: if_splits)
  then show ?thesis by simp
qed

end

interpretation nats: three_way cmp_nat
  by unfold_locales (auto simp: cmp_nat_def split: if_splits)

interpretation bytes: three_way strcmp
  by unfold_locales (rule strcmp_swap, rule strcmp_trans)

lemma spec_cmp_ident_swap: "spec_cmp_ident b a = - spec_cmp_ident a b"
  by (cases a; cases b) (auto intro: nats.swap bytes.swap)

lemma spec_cmp_ident_trans:
  "spec_cmp_ident a b \<le> 0 \<Longrightarrow> spec_cmp_ident b c \<le> 0 \<Longrightarrow> spec_cmp_ident a c \<le> 0"
  by (cases a; cases b; cases c) (auto intro: nats.trans bytes.trans)

interpretation idents: three_way spec_cmp_ident
  by unfold_locales (rule spec_cmp_ident_swap, erule (1) spec_cmp_ident_trans)

lemma spec_cmp_idents_Cons:
  "spec_cmp_idents (a # as) (b # bs) =
     (if spec_cmp_ident a b \<noteq> 0 then spec_cmp_ident a b else spec_cmp_idents as bs)"
  by (simp add: Let_def)

lemma spec_cmp_idents_swap: "spec_cmp_idents bs as = - spec_cmp_idents as bs"
proof (induction as bs rule: spec_cmp_idents.induct)
  case (4 a as b bs)
  then show ?case
    using idents.swap [of a b] by (simp add: spec_cmp_idents_Cons Let_def)
qed auto

lemma spec_cmp_idents_trans:
  "spec_cmp_idents as bs \<le> 0 \<Longrightarrow> spec_cmp_idents bs cs \<le> 0 \<Longrightarrow> spec_cmp_idents as cs \<le> 0"
proof (induction as bs arbitrary: cs rule: spec_cmp_idents.induct)
  case (3 b bs)
  then show ?case by (cases cs) auto
next
  case (4 a as b bs)
  show ?case
  proof (cases cs)
    case Nil
    with 4 show ?thesis by simp
  next
    case (Cons c cs')
    show ?thesis
    proof (cases "spec_cmp_ident a b = 0 \<and> spec_cmp_ident b c = 0")
      case True
      with 4 Cons idents.eq_trans [of a b c] show ?thesis by (simp add: spec_cmp_idents_Cons Let_def)
    next
      case False
      with 4 Cons have "spec_cmp_ident a c < 0"
        using idents.less_le_trans [of a b c] idents.le_less_trans [of a b c]
        by (auto simp: Let_def split: if_splits)
      with Cons show ?thesis by (simp add: Let_def)
    qed
  qed
qed auto

lemma spec_cmp_pre_trans:
  "spec_cmp_pre as bs \<le> 0 \<Longrightarrow> spec_cmp_pre bs cs \<le> 0 \<Longrightarrow> spec_cmp_pre as cs \<le> 0"
  by (auto simp: spec_cmp_pre_def split: if_splits intro: spec_cmp_idents_trans)

lemma spec_cmp_pre_swap: "spec_cmp_pre bs as = - spec_cmp_pre as bs"
  by (auto simp: spec_cmp_pre_def intro: spec_cmp_idents_swap)

interpretation pres: three_way spec_cmp_pre
  by unfold_locales (rule spec_cmp_pre_swap, erule (1) spec_cmp_pre_trans)

lemma cmp_nat_eq_0 [simp]: "cmp_nat a b = 0 \<longleftrightarrow> a = b"
  by (auto simp: cmp_nat_def)

definition spec_cmp_minor :: "version \<Rightarrow> version \<Rightarrow> int" where
  "spec_cmp_minor a b =
     (if cmp_nat (v_minor a) (v_minor b) \<noteq> 0 then cmp_nat (v_minor a) (v_minor b)
      else if cmp_nat (v_patch a) (v_patch b) \<noteq> 0 then cmp_nat (v_patch a) (v_patch b)
      else spec_cmp_pre (v_pre a) (v_pre b))"

lemma spec_cmp_lex:
  "spec_cmp a b = (if cmp_nat (v_major a) (v_major b) \<noteq> 0 then cmp_nat (v_major a) (v_major b)
     else spec_cmp_minor a b)"
  by (simp add: spec_cmp_def spec_cmp_minor_def)

definition spec_cmp_patch :: "version \<Rightarrow> version \<Rightarrow> int" where
  "spec_cmp_patch a b =
     (if cmp_nat (v_patch a) (v_patch b) \<noteq> 0 then cmp_nat (v_patch a) (v_patch b)
      else spec_cmp_pre (v_pre a) (v_pre b))"

interpretation patches: three_way spec_cmp_patch
proof unfold_locales
  show "spec_cmp_patch b a = - spec_cmp_patch a b" for a b
    by (simp add: spec_cmp_patch_def nats.swap [of "v_patch b"] pres.swap [of "v_pre b"])
  show "spec_cmp_patch a b \<le> 0 \<Longrightarrow> spec_cmp_patch b c \<le> 0 \<Longrightarrow> spec_cmp_patch a c \<le> 0" for a b c
    unfolding spec_cmp_patch_def by (rule nats.lex_trans [OF pres.three_way_axioms])
qed

interpretation minors: three_way spec_cmp_minor
proof unfold_locales
  have eq: "spec_cmp_minor a b = (if cmp_nat (v_minor a) (v_minor b) \<noteq> 0
      then cmp_nat (v_minor a) (v_minor b) else spec_cmp_patch a b)" for a b
    by (simp add: spec_cmp_minor_def spec_cmp_patch_def)
  show "spec_cmp_minor b a = - spec_cmp_minor a b" for a b
    by (simp add: eq nats.swap [of "v_minor b"] patches.swap [of b])
  show "spec_cmp_minor a b \<le> 0 \<Longrightarrow> spec_cmp_minor b c \<le> 0 \<Longrightarrow> spec_cmp_minor a c \<le> 0" for a b c
    unfolding eq by (rule nats.lex_trans [OF patches.three_way_axioms])
qed

interpretation versions: three_way spec_cmp
proof unfold_locales
  show "spec_cmp b a = - spec_cmp a b" for a b
    by (simp add: spec_cmp_lex nats.swap [of "v_major b"] minors.swap [of b])
  show "spec_cmp a b \<le> 0 \<Longrightarrow> spec_cmp b c \<le> 0 \<Longrightarrow> spec_cmp a c \<le> 0" for a b c
    unfolding spec_cmp_lex by (rule nats.lex_trans [OF minors.three_way_axioms])
qed

subsection \<open>Where the code returns\<close>

text \<open>The number of fields is one more than the number of dots, at most three.\<close>

lemma split_first_count:
  "split_first d s = (a, r) \<Longrightarrow>
   (case r of None \<Rightarrow> count_list s d = 0 | Some t \<Rightarrow> count_list s d = Suc (count_list t d))"
proof (induction s arbitrary: a)
  case (Cons c cs)
  then show ?case
    by (cases "split_first d cs") (auto split: if_splits option.splits)
qed simp

lemma length_split_max: "length (split_max d n s) = Suc (min n (count_list s d))"
proof (induction n arbitrary: s)
  case (Suc n)
  show ?case
    using split_first_count [of d s "fst (split_first d s)" "snd (split_first d s)"] Suc
    by (auto split: prod.splits option.splits)
qed simp

lemma length_version_fields:
  "length (g_strsplit_max d 2 s) = (if s = [] then 0 else Suc (min 2 (count_list s d)))"
  by (simp add: g_strsplit_max_def length_split_max)

definition dots :: "string \<Rightarrow> nat" where "dots v = count_list v CHR ''.''"

abbreviation version_field :: "string \<Rightarrow> nat \<Rightarrow> string" where
  "version_field v i \<equiv> g_strsplit_max CHR ''.'' 2 v ! i"

lemma field_version_fields:
  "field (g_strsplit_max CHR ''.'' 2 v) i =
     (if v \<noteq> [] \<and> i \<le> min 2 (dots v) then Some (version_field v i) else None)"
  by (auto simp: field_def length_version_fields dots_def)

lemma cmp_patch_versions_None:
  "clr_oci_semver_cmp_patch_versions a b = None \<longleftrightarrow> a = None \<or> b = None"
  by (cases a; cases b)
    (auto simp: clr_oci_semver_cmp_patch_versions_def split: prod.splits option.splits)

lemma cmp_patch_versions_Some: "\<exists>r. clr_oci_semver_cmp_patch_versions (Some a) (Some b) = Some r"
  using cmp_patch_versions_None [of "Some a" "Some b"] by blast

lemma dots_pos: "0 < dots v \<Longrightarrow> v \<noteq> []"
  by (auto simp: dots_def)

lemma cmp_None_iff:
  "clr_oci_semver_cmp a b = None \<longleftrightarrow>
     dots a = 0 \<or> dots b = 0
     \<or> (dots a = 1 \<or> dots b = 1)
       \<and> atol (version_field a 0) = atol (version_field b 0)
       \<and> atol (version_field a 1) = atol (version_field b 1)"
proof (cases "dots a = 0 \<or> dots b = 0")
  case True
  then show ?thesis
    by (auto simp: clr_oci_semver_cmp_def clr_oci_semver_2_0_0_cmp_def clr_oci_semver_cmp_fields_def
        field_version_fields bind_eq_None_conv split: if_splits)
next
  case False
  then have "a \<noteq> []" "b \<noteq> []" using dots_pos by auto
  with False show ?thesis
    by (auto simp: clr_oci_semver_cmp_def clr_oci_semver_2_0_0_cmp_def clr_oci_semver_cmp_fields_def
        field_version_fields cmp_patch_versions_None cmp_patch_versions_Some min_def Let_def)
qed

subsection \<open>Properties\<close>

text \<open>The sign the code returns for a pair of well-formed versions.\<close>

lemma cmp_render:
  assumes "wf_version a" and "wf_version b"
  shows "\<exists>r. clr_oci_semver_cmp (render a) (render b) = Some r \<and> sgn r = spec_cmp a b"
  using cmp_patch_render [OF assms]
  by (auto simp: clr_oci_semver_cmp_def clr_oci_semver_2_0_0_cmp_def clr_oci_semver_cmp_fields_def
      field_def split_version_render atol_major_minor [OF assms(1)] atol_major_minor [OF assms(2)]
      spec_cmp_def cmp_nat_def)


definition version_1_0_0_beta_2 :: version where
  "version_1_0_0_beta_2 =
     \<lparr>v_major = 1, v_minor = 0, v_patch = 0, v_pre = [Alpha ''beta'', Num 2], v_build = None\<rparr>"

definition version_1_0_0_beta_11 :: version where
  "version_1_0_0_beta_11 =
     \<lparr>v_major = 1, v_minor = 0, v_patch = 0, v_pre = [Alpha ''beta'', Num 11], v_build = Some ''exp''\<rparr>"

definition version_1_0_0 :: version where
  "version_1_0_0 = \<lparr>v_major = 1, v_minor = 0, v_patch = 0, v_pre = [], v_build = None\<rparr>"

lemmas example_versions = version_1_0_0_beta_2_def version_1_0_0_beta_11_def version_1_0_0_def

lemma wf_example_versions:
  "wf_version version_1_0_0_beta_2" "wf_version version_1_0_0_beta_11" "wf_version version_1_0_0"
  by (simp_all add: example_versions wf_version_def LONG_MAX_def is_letter_def is_ident_char_def NUL_def)


text \<open>
  C32. On well-formed versions the comparison is a total preorder: swapping the arguments
  flips the sign, and "not newer than" is transitive.
\<close>

theorem semver_cmp_total_preorder:
  assumes "wf_version a" and "wf_version b" and "wf_version c"
    and "clr_oci_semver_cmp (render a) (render b) = Some ab"
    and "clr_oci_semver_cmp (render b) (render a) = Some ba"
    and "clr_oci_semver_cmp (render b) (render c) = Some bc"
    and "clr_oci_semver_cmp (render a) (render c) = Some ac"
  shows "sgn ba = - sgn ab \<and> (ab \<le> 0 \<longrightarrow> bc \<le> 0 \<longrightarrow> ac \<le> 0)"
proof -
  have "sgn ab = spec_cmp a b" "sgn ba = spec_cmp b a" "sgn bc = spec_cmp b c" "sgn ac = spec_cmp a c"
    using cmp_render assms by fastforce+
  then show ?thesis
    using versions.swap [of b a] versions.trans [of a b c]
    by (auto simp: sgn_if split: if_splits)
qed

theorem semver_cmp_total_preorder_witness:
  "\<exists>ac. clr_oci_semver_cmp (render version_1_0_0_beta_2) (render version_1_0_0) = Some ac \<and> ac \<le> 0"
proof -
  note wf = wf_example_versions
  obtain ab ba bc ac where r:
    "clr_oci_semver_cmp (render version_1_0_0_beta_2) (render version_1_0_0_beta_11) = Some ab"
    "clr_oci_semver_cmp (render version_1_0_0_beta_11) (render version_1_0_0_beta_2) = Some ba"
    "clr_oci_semver_cmp (render version_1_0_0_beta_11) (render version_1_0_0) = Some bc"
    "clr_oci_semver_cmp (render version_1_0_0_beta_2) (render version_1_0_0) = Some ac"
    and "sgn ab = -1" "sgn bc = -1"
    using cmp_render [OF wf(1,2)] cmp_render [OF wf(2,1)] cmp_render [OF wf(2,3)] cmp_render [OF wf(1,3)]
    by (auto simp: example_versions spec_cmp_def spec_cmp_pre_def cmp_nat_def)
  then show ?thesis
    using semver_cmp_total_preorder [OF wf r] by (auto simp: sgn_if split: if_splits)
qed

text \<open>
  Exactly when the comparison kills the process: a version with no dot at all, or one
  with a single dot whose major and minor numbers are those of the other version.
\<close>

theorem semver_cmp_aborts_iff:
  "clr_oci_semver_cmp a b = None \<longleftrightarrow>
     dots a = 0 \<or> dots b = 0
     \<or> (dots a = 1 \<or> dots b = 1)
       \<and> atol (version_field a 0) = atol (version_field b 0)
       \<and> atol (version_field a 1) = atol (version_field b 1)"
  by (rule cmp_None_iff)

text \<open>
  Build metadata is not ignored when it holds a hyphen: the text after the hyphen is
  taken for a pre-release, and the version sorts below the same release without metadata.
\<close>

theorem hyphen_in_build_metadata_lowers_precedence:
  assumes "CHR ''-'' \<notin> set b1" and "CHR ''+'' \<notin> set b1" and "NUL \<notin> set b1" and "n < 2 ^ 31"
  shows "clr_oci_semver_cmp (''1.0.'' @ dec_of_nat n @ ''+'' @ b1 @ ''-'' @ b2)
                            (''1.0.'' @ dec_of_nat n) = Some (-1)"
proof -
  let ?d = "dec_of_nat n"
  have dc: "CHR ''-'' \<notin> set ?d" "CHR ''+'' \<notin> set ?d" "NUL \<notin> set ?d"
    using dec_of_nat_chars by blast+
  have minus: "strstr ''-'' (?d @ CHR ''+'' # b1 @ CHR ''-'' # b2) = Some (length (?d @ CHR ''+'' # b1))"
    using strstr_first [of "CHR ''-''" "?d @ CHR ''+'' # b1" b2] assms dc by simp
  have plus: "strstr ''+'' (?d @ CHR ''+'' # b1 @ CHR ''-'' # b2) = Some (length ?d)"
    using dc by (intro strstr_first)
  have upd: "((?d @ CHR ''+'' # b1 @ CHR ''-'' # b2)[length (?d @ CHR ''+'' # b1) := NUL])[length ?d := NUL]
      = ?d @ NUL # b1 @ NUL # b2"
    using list_update_length [of "?d @ CHR ''+'' # b1" "CHR ''-''" b2 NUL] by simp
  have "clr_oci_semver_split_patch_version (?d @ ''+'' @ b1 @ ''-'' @ b2) =
      (int n, Some (cstr_at b2 0), Some b1)"
    using assms dc minus plus upd cstr_at_skip [of "?d @ NUL # b1" _ NUL b2] cstr_at_skip [of ?d _ NUL "b1 @ NUL # b2"]
    by (simp add: clr_oci_semver_split_patch_version_def cstr_at_prefix atoi_dec_of_nat)
  moreover have "clr_oci_semver_split_patch_version ?d = (int n, None, None)"
    using assms dc by (simp add: clr_oci_semver_split_patch_version_def strstr_absent cstr_at_whole atoi_dec_of_nat)
  moreover have "atol ''1'' = 1" "atol ''0'' = 0" by code_simp+
  ultimately show ?thesis
    by (simp add: clr_oci_semver_cmp_def clr_oci_semver_2_0_0_cmp_def clr_oci_semver_cmp_fields_def
        g_strsplit_max_def numeral_2_eq_2 field_def clr_oci_semver_cmp_patch_versions_def)
qed

theorem hyphen_in_build_metadata_lowers_precedence_witness:
  "clr_oci_semver_cmp ''1.0.0+build-5'' ''1.0.0'' = Some (-1)"
proof -
  have "dec_of_nat 0 = ''0''" by code_simp
  then show ?thesis
    using hyphen_in_build_metadata_lowers_precedence [of "''build''" 0 "''5''"]
    by (simp add: NUL_def)
qed

text \<open>
  The documented rule that a numeric identifier is below a non-numeric one does not hold
  for an identifier that starts with a smaller digit or a hyphen.
\<close>

theorem numeric_identifier_above_alphanumeric:
  "clr_oci_semver_cmp ''1.0.0-2'' ''1.0.0-1a'' = Some 1
   \<and> clr_oci_semver_cmp ''1.0.0-2'' ''1.0.0--x'' = Some 1"
  by code_simp

text \<open>
  Numeric identifiers are compared modulo \<open>2 ^ 32\<close>: two that differ by a multiple of
  it are equal to the code.
\<close>

theorem numeric_identifiers_wrap:
  assumes "int m \<le> LONG_MAX" and "int n \<le> LONG_MAX" and "(2 ^ 32) dvd (int m - int n)"
  shows "cmp_pre_release_fields (dec_of_nat m # as) (dec_of_nat n # bs) = cmp_pre_release_fields as bs"
proof -
  obtain k where "int m - int n = 2 ^ 32 * k" using assms(3) by (rule dvdE)
  then have "to_int32 (int m - int n) = 0"
    by (simp add: to_int32_def signed_take_bit_int_eq_self_iff signed_take_bit_eq_take_bit_minus
        take_bit_eq_mod bit_iff_odd)
  then have "cmp_field (dec_of_nat m) (dec_of_nat n) = 0"
    using assms numeric_render_Num
    by (simp add: cmp_field_def atol_dec_of_nat del: clr_oci_string_is_numeric.simps)
  then show ?thesis by (simp only: cmp_pre_release_fields_Cons) simp
qed

theorem numeric_identifiers_wrap_witness:
  "cmp_pre_release_fields [dec_of_nat 4294967296] [dec_of_nat 0] = 0"
  using numeric_identifiers_wrap [of 4294967296 0 "[]" "[]"] by (simp add: LONG_MAX_def)

end
