(* ===== verification/Json.thy ===== *)
theory Json
  imports Oci_Types
begin

text \<open>
  \<^verbatim>\<open>src/json.c\<close> and the JSON helpers of \<^verbatim>\<open>src/util.c\<close>: a JSON document becomes a
  tree of \<^verbatim>\<open>GNode\<close>s whose data are strings, which all the section handlers walk. A node
  with NULL data separates the objects of an array.
\<close>

datatype gnode = GNode (gdata: cstring) (gchildren: "gnode list")

definition NODE_BUF_SIZE :: nat where "NODE_BUF_SIZE = 64"

text \<open>
  The string of a JSON value node: a string as it is, a number printed into a buffer of
  \<^const>\<open>NODE_BUF_SIZE\<close> bytes. The other constructors are not value nodes.
\<close>

fun clr_oci_json_string :: "json \<Rightarrow> string" where
  "clr_oci_json_string (JString s) = s"
| "clr_oci_json_string (JDouble s) = buf_put NODE_BUF_SIZE s"
| "clr_oci_json_string (JInt i) = buf_put NODE_BUF_SIZE (dec_of_int i)"
| "clr_oci_json_string (JBool b) =
     buf_put NODE_BUF_SIZE (if b then ''true'' else ''false'')"
| "clr_oci_json_string _ = buf_put NODE_BUF_SIZE ''Unknown type''"

text \<open>
  The nodes that \<^verbatim>\<open>clr_oci_json_parse_aux\<close> appends below its node argument. An object
  appends an empty node and then one node per member; a member's value is parsed below the
  member's node. An element of an array is parsed below the array's own node, and a scalar
  element gets an empty child.
\<close>

fun clr_oci_json_parse_aux :: "json \<Rightarrow> bool \<Rightarrow> gnode list"
  and parse_members :: "(string \<times> json) list \<Rightarrow> gnode list"
  and parse_elements :: "json list \<Rightarrow> gnode list"
where
  "clr_oci_json_parse_aux (JObj members) parsing_array = GNode None [] # parse_members members"
| "clr_oci_json_parse_aux (JArr elements) parsing_array = parse_elements elements"
| "clr_oci_json_parse_aux JNull parsing_array = []"
| "clr_oci_json_parse_aux v parsing_array =
     [GNode (Some (clr_oci_json_string v)) (if parsing_array then [GNode None []] else [])]"
| "parse_members [] = []"
| "parse_members ((key, v) # ms) =
     GNode (Some key) (clr_oci_json_parse_aux v False) # parse_members ms"
| "parse_elements [] = []"
| "parse_elements (v # vs) = clr_oci_json_parse_aux v True @ parse_elements vs"

definition clr_oci_json_parse :: "env \<Rightarrow> cstring \<Rightarrow> world \<Rightarrow> gnode option \<times> world" where
  "clr_oci_json_parse E filename w =
     (case filename of
        None \<Rightarrow> (None, w)
      | Some f \<Rightarrow>
          if f = [] then (None, w)
          else (case callS E (FileGet f) w of
                  (None, w) \<Rightarrow> (None, w)
                | (Some text, w) \<Rightarrow>
                    (case json_parse E text of
                       None \<Rightarrow> (None, w)
                     | Some root \<Rightarrow> (Some (GNode (Some f) (clr_oci_json_parse_aux root False)), w))))"

definition clr_oci_json_obj_to_string :: "env \<Rightarrow> json option \<Rightarrow> bool \<Rightarrow> cstring" where
  "clr_oci_json_obj_to_string E obj pretty = map_option (json_gen E pretty) obj"

definition clr_oci_json_arr_to_string :: "env \<Rightarrow> json option \<Rightarrow> bool \<Rightarrow> cstring" where
  "clr_oci_json_arr_to_string E array pretty = map_option (json_gen E pretty) array"

text \<open>
  \<^verbatim>\<open>json_object_set_string_member\<close> stores null for a NULL string. Setting a member that
  exists replaces its value in place.
\<close>

definition jstring :: "cstring \<Rightarrow> json" where
  "jstring s = (case s of None \<Rightarrow> JNull | Some t \<Rightarrow> JString t)"

fun set_member :: "string \<Rightarrow> json \<Rightarrow> (string \<times> json) list \<Rightarrow> (string \<times> json) list" where
  "set_member k v [] = [(k, v)]"
| "set_member k v ((k', v') # ms) = (if k' = k then (k, v) # ms else (k', v') # set_member k v ms)"

lemma map_of_set_member: "map_of (set_member k v ms) = (map_of ms)(k \<mapsto> v)"
  by (induction k v ms rule: set_member.induct) (auto simp: fun_eq_iff)

lemma set_member_new: "k \<notin> set (map fst ms) \<Longrightarrow> set_member k v ms = ms @ [(k, v)]"
  by (induction k v ms rule: set_member.induct) auto

subsection \<open>The strings of numbers\<close>

lemma length_dec_of_nat: "n < 10 ^ Suc k \<Longrightarrow> length (dec_of_nat n) \<le> Suc k"
proof (induction k arbitrary: n)
  case 0
  then show ?case by (simp add: dec_of_nat.simps)
next
  case (Suc k)
  then have "n div 10 < 10 ^ Suc k" by (simp add: less_mult_imp_div_less mult.commute)
  with Suc.IH show ?case by (subst dec_of_nat.simps) auto
qed

lemma length_dec_of_int: "\<bar>i\<bar> < 10 ^ 20 \<Longrightarrow> length (dec_of_int i) < NODE_BUF_SIZE"
  using length_dec_of_nat [of "nat \<bar>i\<bar>" 19]
  by (auto simp: dec_of_int_def NODE_BUF_SIZE_def nat_less_iff)

text \<open>A \<^verbatim>\<open>gint64\<close> prints without truncation.\<close>

lemma json_string_JInt:
  "LONG_MIN \<le> i \<Longrightarrow> i \<le> LONG_MAX \<Longrightarrow> clr_oci_json_string (JInt i) = dec_of_int i"
  using length_dec_of_int [of i] by (simp add: LONG_MIN_def LONG_MAX_def abs_less_iff)

lemma json_string_JBool [simp]:
  "clr_oci_json_string (JBool b) = (if b then ''true'' else ''false'')"
  by (simp add: NODE_BUF_SIZE_def)

lemma clr_oci_json_string_JInt_small [simp]:
  "0 \<le> i \<Longrightarrow> i < 2 ^ 32 \<Longrightarrow> clr_oci_json_string (JInt i) = dec_of_nat (nat i)"
  using json_string_JInt [of i] by (simp add: LONG_MIN_def LONG_MAX_def dec_of_int_def)

declare clr_oci_json_string.simps(3,4) [simp del]

lemma parse_members_map:
  "parse_members ms = map (\<lambda>(k, v). GNode (Some k) (clr_oci_json_parse_aux v False)) ms"
  by (induction ms) auto

lemma parse_elements_concat:
  "parse_elements vs = concat (map (\<lambda>v. clr_oci_json_parse_aux v True) vs)"
  by (induction vs) auto

text \<open>An array of strings becomes one node per string.\<close>

lemma parse_string_array:
  "clr_oci_json_parse_aux (JArr (map JString ss)) b = map (\<lambda>s. GNode (Some s) [GNode None []]) ss"
  by (induction ss) auto

end
