(* ===== verification/Util.thy ===== *)
theory Util
  imports Json
begin

text \<open>
  \<^verbatim>\<open>src/util.c\<close>: signal names, pid files, recursive removal, string replacement, reading a
  file into lines, argument vectors from a tree node, path resolution.
\<close>

subsection \<open>Signal names\<close>

text \<open>The signal numbers of Linux on x86-64, the platform the runtime supports.\<close>

definition signal_table :: "int clr_oci_map" where
  "signal_table =
    [(1, ''SIGHUP''), (2, ''SIGINT''), (3, ''SIGQUIT''), (4, ''SIGILL''), (5, ''SIGTRAP''),
     (6, ''SIGABRT''), (6, ''SIGIOT''), (7, ''SIGBUS''), (8, ''SIGFPE''), (9, ''SIGKILL''),
     (10, ''SIGUSR1''), (11, ''SIGSEGV''), (12, ''SIGUSR2''), (13, ''SIGPIPE''), (14, ''SIGALRM''),
     (15, ''SIGTERM''), (16, ''SIGSTKFLT''), (17, ''SIGCLD''), (17, ''SIGCHLD''), (18, ''SIGCONT''),
     (19, ''SIGSTOP''), (20, ''SIGTSTP''), (21, ''SIGTTIN''), (22, ''SIGTTOU''), (23, ''SIGURG''),
     (24, ''SIGXCPU''), (25, ''SIGXFSZ''), (26, ''SIGVTALRM''), (27, ''SIGPROF''),
     (28, ''SIGWINCH''), (29, ''SIGPOLL''), (29, ''SIGIO''), (30, ''SIGPWR''), (31, ''SIGSYS''),
     (31, ''SIGUNUSED'')]"

definition SIGKILL :: int where "SIGKILL = 9"
definition SIGTERM :: int where "SIGTERM = 15"
definition SIGCONT :: int where "SIGCONT = 18"
definition SIGSTOP :: int where "SIGSTOP = 19"
definition SIGTRAP :: int where "SIGTRAP = 5"

definition full_signal_name :: "string \<Rightarrow> string" where
  "full_signal_name signame =
     buf_put 32 ((if prefix ''SIG'' signame then [] else ''SIG'') @ signame)"

definition clr_oci_get_signum :: "cstring \<Rightarrow> int" where
  "clr_oci_get_signum signame =
     (case signame of
        None \<Rightarrow> -1
      | Some s \<Rightarrow>
          (case num_of signal_table (Some (full_signal_name s)) of None \<Rightarrow> -1 | Some n \<Rightarrow> n))"

subsection \<open>Files and paths\<close>

definition clr_oci_create_pidfile :: "env \<Rightarrow> cstring \<Rightarrow> int \<Rightarrow> world \<Rightarrow> bool \<times> world" where
  "clr_oci_create_pidfile E pidfile pid w =
     (case pidfile of
        None \<Rightarrow> (False, w)
      | Some f \<Rightarrow>
          if f = [] \<or> hd f \<noteq> slash then (False, w)
          else if pid \<le> 0 then (False, w)
          else callB E (FileSet f (dec_of_int pid)) w)"

text \<open>
  A \<^verbatim>\<open>GDateTime\<close> is the number of microseconds since the epoch; the years 1 to 9999 can be
  represented. \<^verbatim>\<open>g_date_time_to_timeval\<close> takes that number apart, whatever the time zone.
\<close>

definition g_date_time_add_hours :: "int \<Rightarrow> int \<Rightarrow> int option" where
  "g_date_time_add_hours t hours =
     (let t = t + hours * 3600000000
      in if - 62135596800000000 \<le> t \<and> t < 253402300800000000 then Some t else None)"

definition clr_oci_get_iso8601_timestamp :: "env \<Rightarrow> world \<Rightarrow> cstring \<times> world" where
  "clr_oci_get_iso8601_timestamp E w =
     (case callI E Now w of (dt, w) \<Rightarrow>
        if dt < 0 then (None, w)
        else (case callB E (IsDaylightSavings dt) w of (dst, w) \<Rightarrow>
          (case (if dst then g_date_time_add_hours dt 1 else Some dt) of
             None \<Rightarrow> (None, w)
           | Some dt \<Rightarrow> callS E (Iso8601 dt) w)))"

definition CLR_OCI_RM_CMD :: string where "CLR_OCI_RM_CMD = ''/bin/rm''"

definition rm_rf_command :: "string \<Rightarrow> string" where
  "rm_rf_command path = CLR_OCI_RM_CMD @ '' -rf \"'' @ path @ ''\" >/dev/null 2>&1''"

definition clr_oci_rm_rf :: "env \<Rightarrow> cstring \<Rightarrow> world \<Rightarrow> bool \<times> world" where
  "clr_oci_rm_rf E path w =
     (case path of
        None \<Rightarrow> (False, w)
      | Some p \<Rightarrow>
          if p = [] then (False, w)
          else (case callI E (System (rm_rf_command p)) w of (r, w) \<Rightarrow> (r = 0, w)))"

text \<open>
  \<^verbatim>\<open>g_utf8_strlen (s, LINE_MAX)\<close> counts the characters, not the bytes, of a valid UTF-8
  string: the bytes that are not continuation bytes.
\<close>

definition g_utf8_strlen :: "string \<Rightarrow> nat" where
  "g_utf8_strlen s =
     length (filter (\<lambda>c. \<not> (128 \<le> char_code c \<and> char_code c < 192)) (take LINE_MAX s))"

text \<open>
  Replacement of the first occurrence. The result is always true; the model returns the new
  string.
\<close>

definition clr_oci_replace_string :: "string \<Rightarrow> cstring \<Rightarrow> cstring \<Rightarrow> string" where
  "clr_oci_replace_string str from to =
     (case (from, to) of
        (Some f, Some t) \<Rightarrow>
          if f = [] then str
          else (case strstr f str of
                  None \<Rightarrow> str
                | Some pre \<Rightarrow> take pre str @ t @ drop (pre + g_utf8_strlen f) str)
      | _ \<Rightarrow> str)"

definition clr_oci_file_to_strv :: "env \<Rightarrow> cstring \<Rightarrow> world \<Rightarrow> string list option \<times> world" where
  "clr_oci_file_to_strv E file w =
     (case file of
        None \<Rightarrow> (None, w)
      | Some f \<Rightarrow>
          if f = [] \<or> hd f \<noteq> slash then (None, w)
          else (case callS E (FileGet f) w of
                  (None, w) \<Rightarrow> (None, w)
                | (Some contents, w) \<Rightarrow>
                    let strv = g_strsplit CHR 0x0A (cstr_at contents 0) in
                    if strv = [] then (None, w)
                    else if last strv = [] then (Some (butlast strv), w)
                    else (Some strv, w)))"

text \<open>
  The vector ends, for every reader of it, at the first child without data.
\<close>

definition node_to_strv :: "gnode \<Rightarrow> string list" where
  "node_to_strv root = map the (takeWhile (\<lambda>d. d \<noteq> None) (map gdata (gchildren root)))"

definition clr_oci_resolve_path :: "env \<Rightarrow> cstring \<Rightarrow> world \<Rightarrow> cstring \<times> world" where
  "clr_oci_resolve_path E path w =
     (case path of
        None \<Rightarrow> (None, w)
      | Some p \<Rightarrow> if p = [] then (None, w) else callS E (Realpath p) w)"

subsection \<open>Lemmas\<close>

text \<open>
  In summer the timestamp is that of an hour later: the hour is added to a time that does not
  depend on the time zone.
\<close>

lemma summer_timestamp_is_late:
  assumes "sys_int E w Now = t" and "0 \<le> t" and "t + 3600000000 < 253402300800000000"
    and "\<forall>v. sys_bool E v (IsDaylightSavings t)" and "\<forall>v u. sys_str E v (Iso8601 u) = Some (show_time u)"
  shows "fst (clr_oci_get_iso8601_timestamp E w) = Some (show_time (t + 3600000000))"
  using assms by (simp add: clr_oci_get_iso8601_timestamp_def g_date_time_add_hours_def call_defs)

lemma timestamp_extends:
  "clr_oci_get_iso8601_timestamp E w = (ts, w') \<Longrightarrow> (\<And>t. P (IsDaylightSavings t)) \<Longrightarrow> (\<And>t. P (Iso8601 t)) \<Longrightarrow> P Now \<Longrightarrow>
     extends_by P w w'"
  by (auto simp: clr_oci_get_iso8601_timestamp_def call_defs split: if_splits option.splits)

lemma signal_names: "distinct (map snd signal_table)"
  by (simp add: signal_table_def)

lemma signal_table_prefix: "(n, s) \<in> set signal_table \<Longrightarrow> prefix ''SIG'' s"
  by (auto simp: signal_table_def)

lemma signal_table_length: "(n, s) \<in> set signal_table \<Longrightarrow> length s < 31"
  by (auto simp: signal_table_def)

lemma signal_table_range: "(n, s) \<in> set signal_table \<Longrightarrow> 1 \<le> n \<and> n \<le> 31"
  by (auto simp: signal_table_def)

lemma num_of_distinct:
  "distinct (map snd tbl) \<Longrightarrow> (k, s) \<in> set tbl \<Longrightarrow> num_of tbl (Some s) = Some k"
  by (induction tbl "Some s" rule: num_of.induct) (auto simp: rev_image_eqI)

text \<open>
  Truncation to the 32-byte buffer never produces a name of the table: a name that was cut has
  31 characters.
\<close>

lemma full_name_in_table:
  "(n, full_signal_name s) \<in> set signal_table \<longleftrightarrow>
     (n, (if prefix ''SIG'' s then [] else ''SIG'') @ s) \<in> set signal_table" (is "?L \<longleftrightarrow> ?R")
proof
  assume ?L
  then have "length (full_signal_name s) < 31" by (rule signal_table_length)
  then have "full_signal_name s = (if prefix ''SIG'' s then [] else ''SIG'') @ s"
    by (simp add: full_signal_name_def buf_put_def min_def split: if_splits)
  with \<open>?L\<close> show ?R by metis
next
  assume ?R
  then have "length ((if prefix ''SIG'' s then [] else ''SIG'') @ s) < 31" by (rule signal_table_length)
  then have "full_signal_name s = (if prefix ''SIG'' s then [] else ''SIG'') @ s"
    unfolding full_signal_name_def by (intro buf_put_fits) simp
  with \<open>?R\<close> show ?L by metis
qed

lemma get_signum_iff:
  "0 \<le> n \<Longrightarrow> clr_oci_get_signum (Some s) = n \<longleftrightarrow>
     (n, (if prefix ''SIG'' s then [] else ''SIG'') @ s) \<in> set signal_table"
  unfolding full_name_in_table [symmetric] clr_oci_get_signum_def
  by (auto split: option.splits dest: num_of_Some_in num_of_distinct [OF signal_names])

lemma get_signum_range: "clr_oci_get_signum s = -1 \<or> 1 \<le> clr_oci_get_signum s \<and> clr_oci_get_signum s \<le> 31"
  unfolding clr_oci_get_signum_def
  by (auto split: option.splits dest!: num_of_Some_in signal_table_range)

definition ascii :: "string \<Rightarrow> bool" where
  "ascii s \<longleftrightarrow> list_all (\<lambda>c. char_code c < 128) s"

lemma g_utf8_strlen_ascii: "ascii s \<Longrightarrow> length s \<le> LINE_MAX \<Longrightarrow> g_utf8_strlen s = length s"
  by (auto simp: g_utf8_strlen_def ascii_def list_all_iff intro!: arg_cong [where f = length] filter_True)

lemma replace_string_absent:
  "\<not> sublist f str \<Longrightarrow> clr_oci_replace_string str (Some f) to = str"
  by (auto simp: clr_oci_replace_string_def sublist_def strstr_None [THEN iffD2] split: option.splits)

lemma replace_string_NULL [simp]: "clr_oci_replace_string str from None = str"
  by (simp add: clr_oci_replace_string_def split: option.splits)

text \<open>
  The first occurrence of an ASCII token is replaced and nothing else changes.
\<close>

lemma replace_string_split:
  assumes "ascii f" and "length f \<le> LINE_MAX" and "f \<noteq> []" and "sublist f str"
  shows "\<exists>a b. str = a @ f @ b \<and> clr_oci_replace_string str (Some f) (Some t) = a @ t @ b
     \<and> (\<forall>a' b'. str = a' @ f @ b' \<longrightarrow> length a \<le> length a')"
proof -
  have "strstr f str \<noteq> None"
    using assms(4) by (auto simp: strstr_None sublist_def)
  then obtain i where i: "strstr f str = Some i" by auto
  note si = strstr_Some [OF i]
  have first: "i \<le> length a'" if "str = a' @ f @ b'" for a' b'
    using i that
  proof (induction f str arbitrary: i a' rule: strstr.induct)
    case (2 n c cs)
    show ?case
    proof (cases "prefix n (c # cs)")
      case True
      with "2.prems"(1) show ?thesis by simp
    next
      case False
      with 2 have "a' \<noteq> []" by (auto simp: prefix_def)
      with 2 False show ?thesis by (cases a') auto
    qed
  qed (auto split: if_splits)
  have "str = take i str @ f @ drop (i + length f) str"
    using si by (metis append_take_drop_id drop_drop add.commute)
  moreover have "clr_oci_replace_string str (Some f) (Some t) = take i str @ t @ drop (i + length f) str"
    using i assms by (simp add: clr_oci_replace_string_def g_utf8_strlen_ascii)
  moreover have "length (take i str) = i" using si by simp
  ultimately show ?thesis
    using first by (intro exI [of _ "take i str"] exI [of _ "drop (i + length f) str"]) auto
qed

lemma node_to_strv_array:
  "node_to_strv (GNode d (clr_oci_json_parse_aux (JArr (map JString ss)) b)) = ss"
  by (induction ss) (simp_all add: node_to_strv_def)

subsection \<open>Dump of a tree\<close>

text \<open>
  The messages that a debug build logs for a tree, a node before its children: the indentation, cut to
  its buffer, the depth, which is 1 at the root, and the string of the node.
\<close>

fun clr_oci_node_dump_aux :: "nat \<Rightarrow> gnode \<Rightarrow> string list" where
  "clr_oci_node_dump_aux depth (GNode d ns) =
     (buf_put LINE_MAX (concat (replicate depth ''    '')) @ ''['' @ dec_of_nat depth @ '']:'' @ fmt_s d)
       # concat (map (clr_oci_node_dump_aux (Suc depth)) ns)"

definition clr_oci_node_dump :: "gnode option \<Rightarrow> string list" where
  "clr_oci_node_dump p =
     (case p of
        None \<Rightarrow> []
      | Some node \<Rightarrow> ''debug: ======== Dumping GNode: ========'' # clr_oci_node_dump_aux 1 node)"

fun node_count :: "gnode \<Rightarrow> nat" where
  "node_count (GNode d ns) = Suc (sum_list (map node_count ns))"

lemma dump_aux_lines: "length (clr_oci_node_dump_aux k node) = node_count node"
  by (induction k node rule: clr_oci_node_dump_aux.induct) (simp add: length_concat comp_def cong: map_cong)

text \<open>One message for every node, and one before.\<close>

lemma dump_lines: "length (clr_oci_node_dump (Some node)) = Suc (node_count node)"
  by (simp add: clr_oci_node_dump_def dump_aux_lines)

end
