(* ===== verification/Mount.thy ===== *)
theory Mount
  imports Util
begin

text \<open>
  \<^verbatim>\<open>src/mount.c\<close> and \<^verbatim>\<open>src/annotation.c\<close>: the mounts of a container, made below its
  root directory before the hypervisor starts, recorded in the state file and undone by
  "delete"; and the annotations written to the state file.
\<close>

subsection \<open>Mounts the hypervisor makes itself\<close>

text \<open>The three members of a \<^verbatim>\<open>struct mntent\<close> that are compared.\<close>

record mntent =
  me_fsname :: cstring
  me_dir :: cstring
  me_type :: cstring

abbreviation dir_entry :: "string \<Rightarrow> mntent" where
  "dir_entry d \<equiv> \<lparr>me_fsname = None, me_dir = Some d, me_type = None\<rparr>"

definition clr_oci_mounts_to_ignore :: "mntent list" where
  "clr_oci_mounts_to_ignore =
     [dir_entry ''/proc'', dir_entry ''/dev'', dir_entry ''/dev/pts'', dir_entry ''/dev/shm'',
      dir_entry ''/dev/mqueue'', dir_entry ''/sys'', dir_entry ''/sys/fs/cgroup'']"

definition clr_oci_found_str_mntent_match :: "cstring \<Rightarrow> cstring \<Rightarrow> bool" where
  "clr_oci_found_str_mntent_match e m \<longleftrightarrow> e \<noteq> None \<and> g_strcmp0 e m = 0"

fun mount_ignore_loop :: "mntent list \<Rightarrow> clr_oci_mount \<Rightarrow> bool" where
  "mount_ignore_loop [] m = False"
| "mount_ignore_loop (me # mes) m =
     (if clr_oci_found_str_mntent_match (me_fsname me) (mnt_fsname m) then True
      else if clr_oci_found_str_mntent_match (me_dir me) (mnt_dir m) then True
      else if clr_oci_found_str_mntent_match (me_type me) (mnt_type m) then True
      else mount_ignore_loop mes m)"

definition clr_oci_mount_ignore :: "clr_oci_mount \<Rightarrow> bool \<times> clr_oci_mount" where
  "clr_oci_mount_ignore m =
     (if mount_ignore_loop clr_oci_mounts_to_ignore m then (True, m\<lparr>ignore_mount := True\<rparr>)
      else (False, m))"

subsection \<open>Mounting\<close>

text \<open>\<^verbatim>\<open>mount (fsname, dest, type, flags, opts)\<close>; in dry-run mode only a log message.\<close>

definition clr_oci_perform_mount :: "env \<Rightarrow> clr_oci_mount \<Rightarrow> bool \<Rightarrow> world \<Rightarrow> bool \<times> world" where
  "clr_oci_perform_mount E m dry_run w =
     (if dry_run then (True, w)
      else (case callI E (Mount (fmt_s (mnt_fsname m)) (mnt_dest m) (fmt_s (mnt_type m))
                            (unat (mnt_flags m)) (mnt_opts m)) w of
              (ret, w) \<Rightarrow> (ret = 0, w)))"

text \<open>
  The body for one mount that is not ignored: whether to go on, and the mount with its
  destination. A NULL source is dereferenced. The directory that is created is the
  destination, or its parent when the source is a file.
\<close>

definition mount_one ::
  "env \<Rightarrow> string \<Rightarrow> bool \<Rightarrow> clr_oci_mount \<Rightarrow> world \<Rightarrow> (bool \<times> clr_oci_mount \<times> world) option" where
  "mount_one E root_path dry_run m w = do {
     let m = m\<lparr>mnt_dest := buf_put PATH_MAX (root_path @ fmt_s (mnt_dir m))\<rparr>;
     fsname \<leftarrow> mnt_fsname m;
     let absolute = (fsname \<noteq> [] \<and> hd fsname = slash);
     let (ok, w) = (if absolute then callB E (Stat fsname) w else (True, w));
     if \<not> ok then Some (True, m, w)
     else do {
       let (is_dir, w) = (if absolute then callB E (StatIsDir fsname) w else (True, w));
       let dirname_dest = (if is_dir then mnt_dest m else g_path_get_dirname (mnt_dest m));
       let (ret, w) = callI E (MkdirParents dirname_dest CLR_OCI_DIR_MODE) w;
       if ret < 0 then Some (False, m, w)
       else do {
         let (ok, w) = clr_oci_perform_mount E m dry_run w;
         Some (ok, m, w)
       }
     }
   }"

fun handle_mounts_loop ::
  "env \<Rightarrow> string \<Rightarrow> bool \<Rightarrow> clr_oci_mount list \<Rightarrow> world \<Rightarrow> (bool \<times> clr_oci_mount list \<times> world) option" where
  "handle_mounts_loop E root_path dry_run [] w = Some (True, [], w)"
| "handle_mounts_loop E root_path dry_run (m # l) w =
     (case clr_oci_mount_ignore m of
        (True, m) \<Rightarrow> do {
          (b, l, w) \<leftarrow> handle_mounts_loop E root_path dry_run l w;
          Some (b, m # l, w)
        }
      | (False, m) \<Rightarrow> do {
          (ok, m, w) \<leftarrow> mount_one E root_path dry_run m w;
          if \<not> ok then Some (False, m # l, w)
          else do {
            (b, l, w) \<leftarrow> handle_mounts_loop E root_path dry_run l w;
            Some (b, m # l, w)
          }
        })"

definition clr_oci_handle_mounts ::
  "env \<Rightarrow> clr_oci_config \<Rightarrow> world \<Rightarrow> (bool \<times> clr_oci_config \<times> world) option" where
  "clr_oci_handle_mounts E config w = do {
     (b, l, w) \<leftarrow> handle_mounts_loop E (rootfs_path (rootfs (oci config))) (dry_run_mode config)
                    (mounts (oci config)) w;
     Some (b, config\<lparr>oci := (oci config)\<lparr>mounts := l\<rparr>\<rparr>, w)
   }"

subsection \<open>Unmounting\<close>

definition clr_oci_perform_unmount :: "env \<Rightarrow> clr_oci_mount \<Rightarrow> world \<Rightarrow> bool \<times> world" where
  "clr_oci_perform_unmount E m w = (case callI E (Umount (mnt_dest m)) w of (r, w) \<Rightarrow> (r = 0, w))"

fun handle_unmounts_loop :: "env \<Rightarrow> clr_oci_mount list \<Rightarrow> world \<Rightarrow> bool \<times> world" where
  "handle_unmounts_loop E [] w = (True, w)"
| "handle_unmounts_loop E (m # l) w =
     (if ignore_mount m then handle_unmounts_loop E l w
      else (case clr_oci_perform_unmount E m w of
              (False, w) \<Rightarrow> (False, w)
            | (True, w) \<Rightarrow> handle_unmounts_loop E l w))"

definition clr_oci_handle_unmounts :: "env \<Rightarrow> clr_oci_config \<Rightarrow> world \<Rightarrow> bool \<times> world" where
  "clr_oci_handle_unmounts E config w = handle_unmounts_loop E (mounts (oci config)) w"

subsection \<open>The state file's view\<close>

definition clr_oci_mounts_to_json :: "clr_oci_config \<Rightarrow> json" where
  "clr_oci_mounts_to_json config =
     JArr (map (\<lambda>m. JString (mnt_dest m))
            (filter (\<lambda>m. \<not> ignore_mount m) (mounts (oci config))))"

definition clr_oci_annotations_to_json :: "clr_oci_config \<Rightarrow> json" where
  "clr_oci_annotations_to_json config =
     JObj (fold (\<lambda>a. set_member (ann_key a) (jstring (ann_value a))) (annotations (oci config)) [])"

subsection \<open>What was mounted, and what is recorded\<close>

text \<open>The targets a history mounted and unmounted, oldest first.\<close>

fun mounted :: "world \<Rightarrow> string list" where
  "mounted [] = []"
| "mounted (x # w) =
     mounted w @ (case x of (Mount src dest t fl opts, RInt r) \<Rightarrow> (if r = 0 then [dest] else []) | _ \<Rightarrow> [])"

definition recorded :: "clr_oci_mount list \<Rightarrow> string list" where
  "recorded l = map mnt_dest (filter (\<lambda>m. \<not> ignore_mount m) l)"

lemma recorded_simps [simp]:
  "recorded [] = []"
  "recorded (m # l) = (if ignore_mount m then recorded l else mnt_dest m # recorded l)"
  by (simp_all add: recorded_def)

lemma mounts_to_json_recorded:
  "clr_oci_mounts_to_json config = JArr (map JString (recorded (mounts (oci config))))"
  by (simp add: clr_oci_mounts_to_json_def recorded_def comp_def)

definition ignored_dirs :: "string list" where
  "ignored_dirs = [''/proc'', ''/dev'', ''/dev/pts'', ''/dev/shm'', ''/dev/mqueue'', ''/sys'', ''/sys/fs/cgroup'']"

lemma mount_ignore_iff:
  "clr_oci_mount_ignore m =
     (if mnt_dir m \<in> Some ` set ignored_dirs then (True, m\<lparr>ignore_mount := True\<rparr>) else (False, m))"
  by (auto simp: clr_oci_mount_ignore_def clr_oci_mounts_to_ignore_def ignored_dirs_def
      clr_oci_found_str_mntent_match_def)

lemma mounted_perform:
  "clr_oci_perform_mount E m dry_run w = (b, w') \<Longrightarrow>
   mounted w' = mounted w @ (if b \<and> \<not> dry_run then [mnt_dest m] else [])"
  by (auto simp: clr_oci_perform_mount_def callI_def split: if_splits)

lemma mount_one_facts:
  assumes "mount_one E r dry_run m w = Some (b, m', w')"
  shows "m' = m\<lparr>mnt_dest := buf_put PATH_MAX (r @ fmt_s (mnt_dir m))\<rparr>
     \<and> (mounted w' = mounted w \<or> b \<and> mounted w' = mounted w @ [mnt_dest m'])"
  using assms
  by (auto simp: mount_one_def bind_eq_Some_conv callB_def callI_def Let_def
      split: if_splits prod.splits dest!: mounted_perform)

text \<open>
  The flag of the mount is only set by \<^const>\<open>clr_oci_mount_ignore\<close>; at the start of "create"
  no mount is ignored.
\<close>

lemma handle_mounts_loop_recorded:
  assumes "handle_mounts_loop E r dry_run l w = Some (b, l', w')"
    and "list_all (\<lambda>m. \<not> ignore_mount m) l"
  shows "\<exists>new. mounted w' = mounted w @ new \<and> subseq new (recorded l')"
  using assms
proof (induction l arbitrary: w b l' w')
  case Nil
  then show ?case by auto
next
  case (Cons m l)
  show ?case
  proof (cases "mnt_dir m \<in> Some ` set ignored_dirs")
    case True
    with Cons show ?thesis by (auto simp: mount_ignore_iff bind_eq_Some_conv)
  next
    case False
    then have "clr_oci_mount_ignore m = (False, m)" by (auto simp: mount_ignore_iff)
    with Cons.prems obtain ok m1 w1 where one: "mount_one E r dry_run m w = Some (ok, m1, w1)"
      and rest: "(if \<not> ok then Some (False, m1 # l, w1)
        else do { (b, l, w) \<leftarrow> handle_mounts_loop E r dry_run l w1; Some (b, m1 # l, w) }) = Some (b, l', w')"
      by (auto simp: bind_eq_Some_conv)
    note facts = mount_one_facts [OF one]
    show ?thesis
    proof (cases ok)
      case False
      with rest facts show ?thesis by (auto intro: exI [of _ "[]"])
    next
      case True
      with rest obtain l2 where l2: "handle_mounts_loop E r dry_run l w1 = Some (b, l2, w')" "l' = m1 # l2"
        by (auto simp: bind_eq_Some_conv)
      from Cons.IH [OF l2(1)] Cons.prems(2) obtain new where new: "mounted w' = mounted w1 @ new" "subseq new (recorded l2)"
        by auto
      have "\<not> ignore_mount m1" using facts Cons.prems(2) by simp
      show ?thesis
      proof (cases "mounted w1 = mounted w")
        case True
        with new l2 show ?thesis by auto
      next
        case False
        with facts have "mounted w1 = mounted w @ [mnt_dest m1]" by blast
        with new l2 \<open>\<not> ignore_mount m1\<close> show ?thesis by (intro exI [of _ "mnt_dest m1 # new"]) simp
      qed
    qed
  qed
qed

lemma handle_unmounts_loop_calls:
  "handle_unmounts_loop E l w = (b, w') \<Longrightarrow>
   \<exists>ds. prefix ds (recorded l) \<and> calls w' = calls w @ map Umount ds \<and> (b \<longrightarrow> ds = recorded l)"
proof (induction l arbitrary: w)
  case Nil
  then show ?case by auto
next
  case (Cons m l)
  show ?case
  proof (cases "ignore_mount m")
    case True
    with Cons show ?thesis by simp
  next
    case False
    let ?w1 = "snd (clr_oci_perform_unmount E m w)"
    have w1: "calls ?w1 = calls w @ [Umount (mnt_dest m)]"
      by (simp add: clr_oci_perform_unmount_def callI_def)
    show ?thesis
    proof (cases "fst (clr_oci_perform_unmount E m w)")
      case True
      with Cons.prems False have "handle_unmounts_loop E l ?w1 = (b, w')"
        by (auto split: prod.splits)
      with Cons.IH w1 obtain ds where "prefix ds (recorded l)"
        "calls w' = (calls w @ [Umount (mnt_dest m)]) @ map Umount ds" "b \<longrightarrow> ds = recorded l"
        by metis
      with \<open>\<not> ignore_mount m\<close> show ?thesis
        by (intro exI [of _ "mnt_dest m # ds"]) simp
    next
      case f: False
      with Cons.prems False have "b = False \<and> w' = ?w1"
        by (auto split: prod.splits)
      with w1 False show ?thesis by (intro exI [of _ "[mnt_dest m]"]) simp
    qed
  qed
qed

subsection \<open>Properties\<close>

text \<open>
  C35. Whatever the kernel answers and wherever the handling of the mounts stops, every target
  that was mounted is recorded, in order, in the list that the state file takes and that
  "delete" unmounts.
\<close>

theorem every_mount_is_recorded:
  assumes "clr_oci_handle_mounts E config [] = Some (b, config', w)"
    and "list_all (\<lambda>m. \<not> ignore_mount m) (mounts (oci config))"
  shows "\<exists>ds. clr_oci_mounts_to_json config' = JArr (map JString ds) \<and> subseq (mounted w) ds"
  using assms handle_mounts_loop_recorded
  by (fastforce simp: clr_oci_handle_mounts_def mounts_to_json_recorded bind_eq_Some_conv)

definition tmpfs_mount :: "string \<Rightarrow> string \<Rightarrow> clr_oci_mount" where
  "tmpfs_mount src dir = mount0\<lparr>mnt_fsname := Some src, mnt_dir := Some dir, mnt_type := Some ''tmpfs''\<rparr>"

definition two_mounts_config :: clr_oci_config where
  "two_mounts_config = config0\<lparr>oci := oci_cfg0\<lparr>
     rootfs := \<lparr>rootfs_path = ''/r'', read_only = False\<rparr>,
     mounts := [tmpfs_mount ''proc'' ''/proc'', tmpfs_mount ''tmp'' ''/tmp'']\<rparr>\<rparr>"

text \<open>A kernel that grants everything, except that it unmounts only what is mounted.\<close>

definition plain_kernel :: env where
  "plain_kernel = env0\<lparr>sys_bool := \<lambda>w c. (case c of Stat p \<Rightarrow> False | _ \<Rightarrow> True),
     sys_int := \<lambda>w c. (case c of Umount d \<Rightarrow> if d \<in> set (mounted w) then 0 else -1 | _ \<Rightarrow> 0)\<rparr>"

lemma two_mounts_run:
  "\<exists>c w. clr_oci_handle_mounts plain_kernel two_mounts_config [] = Some (True, c, w)
     \<and> mounted w = [''/r/tmp'']"
  by (simp add: clr_oci_handle_mounts_def two_mounts_config_def tmpfs_mount_def zeroed plain_kernel_def env0_def
      mount_ignore_iff ignored_dirs_def mount_one_def callB_def callI_def clr_oci_perform_mount_def
      PATH_MAX_def Let_def)

theorem every_mount_is_recorded_witness:
  "\<exists>c w ds. clr_oci_handle_mounts plain_kernel two_mounts_config [] = Some (True, c, w)
     \<and> mounted w = [''/r/tmp''] \<and> subseq [''/r/tmp''] ds
     \<and> clr_oci_mounts_to_json c = JArr (map JString ds)"
proof -
  obtain c w where run: "clr_oci_handle_mounts plain_kernel two_mounts_config [] = Some (True, c, w)"
    "mounted w = [''/r/tmp'']" using two_mounts_run by blast
  have "list_all (\<lambda>m. \<not> ignore_mount m) (mounts (oci two_mounts_config))"
    by (simp add: two_mounts_config_def tmpfs_mount_def zeroed)
  from every_mount_is_recorded [OF run(1) this] run show ?thesis by metis
qed

text \<open>
  Unmounting goes through the recorded targets in the order they were mounted and stops
  at the first that the kernel refuses; it succeeds only when every one was unmounted.
\<close>

theorem unmounts_in_recorded_order:
  assumes "clr_oci_handle_unmounts E config w = (b, w')"
  shows "\<exists>ds. prefix ds (recorded (mounts (oci config)))
     \<and> calls w' = calls w @ map Umount ds \<and> (b \<longrightarrow> ds = recorded (mounts (oci config)))"
  using handle_unmounts_loop_calls assms by (simp add: clr_oci_handle_unmounts_def)

theorem unmounts_in_recorded_order_witness:
  "\<exists>ds. prefix ds [''/a'']
     \<and> calls (snd (clr_oci_handle_unmounts plain_kernel
          (config0\<lparr>oci := oci_cfg0\<lparr>mounts := [mount0\<lparr>mnt_dest := ''/a''\<rparr>]\<rparr>\<rparr>) [])) = map Umount ds"
  using unmounts_in_recorded_order [of plain_kernel
      "config0\<lparr>oci := oci_cfg0\<lparr>mounts := [mount0\<lparr>mnt_dest := ''/a''\<rparr>]\<rparr>\<rparr>" "[]", OF surjective_pairing]
  by (auto simp: zeroed)



end
