(* ===== verification/State_File.thy ===== *)
theory State_File
  imports Mount
begin

text \<open>
  \<^verbatim>\<open>src/state.c\<close> and \<^verbatim>\<open>src/runtime.c\<close>: the state file \<^verbatim>\<open>state.json\<close> of a
  container, its path, how it is written from the configuration and read back into an
  \<^verbatim>\<open>oci_state\<close> by a table of section handlers, and the status names.
\<close>

subsection \<open>Status names\<close>

definition oci_status_map :: "oci_status clr_oci_map" where
  "oci_status_map =
    [(OCI_STATUS_CREATED, ''created''), (OCI_STATUS_RUNNING, ''running''),
     (OCI_STATUS_PAUSED, ''paused''), (OCI_STATUS_STOPPED, ''stopped''),
     (OCI_STATUS_STOPPING, ''stopping'')]"

definition clr_oci_status_to_str :: "oci_status \<Rightarrow> cstring" where
  "clr_oci_status_to_str s = name_of oci_status_map s"

definition clr_oci_str_to_status :: "cstring \<Rightarrow> oci_status" where
  "clr_oci_str_to_status str =
     (case num_of oci_status_map str of None \<Rightarrow> OCI_STATUS_INVALID | Some n \<Rightarrow> n)"

definition clr_oci_status_length :: nat where
  "clr_oci_status_length = foldl (\<lambda>m (n, s). max (g_utf8_strlen s) m) 0 oci_status_map"

definition clr_oci_status_get :: "clr_oci_config \<Rightarrow> cstring" where
  "clr_oci_status_get config = clr_oci_status_to_str (status (cstate config))"

subsection \<open>Paths\<close>

text \<open>\<^verbatim>\<open>g_snprintf (buf, sizeof (buf), "%s/%s", dir, file)\<close>\<close>

definition buf_path :: "string \<Rightarrow> string \<Rightarrow> string" where
  "buf_path dir file = buf_put PATH_MAX (dir @ ''/'' @ file)"

definition clr_oci_runtime_path_get :: "clr_oci_config \<Rightarrow> bool \<times> clr_oci_config" where
  "clr_oci_runtime_path_get config =
     (case optarg_container_id config of
        None \<Rightarrow> (False, config)
      | Some cid \<Rightarrow>
          (True, config\<lparr>cstate := (cstate config)\<lparr>runtime_path :=
             buf_path (case root_dir config of Some d \<Rightarrow> d | None \<Rightarrow> CLR_OCI_RUNTIME_DIR_PREFIX) cid\<rparr>\<rparr>))"

definition clr_oci_state_file_get :: "clr_oci_config \<Rightarrow> bool \<times> clr_oci_config" where
  "clr_oci_state_file_get config =
     (if runtime_path (cstate config) = [] then (False, config)
      else (True, config\<lparr>cstate := (cstate config)\<lparr>state_file_path :=
              buf_path (runtime_path (cstate config)) CLR_OCI_STATE_FILE\<rparr>\<rparr>))"

definition clr_oci_state_file_exists :: "env \<Rightarrow> clr_oci_config \<Rightarrow> world \<Rightarrow> bool \<times> clr_oci_config \<times> world" where
  "clr_oci_state_file_exists E config w =
     (case clr_oci_runtime_path_get config of
        (False, config) \<Rightarrow> (False, config, w)
      | (True, config) \<Rightarrow>
          (case clr_oci_state_file_get config of
             (False, config) \<Rightarrow> (False, config, w)
           | (True, config) \<Rightarrow>
               (case callB E (FileExists (state_file_path (cstate config))) w of
                  (b, w) \<Rightarrow> (b, config, w))))"

definition clr_oci_runtime_dir_setup :: "env \<Rightarrow> clr_oci_config \<Rightarrow> world \<Rightarrow> bool \<times> clr_oci_config \<times> world" where
  "clr_oci_runtime_dir_setup E config w =
     (case (if runtime_path (cstate config) = [] then clr_oci_runtime_path_get config else (True, config)) of
        (False, config) \<Rightarrow> (False, config, w)
      | (True, config) \<Rightarrow>
          let cs = cstate config;
              config = config\<lparr>cstate := cs\<lparr>
                comms_path := buf_path (runtime_path cs) CLR_OCI_HYPERVISOR_SOCKET,
                procsock_path := buf_path (runtime_path cs) CLR_OCI_PROCESS_SOCKET\<rparr>\<rparr>;
              (r1, w) = callI E (MkdirParents (g_path_get_dirname (runtime_path cs)) CLR_OCI_DIR_MODE) w;
              (r2, w) = callI E (Mkdir (runtime_path cs) CLR_OCI_DIR_MODE) w
          in (r2 = 0, config, w))"

definition clr_oci_runtime_dir_delete :: "env \<Rightarrow> clr_oci_config \<Rightarrow> world \<Rightarrow> bool \<times> world" where
  "clr_oci_runtime_dir_delete E config w =
     (let p = runtime_path (cstate config) in
      if p = [] \<or> hd p \<noteq> slash then (False, w)
      else clr_oci_rm_rf E (Some p) w)"

subsection \<open>Reading: one handler per section\<close>

text \<open>
  A handler works on one child of the section's node; it updates the state and counts the
  sub-elements it accepted. \<^verbatim>\<open>update_subelements_and_strdup\<close> is the common case.
\<close>

type_synonym handler_data = "oci_state \<times> nat"

definition update_subelements_and_strdup ::
  "((cstring \<Rightarrow> cstring) \<Rightarrow> oci_state \<Rightarrow> oci_state) \<Rightarrow> gnode \<Rightarrow> handler_data \<Rightarrow> handler_data option" where
  "update_subelements_and_strdup upd node data =
     (case gdata node of
        None \<Rightarrow> Some data
      | Some s \<Rightarrow> Some (upd (\<lambda>_. Some s) (fst data), Suc (snd data)))"

definition handle_state_ociVersion_section :: "gnode \<Rightarrow> handler_data \<Rightarrow> handler_data option" where
  "handle_state_ociVersion_section = update_subelements_and_strdup s_oci_version_update"

definition handle_state_id_section :: "gnode \<Rightarrow> handler_data \<Rightarrow> handler_data option" where
  "handle_state_id_section = update_subelements_and_strdup s_id_update"

definition handle_state_pid_section :: "gnode \<Rightarrow> handler_data \<Rightarrow> handler_data option" where
  "handle_state_pid_section node data =
     (case gdata node of
        None \<Rightarrow> Some data
      | Some s \<Rightarrow>
          (case strtol s of (v, moved) \<Rightarrow>
             Some ((fst data)\<lparr>s_pid := to_int32 v\<rparr>, if moved then Suc (snd data) else snd data)))"

definition handle_state_bundlePath_section :: "gnode \<Rightarrow> handler_data \<Rightarrow> handler_data option" where
  "handle_state_bundlePath_section = update_subelements_and_strdup s_bundle_path_update"

definition handle_state_commsPath_section :: "gnode \<Rightarrow> handler_data \<Rightarrow> handler_data option" where
  "handle_state_commsPath_section = update_subelements_and_strdup s_comms_path_update"

definition handle_state_processPath_section :: "gnode \<Rightarrow> handler_data \<Rightarrow> handler_data option" where
  "handle_state_processPath_section = update_subelements_and_strdup s_procsock_path_update"

definition handle_state_status_section :: "gnode \<Rightarrow> handler_data \<Rightarrow> handler_data option" where
  "handle_state_status_section node data =
     (case gdata node of
        None \<Rightarrow> Some data
      | Some s \<Rightarrow> Some ((fst data)\<lparr>s_status := clr_oci_str_to_status (Some s)\<rparr>, Suc (snd data)))"

definition handle_state_created_section :: "gnode \<Rightarrow> handler_data \<Rightarrow> handler_data option" where
  "handle_state_created_section = update_subelements_and_strdup s_create_time_update"

definition handle_state_mounts_section :: "gnode \<Rightarrow> handler_data \<Rightarrow> handler_data option" where
  "handle_state_mounts_section node data =
     (case gdata node of
        None \<Rightarrow> Some data
      | Some s \<Rightarrow>
          Some ((fst data)\<lparr>s_mounts := s_mounts (fst data) @
                  [mount0\<lparr>mnt_dest := buf_put PATH_MAX s, ignore_mount := False\<rparr>]\<rparr>, snd data))"

text \<open>The data of a node's first child: \<^verbatim>\<open>node->children && node->children->data\<close>.\<close>

definition child_data :: "gnode \<Rightarrow> cstring" where
  "child_data node = (case gchildren node of [] \<Rightarrow> None | c # _ \<Rightarrow> gdata c)"

definition handle_state_console_section :: "gnode \<Rightarrow> handler_data \<Rightarrow> handler_data option" where
  "handle_state_console_section node data =
     (case (gdata node, child_data node) of
        (Some name, Some v) \<Rightarrow>
          if name = ''socket'' then
            Some ((fst data)\<lparr>s_use_socket_console := (v = ''true'')\<rparr>, Suc (snd data))
          else if name = ''path'' then
            Some ((fst data)\<lparr>s_console := Some v\<rparr>, Suc (snd data))
          else Some data
      | _ \<Rightarrow> Some data)"

text \<open>\<^verbatim>\<open>g_assert (vm)\<close>\<close>

definition handle_state_vm_section :: "gnode \<Rightarrow> handler_data \<Rightarrow> handler_data option" where
  "handle_state_vm_section node data =
     (case (gdata node, child_data node) of
        (Some name, Some v) \<Rightarrow> do {
          vmc \<leftarrow> s_vm (fst data);
          let set_vm = (\<lambda>v'. ((fst data)\<lparr>s_vm := Some v'\<rparr>, Suc (snd data)));
          if name = ''workload_path'' then Some (set_vm (vmc\<lparr>workload_path := buf_put PATH_MAX v\<rparr>))
          else if name = ''hypervisor_path'' then Some (set_vm (vmc\<lparr>hypervisor_path := buf_put PATH_MAX v\<rparr>))
          else if name = ''kernel_path'' then Some (set_vm (vmc\<lparr>kernel_path := buf_put PATH_MAX v\<rparr>))
          else if name = ''image_path'' then Some (set_vm (vmc\<lparr>image_path := buf_put PATH_MAX v\<rparr>))
          else if name = ''kernel_params'' then Some (set_vm (vmc\<lparr>kernel_params := Some v\<rparr>))
          else Some data
        }
      | _ \<Rightarrow> Some data)"

definition handle_state_annotations_section :: "gnode \<Rightarrow> handler_data \<Rightarrow> handler_data option" where
  "handle_state_annotations_section node data =
     (case (gdata node, child_data node) of
        (Some key, Some v) \<Rightarrow>
          Some ((fst data)\<lparr>s_annotations := \<lparr>ann_key = key, ann_value = Some v\<rparr> # s_annotations (fst data)\<rparr>,
                snd data)
      | _ \<Rightarrow> Some data)"

text \<open>
  The table: name, handler, sub-elements needed. The counters, which the source keeps in the
  table, are a function from the section's name.
\<close>

definition state_handlers ::
  "(string \<times> (gnode \<Rightarrow> handler_data \<Rightarrow> handler_data option) \<times> nat) list" where
  "state_handlers =
    [(''ociVersion'', handle_state_ociVersion_section, 1),
     (''id'', handle_state_id_section, 1),
     (''pid'', handle_state_pid_section, 1),
     (''bundlePath'', handle_state_bundlePath_section, 1),
     (''commsPath'', handle_state_commsPath_section, 1),
     (''processPath'', handle_state_processPath_section, 1),
     (''status'', handle_state_status_section, 1),
     (''created'', handle_state_created_section, 1),
     (''mounts'', handle_state_mounts_section, 0),
     (''console'', handle_state_console_section, 2),
     (''vm'', handle_state_vm_section, 5),
     (''annotations'', handle_state_annotations_section, 0)]"

type_synonym counters = "string \<Rightarrow> nat"

fun find_handler ::
  "(string \<times> (gnode \<Rightarrow> handler_data \<Rightarrow> handler_data option) \<times> nat) list \<Rightarrow> string
   \<Rightarrow> (gnode \<Rightarrow> handler_data \<Rightarrow> handler_data option) option" where
  "find_handler [] name = None"
| "find_handler ((n, h, needed) # hs) name = (if n = name then Some h else find_handler hs name)"

definition handle_state_sections :: "gnode \<Rightarrow> oci_state \<times> counters \<Rightarrow> (oci_state \<times> counters) option" where
  "handle_state_sections node sc =
     (case gdata node of
        None \<Rightarrow> Some sc
      | Some name \<Rightarrow>
          (case find_handler state_handlers name of
             None \<Rightarrow> Some sc
           | Some h \<Rightarrow> do {
               (state, n) \<leftarrow> foreach h (gchildren node) (fst sc, snd sc name);
               Some (state, (snd sc)(name := n))
             }))"

definition handlers_satisfied :: "counters \<Rightarrow> bool" where
  "handlers_satisfied count \<longleftrightarrow>
     list_all (\<lambda>(name, h, needed). \<not> count name < needed) state_handlers"

text \<open>
  The result is \<^term>\<open>None\<close> when the process dies, else the state, or no state on failure.
\<close>

definition state_of_node :: "gnode \<Rightarrow> oci_state option option" where
  "state_of_node node = do {
     let state = oci_state0\<lparr>s_vm := Some vm_cfg0\<rparr>;
     (state, count) \<leftarrow> foreach handle_state_sections (gchildren node) (state, \<lambda>_. 0);
     if handlers_satisfied count then Some (Some state) else Some None
   }"

definition clr_oci_state_file_read :: "env \<Rightarrow> cstring \<Rightarrow> world \<Rightarrow> (oci_state option \<times> world) option" where
  "clr_oci_state_file_read E file w =
     (case file of
        None \<Rightarrow> Some (None, w)
      | Some f \<Rightarrow>
          (case clr_oci_json_parse E (Some f) w of
             (None, w) \<Rightarrow> Some (None, w)
           | (Some node, w) \<Rightarrow> do { state \<leftarrow> state_of_node node; Some (state, w) }))"

subsection \<open>Writing\<close>

definition state_document :: "clr_oci_config \<Rightarrow> string \<Rightarrow> string \<Rightarrow> string \<Rightarrow> string \<Rightarrow> clr_oci_vm_cfg \<Rightarrow> json" where
  "state_document config cid bundle st created_timestamp vmc =
     JObj ([(''ociVersion'', JString CLR_OCI_SUPPORTED_SPEC_VERSION),
       (''id'', JString cid),
       (''pid'', JInt (to_uint32 (workload_pid (cstate config)))),
       (''bundlePath'', JString bundle),
       (''commsPath'', JString (comms_path (cstate config))),
       (''processPath'', JString (procsock_path (cstate config))),
       (''status'', JString st),
       (''created'', JString created_timestamp),
       (''mounts'', clr_oci_mounts_to_json config),
       (''console'', JObj [(''socket'', JBool (use_socket_console config)),
                           (''path'', jstring (console config))]),
       (''vm'', JObj [(''hypervisor_path'', JString (hypervisor_path vmc)),
                      (''image_path'', JString (image_path vmc)),
                      (''kernel_path'', JString (kernel_path vmc)),
                      (''workload_path'', JString (workload_path vmc)),
                      (''kernel_params'', JString (case kernel_params vmc of Some p \<Rightarrow> p | None \<Rightarrow> []))])]
      @ (if annotations (oci config) = [] then []
         else [(''annotations'', clr_oci_annotations_to_json config)]))"

definition clr_oci_state_file_create ::
  "env \<Rightarrow> clr_oci_config \<Rightarrow> cstring \<Rightarrow> world \<Rightarrow> bool \<times> clr_oci_config \<times> world" where
  "clr_oci_state_file_create E config created_timestamp w =
     (case (created_timestamp, optarg_container_id config, bundle_path config, vm config) of
        (Some created, Some cid, Some bundle, Some vmc) \<Rightarrow>
          if cid = [] \<or> runtime_path (cstate config) = [] \<or> comms_path (cstate config) = []
             \<or> procsock_path (cstate config) = []
          then (False, config, w)
          else
            (case clr_oci_state_file_get config of
               (False, config) \<Rightarrow> (False, config, w)
             | (True, config) \<Rightarrow>
                 (case clr_oci_status_get config of
                    None \<Rightarrow> (False, config, w)
                  | Some st \<Rightarrow>
                      (case callB E (FileSet (state_file_path (cstate config))
                                (json_gen E True (state_document config cid bundle st created vmc))) w of
                         (ret, w) \<Rightarrow> (ret, config, w))))
      | _ \<Rightarrow> (False, config, w))"

text \<open>\<^verbatim>\<open>g_assert (config->state.state_file_path[0])\<close>\<close>

definition clr_oci_state_file_delete :: "env \<Rightarrow> clr_oci_config \<Rightarrow> world \<Rightarrow> (bool \<times> world) option" where
  "clr_oci_state_file_delete E config w =
     (if state_file_path (cstate config) = [] then None
      else (case callI E (Unlink (state_file_path (cstate config))) w of (r, w) \<Rightarrow> Some (r = 0, w)))"

subsection \<open>Status names: lemmas\<close>

interpretation status_names: enum_table oci_status_map
  by unfold_locales (simp_all add: oci_status_map_def)

lemma status_name_exists: "clr_oci_status_to_str s = None \<longleftrightarrow> s = OCI_STATUS_INVALID"
  by (cases s) (simp_all add: clr_oci_status_to_str_def oci_status_map_def)

lemma status_roundtrip_name:
  "clr_oci_status_to_str s = Some n \<Longrightarrow> clr_oci_str_to_status (Some n) = s"
  using status_names.roundtrip by (simp add: clr_oci_status_to_str_def clr_oci_str_to_status_def)

lemma status_of_name:
  "clr_oci_str_to_status str = s \<Longrightarrow> s \<noteq> OCI_STATUS_INVALID \<Longrightarrow> clr_oci_status_to_str s = str"
proof -
  assume "clr_oci_str_to_status str = s" and "s \<noteq> OCI_STATUS_INVALID"
  then have n: "num_of oci_status_map str = Some s"
    by (auto simp: clr_oci_str_to_status_def split: option.splits)
  then obtain t where "str = Some t" by (auto dest: num_of_Some_in)
  with n show "clr_oci_status_to_str s = str"
    by (simp add: clr_oci_status_to_str_def status_names.roundtrip)
qed

subsection \<open>Reading never kills the process\<close>

abbreviation vm_set :: "oci_state \<Rightarrow> bool" where
  "vm_set st \<equiv> s_vm st \<noteq> None"

lemmas handle_state_section_defs =
  handle_state_ociVersion_section_def handle_state_id_section_def handle_state_pid_section_def
  handle_state_bundlePath_section_def handle_state_commsPath_section_def
  handle_state_processPath_section_def handle_state_status_section_def
  handle_state_created_section_def handle_state_mounts_section_def
  handle_state_console_section_def handle_state_vm_section_def handle_state_annotations_section_def
  update_subelements_and_strdup_def

definition keeps_vm :: "(gnode \<Rightarrow> handler_data \<Rightarrow> handler_data option) \<Rightarrow> bool" where
  "keeps_vm h \<longleftrightarrow> (\<forall>node data. vm_set (fst data) \<longrightarrow> (\<exists>t. h node data = Some t \<and> vm_set (fst t)))"

lemma keeps_vm_strdup:
  "(\<And>f st. s_vm (upd f st) = s_vm st) \<Longrightarrow> keeps_vm (update_subelements_and_strdup upd)"
  by (simp add: keeps_vm_def update_subelements_and_strdup_def split: option.split)

lemma keeps_vm_strdup_handlers:
  "keeps_vm handle_state_ociVersion_section" "keeps_vm handle_state_id_section"
  "keeps_vm handle_state_bundlePath_section" "keeps_vm handle_state_commsPath_section"
  "keeps_vm handle_state_processPath_section" "keeps_vm handle_state_created_section"
  by (simp_all add: handle_state_ociVersion_section_def handle_state_id_section_def
    handle_state_bundlePath_section_def handle_state_commsPath_section_def
    handle_state_processPath_section_def handle_state_created_section_def keeps_vm_strdup)

lemma ex_Some_if:
  "(\<exists>t. (if b then Some x else y) = Some t \<and> P t) =
     ((b \<longrightarrow> P x) \<and> (\<not> b \<longrightarrow> (\<exists>t. y = Some t \<and> P t)))"
  by simp

lemma keeps_vm_other_handlers:
  "keeps_vm handle_state_pid_section" "keeps_vm handle_state_status_section"
  "keeps_vm handle_state_mounts_section" "keeps_vm handle_state_annotations_section"
  by (simp_all add: keeps_vm_def handle_state_pid_section_def handle_state_status_section_def
      handle_state_mounts_section_def handle_state_annotations_section_def
      split: option.split prod.split)

lemma keeps_vm_console_section: "keeps_vm handle_state_console_section"
  unfolding keeps_vm_def handle_state_console_section_def
  by (intro allI impI, simp only: split: option.split prod.split) (auto simp: ex_Some_if)

lemma keeps_vm_vm_section: "keeps_vm handle_state_vm_section"
  unfolding keeps_vm_def
proof (intro allI impI)
  fix node and data :: handler_data
  assume "vm_set (fst data)"
  then obtain vmc where "s_vm (fst data) = Some vmc" by blast
  then show "\<exists>t. handle_state_vm_section node data = Some t \<and> vm_set (fst t)"
    by (cases data; cases "gdata node"; cases "child_data node")
      (simp_all add: handle_state_vm_section_def Let_def ex_Some_if del: list.inject)
qed

lemmas keeps_vm_handlers =
  keeps_vm_strdup_handlers keeps_vm_other_handlers keeps_vm_console_section keeps_vm_vm_section

lemma section_handler_total:
  assumes "(name, h, needed) \<in> set state_handlers" and "vm_set (fst data)"
  shows "\<exists>t. h node data = Some t \<and> vm_set (fst t)"
proof -
  have "keeps_vm h"
    using assms(1) keeps_vm_handlers by (auto simp: state_handlers_def)
  with assms(2) show ?thesis unfolding keeps_vm_def by blast
qed

lemma find_handler_in: "find_handler hs name = Some h \<Longrightarrow> \<exists>needed. (name, h, needed) \<in> set hs"
  by (induction hs name rule: find_handler.induct) (auto split: if_splits)

lemma handle_state_sections_total:
  assumes "vm_set (fst sc)"
  shows "\<exists>t. handle_state_sections node sc = Some t \<and> vm_set (fst t)"
proof (cases "gdata node")
  case None
  with assms show ?thesis by (simp add: handle_state_sections_def)
next
  case (Some name)
  show ?thesis
  proof (cases "find_handler state_handlers name")
    case None
    with Some assms show ?thesis by (simp add: handle_state_sections_def)
  next
    case h: (Some h)
    then obtain needed where "(name, h, needed) \<in> set state_handlers"
      using find_handler_in by fast
    then have "\<And>x d. vm_set (fst d) \<Longrightarrow> \<exists>t. h x d = Some t \<and> vm_set (fst t)"
      by (rule section_handler_total)
    moreover have "vm_set (fst (fst sc, snd sc name))" using assms by simp
    ultimately have "\<exists>t. foreach h (gchildren node) (fst sc, snd sc name) = Some t \<and> vm_set (fst t)"
      by (rule foreach_total_inv [where I = "\<lambda>d. vm_set (fst d)", rotated])
    with Some h show ?thesis by (auto simp: handle_state_sections_def)
  qed
qed

lemma state_of_node_total: "\<exists>r. state_of_node node = Some r"
proof -
  have "\<exists>t. foreach handle_state_sections (gchildren node)
      (oci_state0\<lparr>s_vm := Some vm_cfg0\<rparr>, \<lambda>_. 0) = Some t \<and> vm_set (fst t)"
    by (rule foreach_total_inv [where I = "\<lambda>d. vm_set (fst d)"]) (simp, rule handle_state_sections_total)
  then show ?thesis by (auto simp: state_of_node_def)
qed

subsection \<open>Reading a document that the runtime wrote\<close>

definition mount_of_dest :: "string \<Rightarrow> clr_oci_mount" where
  "mount_of_dest d = mount0\<lparr>mnt_dest := buf_put PATH_MAX d\<rparr>"

lemma foreach_mounts:
  "foreach handle_state_mounts_section (map (\<lambda>s. GNode (Some s) [GNode None []]) ds) (st, n) =
     Some (st\<lparr>s_mounts := s_mounts st @ map mount_of_dest ds\<rparr>, n)"
  by (induction ds arbitrary: st)
    (simp_all add: handle_state_mounts_section_def mount_of_dest_def mount0_def)

text \<open>
  The annotations with a value, each put in front of the list.
\<close>

lemma foreach_annotations:
  "foreach handle_state_annotations_section
       (map (\<lambda>a. GNode (Some (ann_key a)) (clr_oci_json_parse_aux (jstring (ann_value a)) False)) as) (st, n) =
     Some (st\<lparr>s_annotations := rev (filter (\<lambda>a. ann_value a \<noteq> None) as) @ s_annotations st\<rparr>, n)"
proof (induction as arbitrary: st)
  case (Cons a as)
  then show ?case
    by (cases "ann_value a")
      (simp_all add: handle_state_annotations_section_def child_data_def jstring_def)
qed simp

lemma fold_set_member:
  assumes "distinct (map ann_key as)" and "set (map ann_key as) \<inter> set (map fst ms) = {}"
  shows "fold (\<lambda>a. set_member (ann_key a) (jstring (ann_value a))) as ms =
     ms @ map (\<lambda>a. (ann_key a, jstring (ann_value a))) as"
  using assms
proof (induction as arbitrary: ms)
  case (Cons a as)
  then have "set_member (ann_key a) (jstring (ann_value a)) ms = ms @ [(ann_key a, jstring (ann_value a))]"
    by (intro set_member_new) auto
  with Cons show ?case by auto
qed simp

lemma annotations_nodes:
  "distinct (map ann_key (annotations (oci config))) \<Longrightarrow>
   clr_oci_json_parse_aux (clr_oci_annotations_to_json config) b =
     GNode None [] # map (\<lambda>a. GNode (Some (ann_key a)) (clr_oci_json_parse_aux (jstring (ann_value a)) False))
       (annotations (oci config))"
  by (simp add: clr_oci_annotations_to_json_def fold_set_member parse_members_map comp_def)

text \<open>The state that a written configuration is read back as.\<close>

definition state_written :: "clr_oci_config \<Rightarrow> string \<Rightarrow> string \<Rightarrow> string \<Rightarrow> string \<Rightarrow> clr_oci_vm_cfg \<Rightarrow> oci_state" where
  "state_written config cid bundle created con vmc =
     \<lparr>s_oci_version = Some CLR_OCI_SUPPORTED_SPEC_VERSION, s_id = Some cid,
      s_pid = workload_pid (cstate config), s_bundle_path = Some bundle,
      s_comms_path = Some (comms_path (cstate config)),
      s_procsock_path = Some (procsock_path (cstate config)),
      s_status = status (cstate config), s_create_time = Some created,
      s_mounts = map mount_of_dest (recorded (mounts (oci config))),
      s_annotations = rev (filter (\<lambda>a. ann_value a \<noteq> None) (annotations (oci config))),
      s_console = Some con, s_use_socket_console = use_socket_console config,
      s_vm = Some (vmc\<lparr>kernel_params := Some (case kernel_params vmc of Some p \<Rightarrow> p | None \<Rightarrow> [])\<rparr>)\<rparr>"

text \<open>What the fixed-size buffers and the pid's 32 bits demand.\<close>

definition vm_fits :: "clr_oci_vm_cfg \<Rightarrow> bool" where
  "vm_fits vmc \<longleftrightarrow> length (hypervisor_path vmc) < PATH_MAX \<and> length (image_path vmc) < PATH_MAX
     \<and> length (kernel_path vmc) < PATH_MAX \<and> length (workload_path vmc) < PATH_MAX"

definition writable :: "clr_oci_config \<Rightarrow> bool" where
  "writable config \<longleftrightarrow> - (2 ^ 31) \<le> workload_pid (cstate config) \<and> workload_pid (cstate config) < 2 ^ 31
     \<and> distinct (map ann_key (annotations (oci config)))"

lemma to_uint32_bounds: "0 \<le> to_uint32 v" "to_uint32 v < 2 ^ 32"
  using take_bit_int_less_exp [of 32 v] by (simp_all add: to_uint32_def)

lemma to_int32_to_uint32: "- (2 ^ 31) \<le> v \<Longrightarrow> v < 2 ^ 31 \<Longrightarrow> to_int32 (to_uint32 v) = v"
  by (simp add: to_int32_def to_uint32_def signed_take_bit_take_bit signed_take_bit_int_eq_self)

lemma strtol_to_uint32: "strtol (dec_of_nat (nat (to_uint32 v))) = (to_uint32 v, True)"
  using to_uint32_bounds [of v] by (subst strtol_dec_of_nat) (auto simp: LONG_MAX_def)

text \<open>One section of the document, by its name.\<close>

lemma handle_section_node:
  "handle_state_sections (GNode None cs) sc = Some sc"
  "find_handler state_handlers name = Some h \<Longrightarrow>
   handle_state_sections (GNode (Some name) cs) (st, count) = do {
     (st', n) \<leftarrow> foreach h cs (st, count name);
     Some (st', count(name := n))
   }"
  by (simp_all add: handle_state_sections_def)

lemma find_handlers:
  "find_handler state_handlers ''ociVersion'' = Some handle_state_ociVersion_section"
  "find_handler state_handlers ''id'' = Some handle_state_id_section"
  "find_handler state_handlers ''pid'' = Some handle_state_pid_section"
  "find_handler state_handlers ''bundlePath'' = Some handle_state_bundlePath_section"
  "find_handler state_handlers ''commsPath'' = Some handle_state_commsPath_section"
  "find_handler state_handlers ''processPath'' = Some handle_state_processPath_section"
  "find_handler state_handlers ''status'' = Some handle_state_status_section"
  "find_handler state_handlers ''created'' = Some handle_state_created_section"
  "find_handler state_handlers ''mounts'' = Some handle_state_mounts_section"
  "find_handler state_handlers ''console'' = Some handle_state_console_section"
  "find_handler state_handlers ''vm'' = Some handle_state_vm_section"
  "find_handler state_handlers ''annotations'' = Some handle_state_annotations_section"
  by (simp_all add: state_handlers_def)

lemma foreach_console:
  "foreach handle_state_console_section
     (clr_oci_json_parse_aux (JObj [(''socket'', JBool b), (''path'', jstring (Some con))]) False) (st, 0) =
   Some (st\<lparr>s_use_socket_console := b, s_console := Some con\<rparr>, 2)"
  by (simp add: handle_state_console_section_def child_data_def jstring_def)

lemma foreach_vm:
  assumes "vm_fits vmc" and "s_vm st = Some vm_cfg0"
  shows "foreach handle_state_vm_section
     (clr_oci_json_parse_aux (JObj [(''hypervisor_path'', JString (hypervisor_path vmc)),
        (''image_path'', JString (image_path vmc)), (''kernel_path'', JString (kernel_path vmc)),
        (''workload_path'', JString (workload_path vmc)), (''kernel_params'', JString p)]) False) (st, 0) =
   Some (st\<lparr>s_vm := Some (vmc\<lparr>kernel_params := Some p\<rparr>)\<rparr>, 5)"
  using assms
  by (simp add: handle_state_vm_section_def child_data_def vm_fits_def vm_cfg0_def)

lemma parse_members_append: "parse_members (xs @ ys) = parse_members xs @ parse_members ys"
  by (simp add: parse_members_map)

lemma foreach_annotation_section:
  assumes "distinct (map ann_key (annotations (oci config)))" and "s_annotations st = []"
  shows "\<exists>count'. foreach handle_state_sections
     (parse_members (if annotations (oci config) = [] then []
       else [(''annotations'', clr_oci_annotations_to_json config)])) (st, count) =
     Some (st\<lparr>s_annotations := rev (filter (\<lambda>a. ann_value a \<noteq> None) (annotations (oci config)))\<rparr>, count')
     \<and> (\<forall>n. n \<noteq> ''annotations'' \<longrightarrow> count' n = count n)"
  using assms
  by (simp add: annotations_nodes handle_section_node find_handlers foreach_annotations
      handle_state_annotations_section_def del: clr_oci_json_parse_aux.simps)

lemma json_string_uint32:
  "clr_oci_json_string (JInt (to_uint32 v)) = dec_of_nat (nat (to_uint32 v))"
  by (rule clr_oci_json_string_JInt_small [OF to_uint32_bounds])

lemma scalar_sections:
  "foreach handle_state_sections (parse_members
     [(''ociVersion'', JString ver), (''id'', JString cid), (''pid'', JInt (to_uint32 pid)),
      (''bundlePath'', JString bundle), (''commsPath'', JString comms), (''processPath'', JString procs),
      (''status'', JString st), (''created'', JString created)])
     (oci_state0\<lparr>s_vm := Some vm_cfg0\<rparr>, \<lambda>_. 0) =
   Some (oci_state0\<lparr>s_oci_version := Some ver, s_id := Some cid, s_pid := to_int32 (to_uint32 pid),
      s_bundle_path := Some bundle, s_comms_path := Some comms, s_procsock_path := Some procs,
      s_status := clr_oci_str_to_status (Some st), s_create_time := Some created,
      s_vm := Some vm_cfg0\<rparr>,
     (\<lambda>_. 0)(''ociVersion'' := 1, ''id'' := 1, ''pid'' := 1, ''bundlePath'' := 1, ''commsPath'' := 1,
       ''processPath'' := 1, ''status'' := 1, ''created'' := 1))"
  by (simp add: handle_section_node find_handlers handle_state_section_defs strtol_to_uint32
      json_string_uint32 oci_state0_def)


lemma structured_sections:
  assumes "vm_fits vmc" and "s_vm st = Some vm_cfg0" and "s_mounts st = []"
    and "count ''console'' = 0" and "count ''vm'' = 0" and "count ''mounts'' = 0"
  shows "foreach handle_state_sections (parse_members
     [(''mounts'', JArr (map JString ds)),
      (''console'', JObj [(''socket'', JBool b), (''path'', jstring (Some con))]),
      (''vm'', JObj [(''hypervisor_path'', JString (hypervisor_path vmc)),
        (''image_path'', JString (image_path vmc)), (''kernel_path'', JString (kernel_path vmc)),
        (''workload_path'', JString (workload_path vmc)), (''kernel_params'', JString p)])]) (st, count) =
   Some (st\<lparr>s_mounts := map mount_of_dest ds, s_use_socket_console := b, s_console := Some con,
     s_vm := Some (vmc\<lparr>kernel_params := Some p\<rparr>)\<rparr>,
     count(''mounts'' := 0, ''console'' := 2, ''vm'' := 5))"
  using assms foreach_vm [OF assms(1), of "st\<lparr>s_mounts := map mount_of_dest ds,
      s_use_socket_console := b, s_console := Some con\<rparr>" p]
  by (simp add: handle_section_node find_handlers foreach_mounts foreach_console parse_string_array
      del: clr_oci_json_parse_aux.simps)

lemma handlers_satisfied_counts:
  assumes "\<And>n. n \<noteq> ''annotations'' \<Longrightarrow> count' n = count n"
    and "handlers_satisfied count"
  shows "handlers_satisfied count'"
  using assms by (simp add: handlers_satisfied_def state_handlers_def)

definition all_counts :: counters where
  "all_counts = (\<lambda>_. 0)(''ociVersion'' := 1, ''id'' := 1, ''pid'' := 1, ''bundlePath'' := 1,
     ''commsPath'' := 1, ''processPath'' := 1, ''status'' := 1, ''created'' := 1,
     ''mounts'' := 0, ''console'' := 2, ''vm'' := 5)"

lemma all_counts_satisfied: "handlers_satisfied all_counts"
  by (simp add: handlers_satisfied_def state_handlers_def all_counts_def)

text \<open>The node tree of the document that is written is read as the state that was written.\<close>

lemma state_of_document:
  assumes st: "clr_oci_status_to_str (status (cstate config)) = Some st"
    and con: "console config = Some con" and fits: "vm_fits vmc" and wr: "writable config"
  shows "state_of_node (GNode f (clr_oci_json_parse_aux (state_document config cid bundle st created vmc) b)) =
     Some (Some (state_written config cid bundle created con vmc))"
proof -
  let ?p = "case kernel_params vmc of Some p \<Rightarrow> p | None \<Rightarrow> []"
  let ?ds = "recorded (mounts (oci config))"
  let ?st1 = "oci_state0\<lparr>s_oci_version := Some CLR_OCI_SUPPORTED_SPEC_VERSION, s_id := Some cid,
      s_pid := workload_pid (cstate config), s_bundle_path := Some bundle,
      s_comms_path := Some (comms_path (cstate config)),
      s_procsock_path := Some (procsock_path (cstate config)), s_status := status (cstate config),
      s_create_time := Some created, s_vm := Some vm_cfg0\<rparr>"
  let ?st2 = "?st1\<lparr>s_mounts := map mount_of_dest ?ds, s_use_socket_console := use_socket_console config,
      s_console := Some con, s_vm := Some (vmc\<lparr>kernel_params := Some ?p\<rparr>)\<rparr>"
  let ?anns = "parse_members (if annotations (oci config) = [] then []
       else [(''annotations'', clr_oci_annotations_to_json config)])"
  have pid: "to_int32 (to_uint32 (workload_pid (cstate config))) = workload_pid (cstate config)"
    using wr by (simp add: writable_def to_int32_to_uint32)
  have anns: "s_annotations ?st2 = []" by (simp add: oci_state0_def)
  have dist: "distinct (map ann_key (annotations (oci config)))" using wr by (simp add: writable_def)
  obtain count' where a: "foreach handle_state_sections ?anns (?st2, all_counts) =
      Some (?st2\<lparr>s_annotations := rev (filter (\<lambda>a. ann_value a \<noteq> None) (annotations (oci config)))\<rparr>, count')"
    and c: "\<And>n. n \<noteq> ''annotations'' \<Longrightarrow> count' n = all_counts n"
    using foreach_annotation_section [OF dist anns, of all_counts] by blast
  have scal: "foreach handle_state_sections (parse_members
     [(''ociVersion'', JString CLR_OCI_SUPPORTED_SPEC_VERSION), (''id'', JString cid),
      (''pid'', JInt (to_uint32 (workload_pid (cstate config)))),
      (''bundlePath'', JString bundle), (''commsPath'', JString (comms_path (cstate config))),
      (''processPath'', JString (procsock_path (cstate config))),
      (''status'', JString st), (''created'', JString created)])
     (oci_state0\<lparr>s_vm := Some vm_cfg0\<rparr>, \<lambda>_. 0) =
    Some (?st1, (\<lambda>_. 0)(''ociVersion'' := 1, ''id'' := 1, ''pid'' := 1, ''bundlePath'' := 1, ''commsPath'' := 1,
       ''processPath'' := 1, ''status'' := 1, ''created'' := 1))"
    unfolding scalar_sections pid status_roundtrip_name [OF st] ..
  have str: "foreach handle_state_sections (parse_members
     [(''mounts'', JArr (map JString ?ds)),
      (''console'', JObj [(''socket'', JBool (use_socket_console config)), (''path'', jstring (Some con))]),
      (''vm'', JObj [(''hypervisor_path'', JString (hypervisor_path vmc)),
        (''image_path'', JString (image_path vmc)), (''kernel_path'', JString (kernel_path vmc)),
        (''workload_path'', JString (workload_path vmc)), (''kernel_params'', JString ?p)])])
      (?st1, (\<lambda>_. 0)(''ociVersion'' := 1, ''id'' := 1, ''pid'' := 1, ''bundlePath'' := 1, ''commsPath'' := 1,
       ''processPath'' := 1, ''status'' := 1, ''created'' := 1)) = Some (?st2, all_counts)"
    unfolding all_counts_def
    by (rule structured_sections [OF fits]) (simp_all add: oci_state0_def)
  have doc: "clr_oci_json_parse_aux (state_document config cid bundle st created vmc) b =
     GNode None [] # (parse_members
     [(''ociVersion'', JString CLR_OCI_SUPPORTED_SPEC_VERSION), (''id'', JString cid),
      (''pid'', JInt (to_uint32 (workload_pid (cstate config)))),
      (''bundlePath'', JString bundle), (''commsPath'', JString (comms_path (cstate config))),
      (''processPath'', JString (procsock_path (cstate config))),
      (''status'', JString st), (''created'', JString created)] @ parse_members
     [(''mounts'', JArr (map JString ?ds)),
      (''console'', JObj [(''socket'', JBool (use_socket_console config)), (''path'', jstring (Some con))]),
      (''vm'', JObj [(''hypervisor_path'', JString (hypervisor_path vmc)),
        (''image_path'', JString (image_path vmc)), (''kernel_path'', JString (kernel_path vmc)),
        (''workload_path'', JString (workload_path vmc)), (''kernel_params'', JString ?p)])] @ ?anns)"
    by (simp only: state_document_def clr_oci_json_parse_aux.simps parse_members_append [symmetric]
        mounts_to_json_recorded con append.simps)
  have "handlers_satisfied count'" by (rule handlers_satisfied_counts [OF c all_counts_satisfied])
  moreover have "?st2\<lparr>s_annotations := rev (filter (\<lambda>a. ann_value a \<noteq> None) (annotations (oci config)))\<rparr> =
      state_written config cid bundle created con vmc"
    by (simp add: oci_state0_def state_written_def)
  moreover have "foreach handle_state_sections
      (clr_oci_json_parse_aux (state_document config cid bundle st created vmc) b)
      (oci_state0\<lparr>s_vm := Some vm_cfg0\<rparr>, \<lambda>_. 0) =
    Some (?st2\<lparr>s_annotations := rev (filter (\<lambda>a. ann_value a \<noteq> None) (annotations (oci config)))\<rparr>, count')"
    unfolding doc
    by (simp only: foreach.simps(2) handle_section_node(1) foreach_append Option.bind.simps scal str a)
  ultimately show ?thesis by (simp add: state_of_node_def del: not_None_eq)
qed


subsection \<open>A state that is read is complete\<close>

text \<open>The member that a mandatory string section fills.\<close>

definition member_set :: "string \<Rightarrow> oci_state \<Rightarrow> bool" where
  "member_set name st =
     (if name = ''ociVersion'' then s_oci_version st \<noteq> None
      else if name = ''id'' then s_id st \<noteq> None
      else if name = ''bundlePath'' then s_bundle_path st \<noteq> None
      else if name = ''commsPath'' then s_comms_path st \<noteq> None
      else if name = ''processPath'' then s_procsock_path st \<noteq> None
      else if name = ''created'' then s_create_time st \<noteq> None
      else True)"

definition mandatory_strings :: "string list" where
  "mandatory_strings = [''ociVersion'', ''id'', ''bundlePath'', ''commsPath'', ''processPath'', ''created'']"

text \<open>What a handler of the section \<open>name\<close> does to the members.\<close>

definition fills :: "string \<Rightarrow> (gnode \<Rightarrow> handler_data \<Rightarrow> handler_data option) \<Rightarrow> bool" where
  "fills name h \<longleftrightarrow> (\<forall>node st k st' k'. h node (st, k) = Some (st', k') \<longrightarrow>
     (\<forall>n. member_set n st \<longrightarrow> member_set n st') \<and> (k' \<noteq> k \<longrightarrow> member_set name st'))"

lemma member_set_other [simp]:
  "member_set n (st\<lparr>s_pid := a\<rparr>) = member_set n st"
  "member_set n (st\<lparr>s_status := b\<rparr>) = member_set n st"
  "member_set n (st\<lparr>s_mounts := c\<rparr>) = member_set n st"
  "member_set n (st\<lparr>s_annotations := d\<rparr>) = member_set n st"
  "member_set n (st\<lparr>s_console := e\<rparr>) = member_set n st"
  "member_set n (st\<lparr>s_use_socket_console := f\<rparr>) = member_set n st"
  "member_set n (st\<lparr>s_vm := g\<rparr>) = member_set n st"
  by (simp_all add: member_set_def)

lemma fills_strdup:
  assumes "\<And>n v st. member_set n st \<Longrightarrow> member_set n (upd (\<lambda>_. Some v) st)"
    and "\<And>v st. member_set name (upd (\<lambda>_. Some v) st)"
  shows "fills name (update_subelements_and_strdup upd)"
  using assms by (auto simp: fills_def update_subelements_and_strdup_def split: option.splits)

lemma fills_strdup_handlers:
  "fills ''ociVersion'' handle_state_ociVersion_section" "fills ''id'' handle_state_id_section"
  "fills ''bundlePath'' handle_state_bundlePath_section"
  "fills ''commsPath'' handle_state_commsPath_section"
  "fills ''processPath'' handle_state_processPath_section"
  "fills ''created'' handle_state_created_section"
  unfolding handle_state_ociVersion_section_def handle_state_id_section_def
    handle_state_bundlePath_section_def handle_state_commsPath_section_def
    handle_state_processPath_section_def handle_state_created_section_def
  by (rule fills_strdup; simp add: member_set_def)+

text \<open>The other handlers leave these members alone.\<close>

lemma fills_other:
  assumes "\<And>node st k st' k' n. h node (st, k) = Some (st', k') \<Longrightarrow> member_set n st' = member_set n st"
    and "name \<notin> set mandatory_strings"
  shows "fills name h"
proof -
  have "member_set name st" for st
    using assms(2) by (simp add: member_set_def mandatory_strings_def)
  with assms(1) show ?thesis unfolding fills_def by blast
qed

lemma Some_if_cases: "(if b then Some x else y) = Some t \<Longrightarrow> (b \<Longrightarrow> x = t \<Longrightarrow> Q) \<Longrightarrow> (\<not> b \<Longrightarrow> y = Some t \<Longrightarrow> Q) \<Longrightarrow> Q"
  by (simp split: if_splits)

lemma fills_other_handlers:
  "fills ''pid'' handle_state_pid_section" "fills ''status'' handle_state_status_section"
  "fills ''mounts'' handle_state_mounts_section" "fills ''annotations'' handle_state_annotations_section"
  by (rule fills_other;
      auto simp: mandatory_strings_def handle_state_pid_section_def handle_state_status_section_def
        handle_state_mounts_section_def handle_state_annotations_section_def
        split: option.splits prod.splits)+

lemma fills_console_section: "fills ''console'' handle_state_console_section"
  by (rule fills_other)
    (auto simp: mandatory_strings_def handle_state_console_section_def
      split: option.splits if_splits)

lemma all_Some_if:
  "(\<forall>t. (if b then Some x else y) = Some t \<longrightarrow> P t) =
     ((b \<longrightarrow> P x) \<and> (\<not> b \<longrightarrow> (\<forall>t. y = Some t \<longrightarrow> P t)))"
  by simp

lemma vm_section_members:
  "\<forall>t. handle_state_vm_section node data = Some t \<longrightarrow> member_set n (fst t) = member_set n (fst data)"
  by (cases data; cases "gdata node"; cases "child_data node"; cases "s_vm (fst data)")
    (simp_all add: handle_state_vm_section_def Let_def all_Some_if del: list.inject)

lemma fills_vm_section: "fills ''vm'' handle_state_vm_section"
  by (rule fills_other) (use vm_section_members in \<open>fastforce simp: mandatory_strings_def\<close>)+

lemma fills_handlers:
  "find_handler state_handlers name = Some h \<Longrightarrow> fills name h"
  using fills_strdup_handlers fills_other_handlers fills_console_section fills_vm_section
  by (auto simp: state_handlers_def elim!: Some_if_cases)

definition complete_inv :: "oci_state \<times> counters \<Rightarrow> bool" where
  "complete_inv sc \<longleftrightarrow> (\<forall>n. 0 < snd sc n \<longrightarrow> member_set n (fst sc))"

lemma handle_state_sections_complete:
  assumes "handle_state_sections node sc = Some sc'" and inv: "complete_inv sc"
  shows "complete_inv sc'"
proof (cases "gdata node = None \<or> find_handler state_handlers (the (gdata node)) = None")
  case True
  with assms show ?thesis by (auto simp: handle_state_sections_def split: option.splits)
next
  case False
  then obtain name h where name: "gdata node = Some name" and h: "find_handler state_handlers name = Some h"
    by auto
  with assms obtain st k where run: "foreach h (gchildren node) (fst sc, snd sc name) = Some (st, k)"
    and sc': "sc' = (st, (snd sc)(name := k))"
    by (auto simp: handle_state_sections_def bind_eq_Some_conv)
  have "fills name h" by (rule fills_handlers [OF h])
  let ?I = "\<lambda>(st', k'). (\<forall>n. member_set n (fst sc) \<longrightarrow> member_set n st')
    \<and> (0 < k' \<longrightarrow> member_set name st')"
  have "?I (st, k)"
  proof (rule foreach_invariant [where I = ?I, OF run])
    show "?I (fst sc, snd sc name)" using inv by (simp add: complete_inv_def)
  next
    fix x s t
    assume "h x s = Some t" "?I s"
    with \<open>fills name h\<close> show "?I t"
      unfolding fills_def by (cases s; cases t) (simp, metis)
  qed
  then show ?thesis using inv by (auto simp: complete_inv_def sc')
qed

lemma state_of_node_complete:
  assumes "state_of_node node = Some (Some st)"
  shows "\<forall>n \<in> set mandatory_strings. member_set n st" and "vm_set st"
proof -
  from assms obtain count where run: "foreach handle_state_sections (gchildren node)
      (oci_state0\<lparr>s_vm := Some vm_cfg0\<rparr>, \<lambda>_. 0) = Some (st, count)" and sat: "handlers_satisfied count"
    by (auto simp: state_of_node_def bind_eq_Some_conv split: if_splits)
  have "complete_inv (st, count)"
    by (rule foreach_invariant [where I = complete_inv, OF run])
      (auto simp: complete_inv_def intro: handle_state_sections_complete [unfolded complete_inv_def, rule_format])
  moreover have "\<forall>n \<in> set mandatory_strings. 0 < count n"
    using sat by (simp add: handlers_satisfied_def state_handlers_def mandatory_strings_def)
  ultimately show "\<forall>n \<in> set mandatory_strings. member_set n st" by (simp add: complete_inv_def)
  have "vm_set (fst (st, count))"
    by (rule foreach_invariant [where I = "\<lambda>sc. vm_set (fst sc)", OF run])
      (use handle_state_sections_total in \<open>simp, metis option.inject\<close>)
  then show "vm_set st" by simp
qed


subsection \<open>Creating the file\<close>

text \<open>What a successful creation wrote, and where.\<close>

lemma state_file_create_True:
  assumes "clr_oci_state_file_create E config created w = (True, config', w')"
  shows "\<exists>ts cid bundle vmc st. created = Some ts \<and> optarg_container_id config = Some cid
    \<and> bundle_path config = Some bundle \<and> vm config = Some vmc
    \<and> clr_oci_status_to_str (status (cstate config)) = Some st
    \<and> config' = config\<lparr>cstate := (cstate config)\<lparr>state_file_path :=
         buf_path (runtime_path (cstate config)) CLR_OCI_STATE_FILE\<rparr>\<rparr>
    \<and> w' = (FileSet (state_file_path (cstate config'))
           (json_gen E True (state_document config' cid bundle st ts vmc)), RBool True) # w"
  using assms
  by (auto simp: clr_oci_state_file_create_def clr_oci_state_file_get_def clr_oci_status_get_def callB_def
      split: option.splits if_splits)

lemma state_document_path [simp]:
  "state_document (config\<lparr>cstate := (cstate config)\<lparr>state_file_path := p\<rparr>\<rparr>) = state_document config"
  by (simp add: state_document_def clr_oci_mounts_to_json_def clr_oci_annotations_to_json_def fun_eq_iff)

lemma buf_path_nonempty [simp]: "buf_path d f \<noteq> []"
  by (cases d) (simp_all add: buf_path_def buf_put_def PATH_MAX_def)

lemma json_parse_text:
  "clr_oci_json_parse E (Some f) w = (if f = [] then (None, w) else
     (case sys_str E w (FileGet f) of
        None \<Rightarrow> (None, (FileGet f, RStr None) # w)
      | Some text \<Rightarrow> (case json_parse E text of
           None \<Rightarrow> (None, (FileGet f, RStr (Some text)) # w)
         | Some root \<Rightarrow> (Some (GNode (Some f) (clr_oci_json_parse_aux root False)),
              (FileGet f, RStr (Some text)) # w))))"
  by (simp add: clr_oci_json_parse_def callS_def split: option.split)

subsection \<open>Properties\<close>

text \<open>
  C8. A state file that was created is read back, on a disk that returns what was written and
  with a JSON reader that inverts the writer on this document, as the state of the
  configuration: identifiers, paths, status, creation time, process id, console and VM as they
  were, the mount points that are not ignored, and the annotations that have a value in
  reverse order.
\<close>

theorem state_file_roundtrip:
  assumes create: "clr_oci_state_file_create E config (Some created) w = (True, config', w')"
    and disk: "reads_back E d (state_file_path (cstate config'))"
    and codec: "\<And>st. clr_oci_status_get config = Some st \<Longrightarrow>
       json_parse E (json_gen E True (state_document config cid bundle st created vmc))
         = Some (state_document config cid bundle st created vmc)"
    and ids: "optarg_container_id config = Some cid" "bundle_path config = Some bundle"
      "vm config = Some vmc" "console config = Some con"
    and fits: "vm_fits vmc" and wr: "writable config"
  shows "\<exists>w''. clr_oci_state_file_read E (Some (state_file_path (cstate config'))) w' =
     Some (Some (state_written config cid bundle created con vmc), w'')"
proof -
  from state_file_create_True [OF create] ids obtain st
    where st: "clr_oci_status_to_str (status (cstate config)) = Some st"
      and c': "config' = config\<lparr>cstate := (cstate config)\<lparr>state_file_path :=
         buf_path (runtime_path (cstate config)) CLR_OCI_STATE_FILE\<rparr>\<rparr>"
      and w': "w' = (FileSet (state_file_path (cstate config'))
           (json_gen E True (state_document config' cid bundle st created vmc)), RBool True) # w"
    by auto
  have "sys_str E w' (FileGet (state_file_path (cstate config'))) =
      Some (json_gen E True (state_document config cid bundle st created vmc))"
    using disk by (simp add: reads_back_def w' c')
  moreover have "state_file_path (cstate config') \<noteq> []" by (simp add: c')
  ultimately show ?thesis
    using codec [of st] st state_of_document [OF st ids(4) fits wr]
    by (simp add: clr_oci_state_file_read_def json_parse_text clr_oci_status_get_def)
qed

definition stopping_config :: clr_oci_config where
  "stopping_config = config0\<lparr>optarg_container_id := Some ''c1'', bundle_path := Some ''/b'',
     console := Some ''/b/console.sock'', use_socket_console := True, vm := Some vm_cfg0,
     cstate := container_state0\<lparr>runtime_path := ''/run/c1'', comms_path := ''/run/c1/h'',
       procsock_path := ''/run/c1/p'', workload_pid := 42, status := OCI_STATUS_STOPPING\<rparr>\<rparr>"

definition stopping_document :: json where
  "stopping_document = state_document stopping_config ''c1'' ''/b'' ''stopping'' ''now'' vm_cfg0"

definition one_file_env :: "json \<Rightarrow> env" where
  "one_file_env doc = env0\<lparr>
     sys_str := \<lambda>w c. (case c of FileGet p \<Rightarrow> file_view (\<lambda>_. None) w p | _ \<Rightarrow> None),
     json_parse := \<lambda>s. Some doc, json_gen := \<lambda>p j. ''{}''\<rparr>"

lemma stopping_status: "clr_oci_status_get stopping_config = Some ''stopping''"
  by (simp add: stopping_config_def zeroed clr_oci_status_get_def clr_oci_status_to_str_def oci_status_map_def)

lemma stopping_create:
  "\<exists>c w. clr_oci_state_file_create (one_file_env doc) stopping_config (Some ''now'') [] = (True, c, w)"
  using stopping_status
  by (simp add: clr_oci_state_file_create_def clr_oci_state_file_get_def clr_oci_status_get_def
      stopping_config_def zeroed callB_def one_file_env_def env0_def)

theorem state_file_roundtrip_witness:
  "\<exists>c w w'. clr_oci_state_file_create (one_file_env stopping_document) stopping_config (Some ''now'') [] = (True, c, w)
     \<and> clr_oci_state_file_read (one_file_env stopping_document) (Some (state_file_path (cstate c))) w =
       Some (Some (state_written stopping_config ''c1'' ''/b'' ''now'' ''/b/console.sock'' vm_cfg0), w')"
proof -
  obtain c w where run: "clr_oci_state_file_create (one_file_env stopping_document) stopping_config
      (Some ''now'') [] = (True, c, w)" using stopping_create by blast
  have "\<exists>w'. clr_oci_state_file_read (one_file_env stopping_document) (Some (state_file_path (cstate c))) w =
       Some (Some (state_written stopping_config ''c1'' ''/b'' ''now'' ''/b/console.sock'' vm_cfg0), w')"
  proof (rule state_file_roundtrip [OF run])
    show "reads_back (one_file_env stopping_document) (\<lambda>_. None) (state_file_path (cstate c))"
      by (simp add: reads_back_def one_file_env_def env0_def)
    show "json_parse (one_file_env stopping_document) (json_gen (one_file_env stopping_document) True
        (state_document stopping_config ''c1'' ''/b'' st ''now'' vm_cfg0)) =
        Some (state_document stopping_config ''c1'' ''/b'' st ''now'' vm_cfg0)"
      if "clr_oci_status_get stopping_config = Some st" for st
      using that stopping_status by (simp add: one_file_env_def env0_def stopping_document_def)
  qed (simp_all add: stopping_config_def zeroed vm_fits_def writable_def PATH_MAX_def)
  with run show ?thesis by blast
qed

text \<open>
  C22. No document, however malformed, kills the process that reads it as a state file.
\<close>

theorem state_file_read_never_aborts: "clr_oci_state_file_read E file w \<noteq> None"
proof -
  obtain r where "\<And>node. state_of_node node = Some (r node)" using state_of_node_total by metis
  then show ?thesis
    by (simp add: clr_oci_state_file_read_def split: option.split prod.split)
qed

text \<open>
  C23. A state is read only from a document that gave every mandatory member: the version, the
  container's identifier, its bundle, the two socket paths and the creation time are not NULL,
  and there is a VM.
\<close>

theorem state_read_is_complete:
  assumes "clr_oci_state_file_read E file w = Some (Some st, w')"
  shows "s_oci_version st \<noteq> None \<and> s_id st \<noteq> None \<and> s_bundle_path st \<noteq> None
     \<and> s_comms_path st \<noteq> None \<and> s_procsock_path st \<noteq> None \<and> s_create_time st \<noteq> None
     \<and> s_vm st \<noteq> None"
proof -
  from assms obtain node where n: "state_of_node node = Some (Some st)"
    by (auto simp: clr_oci_state_file_read_def bind_eq_Some_conv split: option.splits prod.splits)
  have m: "member_set m st" if "m \<in> set mandatory_strings" for m
    using state_of_node_complete(1) [OF n] that by blast
  show ?thesis
    using m [of "''ociVersion''"] m [of "''id''"] m [of "''bundlePath''"] m [of "''commsPath''"]
      m [of "''processPath''"] m [of "''created''"] state_of_node_complete(2) [OF n]
    by (simp add: mandatory_strings_def member_set_def)
qed

lemma stopping_read:
  "\<exists>w. clr_oci_state_file_read (one_file_env stopping_document) (Some ''f'')
       [(FileSet ''f'' ''{}'', RBool True)] =
     Some (Some (state_written stopping_config ''c1'' ''/b'' ''now'' ''/b/console.sock'' vm_cfg0), w)"
proof -
  have "state_of_node (GNode (Some ''f'') (clr_oci_json_parse_aux stopping_document False)) =
     Some (Some (state_written stopping_config ''c1'' ''/b'' ''now'' ''/b/console.sock'' vm_cfg0))"
    unfolding stopping_document_def
    by (rule state_of_document)
      (simp_all add: stopping_config_def zeroed vm_fits_def writable_def PATH_MAX_def
        clr_oci_status_to_str_def oci_status_map_def)
  then show ?thesis
    by (simp add: clr_oci_state_file_read_def json_parse_text one_file_env_def env0_def)
qed

theorem state_read_is_complete_witness:
  "\<exists>st w. clr_oci_state_file_read (one_file_env stopping_document) (Some ''f'')
       [(FileSet ''f'' ''{}'', RBool True)] = Some (Some st, w) \<and> s_id st \<noteq> None \<and> s_vm st \<noteq> None"
  using stopping_read state_read_is_complete by metis

text \<open>
  The five states a container can be in have names that parse back to them; any other
  string, and NULL, parses to the invalid state, which has no name. No name is longer than
  the column that "list" reserves.
\<close>

theorem status_roundtrip:
  "(clr_oci_status_to_str s = None \<longleftrightarrow> s = OCI_STATUS_INVALID)
   \<and> (s \<noteq> OCI_STATUS_INVALID \<longrightarrow> clr_oci_str_to_status (clr_oci_status_to_str s) = s)
   \<and> (clr_oci_str_to_status str \<noteq> OCI_STATUS_INVALID \<longrightarrow>
        clr_oci_status_to_str (clr_oci_str_to_status str) = str)
   \<and> length (fmt_s (clr_oci_status_to_str s)) \<le> clr_oci_status_length"
proof (intro conjI impI)
  show "clr_oci_status_to_str s = None \<longleftrightarrow> s = OCI_STATUS_INVALID" by (rule status_name_exists)
  show "clr_oci_str_to_status (clr_oci_status_to_str s) = s" if "s \<noteq> OCI_STATUS_INVALID"
    using that status_name_exists [of s] status_roundtrip_name [of s] by fastforce
  show "clr_oci_status_to_str (clr_oci_str_to_status str) = str"
    if "clr_oci_str_to_status str \<noteq> OCI_STATUS_INVALID"
    using that status_of_name by blast
  show "length (fmt_s (clr_oci_status_to_str s)) \<le> clr_oci_status_length"
    by (cases s)
      (simp_all add: clr_oci_status_to_str_def oci_status_map_def clr_oci_status_length_def fmt_s_def
        g_utf8_strlen_def LINE_MAX_def)
qed

theorem status_roundtrip_witness:
  "clr_oci_str_to_status (clr_oci_status_to_str OCI_STATUS_PAUSED) = OCI_STATUS_PAUSED
   \<and> clr_oci_status_to_str (clr_oci_str_to_status (Some ''stopped'')) = Some ''stopped''"
proof -
  have "clr_oci_str_to_status (Some ''stopped'') \<noteq> OCI_STATUS_INVALID"
    by (simp add: clr_oci_str_to_status_def oci_status_map_def)
  then show ?thesis using status_roundtrip [of OCI_STATUS_PAUSED "Some ''stopped''"] by simp
qed

end
