(* ===== verification/Namespace.thy ===== *)
theory Namespace
  imports Util
begin

text \<open>
  \<^verbatim>\<open>src/namespace.c\<close>: the names of the Linux namespaces and the setup of the namespaces
  of a container in the child that will become the hypervisor. Only the network namespace is
  joined or created.
\<close>

definition oci_ns_map :: "oci_namespace clr_oci_map" where
  "oci_ns_map =
    [(OCI_NS_CGROUP, ''cgroup''), (OCI_NS_IPC, ''ipc''), (OCI_NS_MOUNT, ''mount''),
     (OCI_NS_NET, ''network''), (OCI_NS_PID, ''pid''), (OCI_NS_USER, ''user''),
     (OCI_NS_UTS, ''uts'')]"

definition clr_oci_ns_to_str :: "oci_namespace \<Rightarrow> cstring" where
  "clr_oci_ns_to_str ns = name_of oci_ns_map ns"

definition clr_oci_str_to_ns :: "cstring \<Rightarrow> oci_namespace" where
  "clr_oci_str_to_ns str =
     (if str = None \<or> str = Some [] then OCI_NS_INVALID
      else (case num_of oci_ns_map str of None \<Rightarrow> OCI_NS_INVALID | Some n \<Rightarrow> n))"

fun ns_setup_loop :: "env \<Rightarrow> oci_cfg_namespace list \<Rightarrow> world \<Rightarrow> bool \<times> world" where
  "ns_setup_loop E [] w = (True, w)"
| "ns_setup_loop E (ns # l) w =
     (if ns_type ns = OCI_NS_INVALID then ns_setup_loop E l w
      else if ns_type ns \<noteq> OCI_NS_NET then ns_setup_loop E l w
      else (case ns_path ns of
              Some path \<Rightarrow>
                (case callI E (OpenRead path) w of (fd, w) \<Rightarrow>
                   if fd < 0 then (False, w)
                   else (case callI E (SetNs fd (oci_namespace_value (ns_type ns))) w of (r, w) \<Rightarrow>
                           if r < 0 then (False, snd (callI E (Close fd) w))
                           else ns_setup_loop E l (snd (callI E (Close fd) w))))
            | None \<Rightarrow>
                (case callI E (Unshare (oci_namespace_value (ns_type ns))) w of (r, w) \<Rightarrow>
                   if r < 0 then (False, w) else ns_setup_loop E l w)))"

definition clr_oci_ns_setup :: "env \<Rightarrow> clr_oci_config \<Rightarrow> world \<Rightarrow> bool \<times> world" where
  "clr_oci_ns_setup E config w =
     (if namespaces (oci config) = [] then (True, w)
      else ns_setup_loop E (namespaces (oci config)) w)"

subsection \<open>Names\<close>

interpretation ns_names: enum_table oci_ns_map
  by unfold_locales (simp_all add: oci_ns_map_def)

lemma ns_name_exists: "clr_oci_ns_to_str ns = None \<longleftrightarrow> ns = OCI_NS_INVALID"
  by (cases ns) (simp_all add: clr_oci_ns_to_str_def oci_ns_map_def)

lemma oci_ns_map_nonempty: "(n, s) \<in> set oci_ns_map \<Longrightarrow> s \<noteq> [] \<and> n \<noteq> OCI_NS_INVALID"
  by (auto simp: oci_ns_map_def)

text \<open>
  Every namespace but the invalid one has a name that parses back to it, and a string
  parses to a valid namespace only if it is that namespace's name.
\<close>

theorem ns_roundtrip:
  "(ns \<noteq> OCI_NS_INVALID \<longrightarrow> clr_oci_str_to_ns (clr_oci_ns_to_str ns) = ns)
   \<and> (clr_oci_str_to_ns str \<noteq> OCI_NS_INVALID \<longrightarrow>
        clr_oci_ns_to_str (clr_oci_str_to_ns str) = str)"
proof (intro conjI impI)
  assume "ns \<noteq> OCI_NS_INVALID"
  then obtain s where s: "clr_oci_ns_to_str ns = Some s"
    using ns_name_exists [of ns] by auto
  then have "num_of oci_ns_map (Some s) = Some ns"
    using ns_names.roundtrip by (simp add: clr_oci_ns_to_str_def)
  moreover have "s \<noteq> []"
    using name_of_Some_in [OF s [unfolded clr_oci_ns_to_str_def]] oci_ns_map_nonempty by blast
  ultimately show "clr_oci_str_to_ns (clr_oci_ns_to_str ns) = ns"
    by (simp add: s clr_oci_str_to_ns_def)
next
  assume "clr_oci_str_to_ns str \<noteq> OCI_NS_INVALID"
  then obtain s n where "str = Some s" "num_of oci_ns_map (Some s) = Some n"
    by (cases str) (auto simp: clr_oci_str_to_ns_def split: if_splits option.splits)
  moreover from this have "clr_oci_str_to_ns str = n"
    by (auto simp: clr_oci_str_to_ns_def dest: num_of_Some_in oci_ns_map_nonempty)
  ultimately show "clr_oci_ns_to_str (clr_oci_str_to_ns str) = str"
    using ns_names.roundtrip by (simp add: clr_oci_ns_to_str_def)
qed

theorem ns_roundtrip_witness:
  "clr_oci_str_to_ns (clr_oci_ns_to_str OCI_NS_NET) = OCI_NS_NET
   \<and> clr_oci_ns_to_str (clr_oci_str_to_ns (Some ''uts'')) = Some ''uts''"
proof -
  have "clr_oci_str_to_ns (Some ''uts'') \<noteq> OCI_NS_INVALID"
    by (simp add: clr_oci_str_to_ns_def oci_ns_map_def)
  then show ?thesis
    using ns_roundtrip [of OCI_NS_NET "Some ''uts''"] by simp
qed

subsection \<open>Setup\<close>

text \<open>The descriptors a history opened and the ones it closed, newest first.\<close>

fun opened_fds :: "world \<Rightarrow> int list" where
  "opened_fds [] = []"
| "opened_fds (x # w) =
     (case x of (OpenRead p, RInt fd) \<Rightarrow> (if fd < 0 then [] else [fd]) | _ \<Rightarrow> []) @ opened_fds w"

fun closed_fds :: "world \<Rightarrow> int list" where
  "closed_fds [] = []"
| "closed_fds (x # w) = (case x of (Close fd, r) \<Rightarrow> [fd] | _ \<Rightarrow> []) @ closed_fds w"

lemma ns_setup_loop_closes:
  "opened_fds w = closed_fds w \<Longrightarrow> ns_setup_loop E l w = (b, w') \<Longrightarrow> opened_fds w' = closed_fds w'"
  by (induction E l w rule: ns_setup_loop.induct)
    (auto simp: callI_def Let_def split: if_splits option.splits)

text \<open>
  Setting up the namespaces leaves no descriptor open, on success and on every failure.
\<close>

theorem ns_setup_closes_descriptors:
  assumes "clr_oci_ns_setup E config [] = (b, w)"
  shows "opened_fds w = closed_fds w"
  using assms ns_setup_loop_closes [of "[]" E _ b w]
  by (auto simp: clr_oci_ns_setup_def split: if_splits)

definition net_ns_config :: clr_oci_config where
  "net_ns_config = config0\<lparr>oci := oci_cfg0\<lparr>namespaces :=
     [\<lparr>ns_type = OCI_NS_PID, ns_path = None\<rparr>,
      \<lparr>ns_type = OCI_NS_NET, ns_path = Some ''/run/netns/a''\<rparr>]\<rparr>\<rparr>"

definition fd7_env :: env where
  "fd7_env = env0\<lparr>sys_int := \<lambda>w c. (case c of OpenRead p \<Rightarrow> 7 | SetNs fd t \<Rightarrow> -1 | _ \<Rightarrow> 0)\<rparr>"

theorem ns_setup_closes_descriptors_witness:
  "\<exists>w. clr_oci_ns_setup fd7_env net_ns_config [] = (False, w) \<and> closed_fds w = [7] \<and> opened_fds w = [7]"
proof -
  obtain w where w: "clr_oci_ns_setup fd7_env net_ns_config [] = (False, w)" "closed_fds w = [7]"
    by (simp add: clr_oci_ns_setup_def net_ns_config_def fd7_env_def env0_def callI_def zeroed)
  then show ?thesis using ns_setup_closes_descriptors by fastforce
qed

end
