(* ===== verification/Spec_Handlers.thy ===== *)
theory Spec_Handlers
  imports Namespace Mount
begin

text \<open>
  \<^verbatim>\<open>src/spec_handlers/*.c\<close> and \<^verbatim>\<open>src/spec_handler.c\<close>: the sections of
  \<^verbatim>\<open>config.json\<close> fill the configuration. Three of the sections (mounts, hooks, the
  namespaces of "linux") are arrays of objects, read with a file-level pointer to the object
  being filled and an error flag; the state of such a walk is the triple of that pointer,
  the flag and the list built so far. A section always starts with the pointer NULL, since
  every section leaves it NULL (lemma \<open>save_closes\<close>).
\<close>

type_synonym 'a walk = "'a option \<times> bool \<times> 'a list"

subsection \<open>annotations\<close>

definition handle_annotation :: "gnode \<Rightarrow> clr_oci_config \<Rightarrow> clr_oci_config option" where
  "handle_annotation root config =
     (case (gchildren root, gdata root) of
        (child # _, Some key) \<Rightarrow>
          if key = [] then Some config
          else
            let a = \<lparr>ann_key = key, ann_value = (if gdata child = Some [] then None else gdata child)\<rparr>
            in Some (config\<lparr>oci := (oci config)\<lparr>annotations := a # annotations (oci config)\<rparr>\<rparr>)
      | _ \<Rightarrow> Some config)"

definition annotations_handle_section :: "gnode \<Rightarrow> clr_oci_config \<Rightarrow> (bool \<times> clr_oci_config) option" where
  "annotations_handle_section root config = do {
     config \<leftarrow> foreach handle_annotation (gchildren root) config;
     Some (True, config)
   }"

subsection \<open>hooks\<close>

definition save_current_hook :: "oci_cfg_hook walk \<Rightarrow> oci_cfg_hook walk" where
  "save_current_hook s = (case s of (current_hook, error_detected, hooks_list) \<Rightarrow>
     (case current_hook of
        None \<Rightarrow> s
      | Some h \<Rightarrow>
          if hook_path h = [] then (None, True, hooks_list)
          else (None, error_detected, hooks_list @ [h])))"

text \<open>\<^verbatim>\<open>g_ascii_strtoll (NULL, ...)\<close> returns 0.\<close>

definition fill_hook :: "string \<Rightarrow> gnode \<Rightarrow> oci_cfg_hook \<Rightarrow> oci_cfg_hook" where
  "fill_hook name root h =
     (if name = ''path'' then h\<lparr>hook_path := buf_put PATH_MAX (fmt_s (gdata (hd (gchildren root))))\<rparr>
      else if name = ''args'' then h\<lparr>hook_args := Some (node_to_strv root)\<rparr>
      else if name = ''env'' then h\<lparr>hook_env := Some (node_to_strv root)\<rparr>
      else if name = ''timeout'' then
        h\<lparr>hook_timeout := (case gdata (hd (gchildren root)) of None \<Rightarrow> 0 | Some t \<Rightarrow> to_int32 (atol t))\<rparr>
      else h)"

definition handle_hook :: "gnode \<Rightarrow> oci_cfg_hook walk \<Rightarrow> oci_cfg_hook walk option" where
  "handle_hook root s = (case s of (current_hook, error_detected, list) \<Rightarrow>
     if error_detected then Some s
     else (case gdata root of
             None \<Rightarrow> Some (save_current_hook s)
           | Some name \<Rightarrow>
               if gchildren root = [] then Some s
               else
                 let h = (case current_hook of None \<Rightarrow> hook0 | Some h \<Rightarrow> h)
                 in Some (Some (fill_hook name root h), error_detected, list)))"

text \<open>The walk goes on over the list that the section's name selects.\<close>

definition hook_list_select ::
  "string \<Rightarrow> ((oci_cfg_hooks \<Rightarrow> oci_cfg_hook list) \<times> (oci_cfg_hook list \<Rightarrow> oci_cfg_hooks \<Rightarrow> oci_cfg_hooks)) option" where
  "hook_list_select name =
     (if name = ''prestart'' then Some (prestart, \<lambda>l h. h\<lparr>prestart := l\<rparr>)
      else if name = ''poststart'' then Some (poststart, \<lambda>l h. h\<lparr>poststart := l\<rparr>)
      else if name = ''poststop'' then Some (poststop, \<lambda>l h. h\<lparr>poststop := l\<rparr>)
      else None)"

definition handle_hooks_section ::
  "gnode \<Rightarrow> clr_oci_config \<times> oci_cfg_hook option \<times> bool
   \<Rightarrow> (clr_oci_config \<times> oci_cfg_hook option \<times> bool) option" where
  "handle_hooks_section root s = (case s of (config, current_hook, error_detected) \<Rightarrow>
     if gchildren root = [] \<or> error_detected then Some s
     else (case Option.bind (gdata root) hook_list_select of
             None \<Rightarrow> Some s
           | Some (get, put) \<Rightarrow> do {
               walk \<leftarrow> foreach handle_hook (gchildren root) (current_hook, error_detected, get (hooks (oci config)));
               let (current_hook, error_detected, list) = save_current_hook walk;
               Some (config\<lparr>oci := (oci config)\<lparr>hooks := put list (hooks (oci config))\<rparr>\<rparr>,
                     current_hook, error_detected)
             }))"

definition hooks_handle_section :: "gnode \<Rightarrow> clr_oci_config \<Rightarrow> (bool \<times> clr_oci_config) option" where
  "hooks_handle_section root config = do {
     (config, current_hook, error_detected) \<leftarrow>
       foreach handle_hooks_section (gchildren root) (config, None, False);
     Some (\<not> error_detected, config)
   }"

subsection \<open>linux\<close>

definition save_current_ns :: "oci_cfg_namespace walk \<Rightarrow> oci_cfg_namespace walk" where
  "save_current_ns s = (case s of (current_ns, error_detected, ns_list) \<Rightarrow>
     (case current_ns of
        None \<Rightarrow> s
      | Some ns \<Rightarrow> (None, error_detected, ns_list @ [ns])))"

text \<open>\<^term>\<open>None\<close> is the jump to \<^verbatim>\<open>err\<close>.\<close>

definition fill_ns :: "string \<Rightarrow> gnode \<Rightarrow> oci_cfg_namespace \<Rightarrow> oci_cfg_namespace option" where
  "fill_ns name root ns =
     (let v = gdata (hd (gchildren root)) in
      if name = ''type'' then
        (case v of
           None \<Rightarrow> None
         | Some t \<Rightarrow>
             if t = [] \<or> clr_oci_str_to_ns (Some t) = OCI_NS_INVALID then None
             else Some (ns\<lparr>ns_type := clr_oci_str_to_ns (Some t)\<rparr>))
      else if name = ''path'' then
        Some (if v = None \<or> v = Some [] then ns else ns\<lparr>ns_path := v\<rparr>)
      else Some ns)"

definition handle_namespaces_section ::
  "gnode \<Rightarrow> oci_cfg_namespace walk \<Rightarrow> oci_cfg_namespace walk option" where
  "handle_namespaces_section root s = (case s of (current_ns, error_detected, list) \<Rightarrow>
     if error_detected then Some s
     else (case gdata root of
             None \<Rightarrow> Some (save_current_ns s)
           | Some name \<Rightarrow>
               if gchildren root = [] then Some s
               else (case fill_ns name root (case current_ns of None \<Rightarrow> namespace0 | Some ns \<Rightarrow> ns) of
                       None \<Rightarrow> Some (None, True, list)
                     | Some ns \<Rightarrow> Some (Some ns, error_detected, list))))"

definition handle_linux_section ::
  "gnode \<Rightarrow> oci_cfg_namespace walk \<Rightarrow> oci_cfg_namespace walk option" where
  "handle_linux_section root s =
     (if gchildren root = [] then Some s
      else if gdata root = Some ''namespaces'' then foreach handle_namespaces_section (gchildren root) s
      else Some s)"

definition linux_handle_section :: "gnode \<Rightarrow> clr_oci_config \<Rightarrow> (bool \<times> clr_oci_config) option" where
  "linux_handle_section root config = do {
     walk \<leftarrow> foreach handle_linux_section (gchildren root) (None, False, namespaces (oci config));
     let (current_ns, error_detected, list) = (if fst (snd walk) then walk else save_current_ns walk);
     Some (\<not> error_detected, config\<lparr>oci := (oci config)\<lparr>namespaces := list\<rparr>\<rparr>)
   }"

subsection \<open>mounts\<close>

text \<open>The \<^verbatim>\<open>MS_*\<close> flags of Linux.\<close>

definition MS_REC :: "64 word" where "MS_REC = 16384"

definition mnt_flag_map :: "(string \<times> 64 word) list" where
  "mnt_flag_map =
    [(''bind'', 4096), (''dirsync'', 128), (''mandlock'', 64), (''move'', 8192), (''noatime'', 1024),
     (''nodev'', 4), (''nodiratime'', 2048), (''noexec'', 8), (''nosuid'', 2), (''ro'', 1),
     (''relatime'', 2097152), (''remount'', 32), (''silent'', 32768), (''strictatime'', 16777216),
     (''sync'', 16), (''rbind'', or 4096 MS_REC), (''rprivate'', or 262144 MS_REC), (''private'', 262144),
     (''rslave'', or 524288 MS_REC), (''slave'', 524288), (''rshared'', or 1048576 MS_REC),
     (''shared'', 1048576)]"

definition mount_get_flag_value :: "cstring \<Rightarrow> 64 word" where
  "mount_get_flag_value flag =
     (case Option.bind flag (map_of mnt_flag_map) of None \<Rightarrow> 0 | Some v \<Rightarrow> v)"

text \<open>One option: a flag of the current mount, or a part of the option string.\<close>

definition handle_options_section :: "gnode \<Rightarrow> 64 word \<times> string \<Rightarrow> (64 word \<times> string) option" where
  "handle_options_section root s = (case s of (flags, mount_flags) \<Rightarrow>
     let flag = mount_get_flag_value (gdata root) in
     if flag \<noteq> 0 then Some (or flags flag, mount_flags)
     else Some (flags, mount_flags @ fmt_s (gdata root) @ '',''))"

definition save_current_mount :: "clr_oci_mount walk \<Rightarrow> clr_oci_mount walk" where
  "save_current_mount s = (case s of (current_mount, error_detected, mount_list) \<Rightarrow>
     (case current_mount of
        None \<Rightarrow> s
      | Some m \<Rightarrow>
          if mnt_dir m = None then (None, True, mount_list)
          else if mnt_type m = None then (None, True, mount_list)
          else if mnt_fsname m = None then (None, True, mount_list)
          else (None, error_detected, mount_list @ [m])))"

definition fill_mount :: "string \<Rightarrow> gnode \<Rightarrow> clr_oci_mount \<Rightarrow> clr_oci_mount option" where
  "fill_mount name root m =
     (let v = gdata (hd (gchildren root)) in
      if name = ''destination'' then Some (m\<lparr>mnt_dir := v\<rparr>)
      else if name = ''type'' then Some (m\<lparr>mnt_type := v\<rparr>)
      else if name = ''source'' then Some (m\<lparr>mnt_fsname := v\<rparr>)
      else if name = ''options'' then do {
        (flags, mount_flags) \<leftarrow> foreach handle_options_section (gchildren root) (mnt_flags m, []);
        let m = m\<lparr>mnt_flags := flags\<rparr>;
        Some (if mount_flags = [] then m else m\<lparr>mnt_opts := Some (butlast mount_flags)\<rparr>)
      }
      else Some m)"

definition handle_mounts_section :: "gnode \<Rightarrow> clr_oci_mount walk \<Rightarrow> clr_oci_mount walk option" where
  "handle_mounts_section root s = (case s of (current_mount, error_detected, list) \<Rightarrow>
     if error_detected then Some s
     else (case gdata root of
             None \<Rightarrow> Some (save_current_mount s)
           | Some name \<Rightarrow>
               if gchildren root = [] then Some s
               else do {
                 m \<leftarrow> fill_mount name root (case current_mount of None \<Rightarrow> mount0 | Some m \<Rightarrow> m);
                 Some (Some m, error_detected, list)
               }))"

definition mounts_handle_section :: "gnode \<Rightarrow> clr_oci_config \<Rightarrow> (bool \<times> clr_oci_config) option" where
  "mounts_handle_section root config =
     (if mounts (oci config) \<noteq> [] then Some (True, config)
      else do {
        walk \<leftarrow> foreach handle_mounts_section (gchildren root) (None, False, mounts (oci config));
        let (current_mount, error_detected, list) = (if fst (snd walk) then walk else save_current_mount walk);
        Some (\<not> error_detected, config\<lparr>oci := (oci config)\<lparr>mounts := list\<rparr>\<rparr>)
      })"

subsection \<open>platform\<close>

definition handle_platform_section :: "gnode \<Rightarrow> clr_oci_config \<Rightarrow> clr_oci_config option" where
  "handle_platform_section root config =
     (case gchildren root of
        [] \<Rightarrow> Some config
      | child # _ \<Rightarrow>
          let p = platform (oci config) in
          if gdata root = Some ''os'' then
            Some (config\<lparr>oci := (oci config)\<lparr>platform := p\<lparr>plat_os := gdata child\<rparr>\<rparr>\<rparr>)
          else if gdata root = Some ''arch'' then
            Some (config\<lparr>oci := (oci config)\<lparr>platform := p\<lparr>plat_arch := gdata child\<rparr>\<rparr>\<rparr>)
          else Some config)"

definition platform_handle_section :: "gnode \<Rightarrow> clr_oci_config \<Rightarrow> (bool \<times> clr_oci_config) option" where
  "platform_handle_section root config = do {
     config \<leftarrow> foreach handle_platform_section (gchildren root) config;
     let p = platform (oci config);
     Some (if plat_os p = None then False
           else if plat_os p \<noteq> Some CLR_OCI_EXPECTED_PLATFORM then False
           else if plat_arch p = None then False
           else if plat_arch p \<noteq> Some CLR_OCI_EXPECTED_ARCHITECTURE then False
           else True, config)
   }"


subsection \<open>process\<close>

text \<open>\<^verbatim>\<open>atoi (root->children->data)\<close> dies on a node without children and on NULL data.\<close>

definition child_number :: "gnode \<Rightarrow> int option" where
  "child_number root =
     (case gchildren root of
        [] \<Rightarrow> None
      | child # _ \<Rightarrow> map_option (\<lambda>t. to_uint32 (atoi t)) (gdata child))"

definition handle_user_section :: "gnode \<Rightarrow> clr_oci_config \<Rightarrow> clr_oci_config option" where
  "handle_user_section root config =
     (let p = oci_process (oci config);
          put = (\<lambda>u. config\<lparr>oci := (oci config)\<lparr>oci_process := p\<lparr>proc_user := u\<rparr>\<rparr>\<rparr>)
      in if gdata root = Some ''uid'' then
           map_option (\<lambda>n. put ((proc_user p)\<lparr>uid := n\<rparr>)) (child_number root)
         else if gdata root = Some ''gid'' then
           map_option (\<lambda>n. put ((proc_user p)\<lparr>gid := n\<rparr>)) (child_number root)
         else Some config)"

definition handle_process_section :: "gnode \<Rightarrow> clr_oci_config \<Rightarrow> clr_oci_config option" where
  "handle_process_section root config =
     (case gchildren root of
        [] \<Rightarrow> Some config
      | child # _ \<Rightarrow>
          let p = oci_process (oci config);
              put = (\<lambda>p. Some (config\<lparr>oci := (oci config)\<lparr>oci_process := p\<rparr>\<rparr>))
          in if gdata root = Some ''cwd'' then
               put (p\<lparr>proc_cwd := buf_put PATH_MAX (fmt_s (gdata child))\<rparr>)
             else if gdata root = Some ''args'' then put (p\<lparr>proc_args := Some (node_to_strv root)\<rparr>)
             else if gdata root = Some ''env'' then put (p\<lparr>proc_env := Some (node_to_strv root)\<rparr>)
             else if gdata root = Some ''terminal'' then
               put (p\<lparr>proc_terminal := (gdata child = Some ''true'')\<rparr>)
             else if gdata root = Some ''user'' then foreach handle_user_section (gchildren root) config
             else Some config)"

definition process_handle_section :: "gnode \<Rightarrow> clr_oci_config \<Rightarrow> (bool \<times> clr_oci_config) option" where
  "process_handle_section root config = do {
     config \<leftarrow> foreach handle_process_section (gchildren root) config;
     let p = oci_process (oci config);
     Some (if proc_cwd p = [] then False
           else if hd (proc_cwd p) \<noteq> slash then False
           else if proc_args p = None then False
           else True, config)
   }"

subsection \<open>root\<close>

text \<open>Handlers that ask the file system thread the world as well.\<close>

type_synonym cw = "clr_oci_config \<times> world"

definition handle_root_section :: "env \<Rightarrow> gnode \<Rightarrow> cw \<Rightarrow> cw option" where
  "handle_root_section E root s = (case s of (config, w) \<Rightarrow>
     (case gchildren root of
        [] \<Rightarrow> Some s
      | child # _ \<Rightarrow>
          let r = rootfs (oci config);
              put = (\<lambda>r. config\<lparr>oci := (oci config)\<lparr>rootfs := r\<rparr>\<rparr>)
          in if gdata root = Some ''path'' then
               (case clr_oci_resolve_path E (gdata child) w of
                  (None, w) \<Rightarrow> Some (config, w)
                | (Some full, w) \<Rightarrow> Some (put (r\<lparr>rootfs_path := buf_put PATH_MAX full\<rparr>), w))
             else if gdata root = Some ''readonly'' then
               (if gdata child = Some ''true'' then Some (put (r\<lparr>read_only := True\<rparr>), w)
                else if gdata child = Some ''false'' then Some (put (r\<lparr>read_only := False\<rparr>), w)
                else Some s)
             else Some s))"

definition root_handle_section :: "env \<Rightarrow> gnode \<Rightarrow> cw \<Rightarrow> (bool \<times> cw) option" where
  "root_handle_section E root s = do {
     (config, w) \<leftarrow> foreach (handle_root_section E) (gchildren root) s;
     if rootfs_path (rootfs (oci config)) = [] then Some (False, config, w)
     else (case callB E (FileIsDir (rootfs_path (rootfs (oci config)))) w of
             (b, w) \<Rightarrow> Some (b, config, w))
   }"

subsection \<open>vm\<close>

text \<open>\<^verbatim>\<open>config->vm\<close> is dereferenced; \<^term>\<open>None\<close> when it is NULL.\<close>

definition vm_path_update ::
  "env \<Rightarrow> ((string \<Rightarrow> string) \<Rightarrow> clr_oci_vm_cfg \<Rightarrow> clr_oci_vm_cfg) \<Rightarrow> cstring \<Rightarrow> cw \<Rightarrow> cw option" where
  "vm_path_update E upd text s = (case s of (config, w) \<Rightarrow>
     (case clr_oci_resolve_path E text w of
        (None, w) \<Rightarrow> Some (config, w)
      | (Some path, w) \<Rightarrow> do {
          vmc \<leftarrow> vm config;
          Some (config\<lparr>vm := Some (upd (\<lambda>_. buf_put PATH_MAX path) vmc)\<rparr>, w)
        }))"

definition handle_kernel_section :: "env \<Rightarrow> gnode \<Rightarrow> cw \<Rightarrow> cw option" where
  "handle_kernel_section E root s =
     (case gchildren root of
        [] \<Rightarrow> Some s
      | child # _ \<Rightarrow>
          if gdata root = Some ''path'' then vm_path_update E kernel_path_update (gdata child) s
          else if gdata root = Some ''parameters'' then do {
            vmc \<leftarrow> vm (fst s);
            Some ((fst s)\<lparr>vm := Some (vmc\<lparr>kernel_params := gdata child\<rparr>)\<rparr>, snd s)
          }
          else Some s)"

definition handle_vm_section :: "env \<Rightarrow> gnode \<Rightarrow> cw \<Rightarrow> cw option" where
  "handle_vm_section E root s =
     (case gchildren root of
        [] \<Rightarrow> Some s
      | child # _ \<Rightarrow>
          if gdata root = Some ''path'' then vm_path_update E hypervisor_path_update (gdata child) s
          else if gdata root = Some ''image'' then vm_path_update E image_path_update (gdata child) s
          else if gdata root = Some ''kernel'' then foreach (handle_kernel_section E) (gchildren root) s
          else Some s)"

definition path_exists :: "env \<Rightarrow> string \<Rightarrow> world \<Rightarrow> bool \<times> world" where
  "path_exists E path w = (if path = [] then (False, w) else callB E (Stat path) w)"

definition vm_handle_section :: "env \<Rightarrow> gnode option \<Rightarrow> cw \<Rightarrow> (bool \<times> cw) option" where
  "vm_handle_section E root s = (case s of (config, w) \<Rightarrow>
     (case root of
        None \<Rightarrow> Some (False, config, w)
      | Some root \<Rightarrow> do {
          let config = (case vm config of None \<Rightarrow> config\<lparr>vm := Some vm_cfg0\<rparr> | Some _ \<Rightarrow> config);
          (config, w) \<leftarrow> foreach (handle_vm_section E) (gchildren root) (config, w);
          vmc \<leftarrow> vm config;
          let (ret, w) = path_exists E (hypervisor_path vmc) w;
          let (ret, w) = (if ret then path_exists E (image_path vmc) w else (False, w));
          let (ret, w) = (if ret then path_exists E (kernel_path vmc) w else (False, w));
          Some (ret, if ret then config else config\<lparr>vm := None\<rparr>, w)
        }))"

subsection \<open>Dispatch\<close>

text \<open>The handlers as the table has them; each takes and gives the world.\<close>

definition pure_handler ::
  "(gnode \<Rightarrow> clr_oci_config \<Rightarrow> (bool \<times> clr_oci_config) option) \<Rightarrow> gnode \<Rightarrow> cw \<Rightarrow> (bool \<times> cw) option" where
  "pure_handler h root s = map_option (\<lambda>(b, config). (b, config, snd s)) (h root (fst s))"

definition start_spec_handlers :: "env \<Rightarrow> (string \<times> (gnode \<Rightarrow> cw \<Rightarrow> (bool \<times> cw) option)) list" where
  "start_spec_handlers E =
    [(''annotations'', pure_handler annotations_handle_section),
     (''hooks'', pure_handler hooks_handle_section),
     (''mounts'', pure_handler mounts_handle_section),
     (''platform'', pure_handler platform_handle_section),
     (''process'', pure_handler process_handle_section),
     (''root'', root_handle_section E),
     (''vm'', \<lambda>root. vm_handle_section E (Some root)),
     (''linux'', pure_handler linux_handle_section)]"

definition stop_spec_handlers :: "(string \<times> (gnode \<Rightarrow> cw \<Rightarrow> (bool \<times> cw) option)) list" where
  "stop_spec_handlers = [(''hooks'', pure_handler hooks_handle_section)]"

text \<open>The result of a handler is only logged.\<close>

definition run_spec_handler ::
  "(string \<times> (gnode \<Rightarrow> cw \<Rightarrow> (bool \<times> cw) option)) list \<Rightarrow> cstring \<Rightarrow> gnode \<Rightarrow> cw \<Rightarrow> cw option" where
  "run_spec_handler handlers name root s =
     (case Option.bind name (map_of handlers) of
        None \<Rightarrow> Some s
      | Some h \<Rightarrow> map_option snd (h root s))"

definition process_config_stop :: "gnode \<Rightarrow> cw \<Rightarrow> cw option" where
  "process_config_stop root s = run_spec_handler stop_spec_handlers (gdata root) root s"

text \<open>\<^verbatim>\<open>root->children->data\<close> of a node without children dies.\<close>

definition process_config_start :: "env \<Rightarrow> gnode \<Rightarrow> cw \<Rightarrow> cw option" where
  "process_config_start E root s =
     (case gdata root of
        None \<Rightarrow> Some s
      | Some name \<Rightarrow> do {
          s \<leftarrow> (if name = ''ociVersion'' then
                 (case gchildren root of
                    [] \<Rightarrow> None
                  | child # _ \<Rightarrow> Some ((fst s)\<lparr>oci := (oci (fst s))\<lparr>oci_version := gdata child\<rparr>\<rparr>, snd s))
               else Some s);
          s \<leftarrow> (if name = ''hostname'' then
                 (case gchildren root of
                    [] \<Rightarrow> None
                  | child # _ \<Rightarrow> Some ((fst s)\<lparr>oci := (oci (fst s))\<lparr>hostname := gdata child\<rparr>\<rparr>, snd s))
               else Some s);
          run_spec_handler (start_spec_handlers E) (Some name) root s
        })"

fun find_child :: "cstring \<Rightarrow> gnode list \<Rightarrow> gnode option" where
  "find_child name [] = None"
| "find_child name (n # ns) = (if gdata n = name then Some n else find_child name ns)"

definition get_spec_vm_from_cfg_file :: "env \<Rightarrow> cw \<Rightarrow> (bool \<times> cw) option" where
  "get_spec_vm_from_cfg_file E s = (case s of (config, w) \<Rightarrow>
     if vm config \<noteq> None then Some (True, config, w)
     else do {
       let sys_json_file = g_build_path [sysconfdir E, CLR_OCI_VM_CONFIG];
       let (found, w) = callB E (FileExists sys_json_file) w;
       let sys_json_file =
         (if found then sys_json_file else g_build_path [defaultsdir E, CLR_OCI_VM_CONFIG]);
       case clr_oci_json_parse E (Some sys_json_file) w of
         (None, w) \<Rightarrow> Some (False, config, w)
       | (Some vm_config, w) \<Rightarrow> do {
           (_, config, w) \<leftarrow> vm_handle_section E (find_child (Some ''vm'') (gchildren vm_config)) (config, w);
           Some (vm config \<noteq> None, config, w)
         }
     })"


subsection \<open>The contract of a walk over an array of objects\<close>

definition walk_ok :: "('a \<Rightarrow> bool) \<Rightarrow> 'a walk \<Rightarrow> bool" where
  "walk_ok complete s = (case s of (cur, err, l) \<Rightarrow> (err \<longrightarrow> cur = None) \<and> list_all complete l)"

definition is_field :: "gnode \<Rightarrow> bool" where
  "is_field n \<longleftrightarrow> gdata n \<noteq> None \<and> gchildren n \<noteq> []"

text \<open>The object that a list of fields makes.\<close>

definition fill_fields :: "(string \<Rightarrow> gnode \<Rightarrow> 'a \<Rightarrow> 'a option) \<Rightarrow> gnode list \<Rightarrow> 'a \<Rightarrow> 'a option" where
  "fill_fields fill = foreach (\<lambda>n. fill (the (gdata n)) n)"

text \<open>Members without a value are passed over.\<close>

definition object_makes ::
  "(string \<Rightarrow> gnode \<Rightarrow> 'a \<Rightarrow> 'a option) \<Rightarrow> 'a \<Rightarrow> gnode list \<Rightarrow> 'a \<Rightarrow> bool" where
  "object_makes fill zero ns y \<longleftrightarrow> list_all (\<lambda>n. gdata n \<noteq> None) ns \<and> filter is_field ns \<noteq> []
     \<and> fill_fields fill (filter is_field ns) zero = Some y"

locale object_walk =
  fixes step :: "gnode \<Rightarrow> 'a walk \<Rightarrow> 'a walk option"
    and save :: "'a walk \<Rightarrow> 'a walk"
    and fill :: "string \<Rightarrow> gnode \<Rightarrow> 'a \<Rightarrow> 'a option"
    and zero :: 'a
    and complete :: "'a \<Rightarrow> bool"
  assumes step_error: "step n (cur, True, l) = Some (cur, True, l)"
    and step_separator: "gdata n = None \<Longrightarrow> step n (cur, False, l) = Some (save (cur, False, l))"
    and step_leaf: "gdata n \<noteq> None \<Longrightarrow> gchildren n = [] \<Longrightarrow> step n (cur, False, l) = Some (cur, False, l)"
    and step_field: "is_field n \<Longrightarrow> step n (cur, False, l) =
        Some (case fill (the (gdata n)) n (case cur of None \<Rightarrow> zero | Some x \<Rightarrow> x) of
                None \<Rightarrow> (None, True, l) | Some x \<Rightarrow> (Some x, False, l))"
    and save_none: "save (None, err, l) = (None, err, l)"
    and save_some: "save (Some x, err, l) = (if complete x then (None, err, l @ [x]) else (None, True, l))"
begin

lemma save_closes: "fst (save s) = None"
  by (cases s; cases "fst s") (auto simp: save_none save_some)

lemma save_ok: "walk_ok complete s \<Longrightarrow> walk_ok complete (save s)"
  by (cases s; cases "fst s") (auto simp: walk_ok_def save_none save_some)

lemma save_prefix: "prefix (snd (snd s)) (snd (snd (save s)))"
  by (cases s; cases "fst s") (auto simp: save_none save_some)

lemma step_cases:
  "step n (cur, False, l) = Some (save (cur, False, l)) \<or> step n (cur, False, l) = Some (cur, False, l)
   \<or> step n (cur, False, l) = Some (None, True, l) \<or> (\<exists>x. step n (cur, False, l) = Some (Some x, False, l))"
proof (cases "gdata n = None \<or> gchildren n = []")
  case True
  then show ?thesis using step_separator [of n cur l] step_leaf [of n cur l] by blast
next
  case False
  then have "is_field n" by (simp add: is_field_def)
  from step_field [OF this, of cur l] show ?thesis
    by (cases "fill (the (gdata n)) n (case cur of None \<Rightarrow> zero | Some x \<Rightarrow> x)") simp_all
qed

lemma step_ok:
  assumes "walk_ok complete s"
  shows "\<exists>t. step n s = Some t \<and> walk_ok complete t \<and> prefix (snd (snd s)) (snd (snd t))"
proof -
  obtain cur err l where s: "s = (cur, err, l)" by (cases s)
  show ?thesis
  proof (cases err)
    case True
    with assms show ?thesis by (simp add: s step_error)
  next
    case False
    with assms show ?thesis
      using step_cases [of n cur l] save_ok [of s] save_prefix [of s] unfolding s
      by (auto simp: walk_ok_def)
  qed
qed

lemma walk_total:
  assumes "walk_ok complete s"
  shows "\<exists>t. foreach step ns s = Some t \<and> walk_ok complete t \<and> prefix (snd (snd s)) (snd (snd t))"
proof (rule foreach_total_inv)
  show "walk_ok complete s \<and> prefix (snd (snd s)) (snd (snd s))" using assms by simp
next
  fix n u
  assume "walk_ok complete u \<and> prefix (snd (snd s)) (snd (snd u))"
  then show "\<exists>t. step n u = Some t \<and> walk_ok complete t \<and> prefix (snd (snd s)) (snd (snd t))"
    using step_ok [of u n] prefix_order.trans by blast
qed

lemma walk_error: "foreach step ns (cur, True, l) = Some (cur, True, l)"
  by (induction ns) (simp_all add: step_error)

lemma walk_fields:
  assumes "list_all (\<lambda>n. gdata n \<noteq> None) ns" and "fill_fields fill (filter is_field ns) x = Some y"
  shows "foreach step ns (Some x, False, l) = Some (Some y, False, l)"
  using assms
proof (induction ns arbitrary: x)
  case (Cons n ns)
  show ?case
  proof (cases "is_field n")
    case True
    with Cons.prems obtain x' where "fill (the (gdata n)) n x = Some x'"
      "fill_fields fill (filter is_field ns) x' = Some y"
      by (auto simp: fill_fields_def bind_eq_Some_conv)
    with Cons True show ?thesis by (simp add: step_field)
  next
    case False
    with Cons.prems have "step n (Some x, False, l) = Some (Some x, False, l)"
      by (intro step_leaf) (auto simp: is_field_def)
    with Cons False show ?thesis by simp
  qed
qed (simp add: fill_fields_def)

lemma walk_object:
  assumes "list_all (\<lambda>n. gdata n \<noteq> None) ns" and "filter is_field ns \<noteq> []"
    and "fill_fields fill (filter is_field ns) zero = Some y"
  shows "foreach step ns (None, False, l) = Some (Some y, False, l)"
  using assms
proof (induction ns)
  case (Cons n ns)
  show ?case
  proof (cases "is_field n")
    case True
    then have "foreach step (n # ns) (None, False, l) = foreach step (n # ns) (Some zero, False, l)"
      by (simp add: step_field)
    with walk_fields [OF Cons.prems(1,3)] show ?thesis by simp
  next
    case False
    with Cons.prems have "step n (None, False, l) = Some (None, False, l)"
      by (intro step_leaf) (auto simp: is_field_def)
    with Cons False show ?thesis by simp
  qed
qed simp

text \<open>An array of complete objects gives one element each, in order.\<close>

lemma walk_objects:
  assumes "list_all2 (\<lambda>ns y. object_makes fill zero ns y \<and> complete y) objs ys"
    and "pred_option complete cur"
  shows "\<exists>t. foreach step (concat (map (\<lambda>ns. GNode None [] # ns) objs)) (cur, False, l) = Some t
     \<and> save t = (None, False, l @ (case cur of None \<Rightarrow> [] | Some c \<Rightarrow> [c]) @ ys) \<and> \<not> fst (snd t)"
  using assms
proof (induction objs arbitrary: ys cur l)
  case Nil
  then show ?case by (cases cur) (simp_all add: save_none save_some)
next
  case (Cons ns objs)
  then obtain y ys' where ys: "ys = y # ys'" and y: "object_makes fill zero ns y" "complete y"
    and rest: "list_all2 (\<lambda>ns y. object_makes fill zero ns y \<and> complete y) objs ys'"
    by (auto simp: list_all2_Cons1)
  let ?l = "l @ (case cur of None \<Rightarrow> [] | Some c \<Rightarrow> [c])"
  have sep: "step (GNode None []) (cur, False, l) = Some (None, False, ?l)"
    using Cons.prems(2) by (cases cur) (simp_all add: step_separator save_none save_some)
  have "pred_option complete (Some y)" using y by simp
  from Cons.IH [OF rest this, of ?l] obtain t where
    t: "foreach step (concat (map (\<lambda>ns. GNode None [] # ns) objs)) (Some y, False, ?l) = Some t"
      "save t = (None, False, ?l @ [y] @ ys')" "\<not> fst (snd t)" by auto
  have "foreach step (concat (map (\<lambda>ns. GNode None [] # ns) (ns # objs))) (cur, False, l) = Some t"
    using sep t(1) walk_object [OF y(1) [unfolded object_makes_def, THEN conjunct1]
        y(1) [unfolded object_makes_def, THEN conjunct2, THEN conjunct1]
        y(1) [unfolded object_makes_def, THEN conjunct2, THEN conjunct2], of ?l] by (simp add: foreach_append)
  with t ys show ?case by auto
qed

end

lemma parse_object_array:
  "parse_elements (map JObj objs) = concat (map (\<lambda>ns. GNode None [] # ns) (map parse_members objs))"
  by (induction objs) auto

subsection \<open>The three walks\<close>

lemma is_fieldD: "is_field n \<Longrightarrow> \<exists>name. gdata n = Some name \<and> gchildren n \<noteq> []"
  by (auto simp: is_field_def)

definition hook_complete :: "oci_cfg_hook \<Rightarrow> bool" where
  "hook_complete h \<longleftrightarrow> hook_path h \<noteq> []"

definition mount_complete :: "clr_oci_mount \<Rightarrow> bool" where
  "mount_complete m \<longleftrightarrow> mnt_dir m \<noteq> None \<and> mnt_type m \<noteq> None \<and> mnt_fsname m \<noteq> None"

lemma options_total: "\<exists>t. foreach handle_options_section ns s = Some t"
  by (rule foreach_total) (simp add: handle_options_section_def Let_def split: prod.split)

lemma fill_mount_total: "\<exists>m'. fill_mount name root m = Some m'"
proof -
  obtain t where "foreach handle_options_section (gchildren root) (mnt_flags m, []) = Some t"
    using options_total by blast
  then show ?thesis by (cases t) (simp add: fill_mount_def Let_def)
qed

interpretation hook_walk: object_walk handle_hook save_current_hook
  "\<lambda>name root h. Some (fill_hook name root h)" hook0 hook_complete
  by unfold_locales
    (auto simp: handle_hook_def save_current_hook_def hook_complete_def dest!: is_fieldD
      split: option.split)

interpretation ns_walk: object_walk handle_namespaces_section save_current_ns fill_ns namespace0 "\<lambda>_. True"
  by unfold_locales
    (auto simp: handle_namespaces_section_def save_current_ns_def dest!: is_fieldD split: option.split)

interpretation mount_walk: object_walk handle_mounts_section save_current_mount fill_mount mount0
  mount_complete
proof
  fix n cur l
  assume "is_field n"
  then obtain name where n: "gdata n = Some name" "gchildren n \<noteq> []" by (auto dest: is_fieldD)
  obtain m where "fill_mount name n (case cur of None \<Rightarrow> mount0 | Some x \<Rightarrow> x) = Some m"
    using fill_mount_total by blast
  with n show "handle_mounts_section n (cur, False, l) =
      Some (case fill_mount (the (gdata n)) n (case cur of None \<Rightarrow> mount0 | Some x \<Rightarrow> x) of
              None \<Rightarrow> (None, True, l) | Some x \<Rightarrow> (Some x, False, l))"
    by (simp add: handle_mounts_section_def)
qed (auto simp: handle_mounts_section_def save_current_mount_def mount_complete_def split: option.split)


subsection \<open>Options of a mount\<close>

definition known_option :: "string \<Rightarrow> bool" where
  "known_option opt \<longleftrightarrow> mount_get_flag_value (Some opt) \<noteq> 0"

definition option_flags :: "string list \<Rightarrow> 64 word" where
  "option_flags opts = fold (\<lambda>opt f. or f (mount_get_flag_value (Some opt))) opts 0"

definition option_text :: "string list \<Rightarrow> cstring" where
  "option_text opts =
     (let rest = filter (\<lambda>opt. \<not> known_option opt) opts
      in if rest = [] then None else Some (g_strjoinv '','' rest))"

lemma handle_options:
  "foreach handle_options_section (map (\<lambda>s. GNode (Some s) [GNode None []]) opts) (f, t) =
     Some (fold (\<lambda>opt f. or f (mount_get_flag_value (Some opt))) opts f,
           t @ concat (map (\<lambda>opt. opt @ '','') (filter (\<lambda>opt. \<not> known_option opt) opts)))"
  by (induction opts arbitrary: f t) (auto simp: handle_options_section_def known_option_def Let_def)

lemma butlast_commas:
  "us \<noteq> [] \<Longrightarrow> butlast (concat (map (\<lambda>opt. opt @ '','') us)) = g_strjoinv '','' us"
  by (induction "'',''" us rule: g_strjoinv.induct) (auto simp: butlast_append)

lemma concat_commas_empty: "concat (map (\<lambda>opt. opt @ '','') us) = [] \<longleftrightarrow> us = []"
  by (cases us) auto

lemma fill_mount_options:
  assumes "mnt_flags m = 0" and "mnt_opts m = None"
  shows "fill_mount ''options'' (GNode (Some ''options'') (map (\<lambda>s. GNode (Some s) [GNode None []]) opts)) m
     = Some (m\<lparr>mnt_flags := option_flags opts, mnt_opts := option_text opts\<rparr>)"
proof -
  define us where "us = filter (\<lambda>opt. \<not> known_option opt) opts"
  have "option_text opts = (if concat (map (\<lambda>opt. opt @ '','') us) = [] then None
     else Some (butlast (concat (map (\<lambda>opt. opt @ '','') us))))"
    by (simp add: option_text_def us_def [symmetric] concat_commas_empty butlast_commas
        del: concat_eq_Nil_conv)
  then show ?thesis using assms
    by (cases m) (simp add: fill_mount_def Let_def handle_options option_flags_def us_def [symmetric]
        del: concat_eq_Nil_conv)
qed

text \<open>An element of "mounts" as the OCI specification has it.\<close>

record mount_spec =
  destination :: string
  mount_type :: string
  source :: string
  options :: "string list"

definition mount_members :: "mount_spec \<Rightarrow> (string \<times> json) list" where
  "mount_members ms =
     [(''destination'', JString (destination ms)), (''type'', JString (mount_type ms)),
      (''source'', JString (source ms)), (''options'', JArr (map JString (options ms)))]"

definition mount_of_spec :: "mount_spec \<Rightarrow> clr_oci_mount" where
  "mount_of_spec ms = mount0\<lparr>mnt_dir := Some (destination ms), mnt_type := Some (mount_type ms),
     mnt_fsname := Some (source ms), mnt_flags := option_flags (options ms),
     mnt_opts := option_text (options ms)\<rparr>"

lemma mount_object_makes:
  "object_makes fill_mount mount0 (parse_members (mount_members ms)) (mount_of_spec ms)"
proof (cases "options ms = []")
  case True
  then show ?thesis
    by (simp add: object_makes_def mount_members_def is_field_def fill_fields_def mount_of_spec_def
        fill_mount_def mount0_def option_flags_def option_text_def Let_def)
next
  case False
  then have f: "filter is_field (parse_members (mount_members ms)) = parse_members (mount_members ms)"
    by (simp add: mount_members_def is_field_def parse_string_array
        del: clr_oci_json_parse_aux.simps(2))
  have "fill_fields fill_mount (parse_members (mount_members ms)) mount0 = Some (mount_of_spec ms)"
    using fill_mount_options [of "mount0\<lparr>mnt_dir := Some (destination ms),
        mnt_type := Some (mount_type ms), mnt_fsname := Some (source ms)\<rparr>" "options ms"]
    by (simp add: fill_fields_def mount_members_def parse_string_array fill_mount_def Let_def
        mount_of_spec_def zeroed del: clr_oci_json_parse_aux.simps(2))
  then show ?thesis unfolding object_makes_def f by (simp add: mount_members_def)
qed


subsection \<open>Which sections can kill the process\<close>

declare split_paired_Ex [simp del] split_paired_All [simp del]

definition bad_number :: "gnode \<Rightarrow> bool" where
  "bad_number n \<longleftrightarrow> (gdata n = Some ''uid'' \<or> gdata n = Some ''gid'')
     \<and> (gchildren n = [] \<or> gdata (hd (gchildren n)) = None)"

definition bad_user :: "gnode \<Rightarrow> bool" where
  "bad_user n \<longleftrightarrow> gdata n = Some ''user'' \<and> list_ex bad_number (gchildren n)"

lemma child_number_None: "child_number n = None \<longleftrightarrow> gchildren n = [] \<or> gdata (hd (gchildren n)) = None"
  by (simp add: child_number_def split: list.split)

lemma user_section_None: "handle_user_section n config = None \<longleftrightarrow> bad_number n"
  by (auto simp: handle_user_section_def bad_number_def child_number_None Let_def)

lemma process_section_node_None: "handle_process_section n config = None \<longleftrightarrow> bad_user n"
  using foreach_None_iff [where f = handle_user_section, OF user_section_None, of "gchildren n" config]
  by (cases "gchildren n")
    (auto simp: handle_process_section_def bad_user_def Let_def list_ex_iff simp del: foreach.simps)

lemma process_section_None:
  "process_handle_section n config = None \<longleftrightarrow> list_ex bad_user (gchildren n)"
  using foreach_None_iff [where f = handle_process_section, OF process_section_node_None, of "gchildren n" config]
  by (auto simp: process_handle_section_def Let_def bind_eq_None_conv list_ex_iff)

lemma annotations_total: "annotations_handle_section n config \<noteq> None"
proof -
  have "\<exists>t. foreach handle_annotation (gchildren n) config = Some t"
    by (rule foreach_total) (simp add: handle_annotation_def Let_def split: list.split option.split)
  then show ?thesis by (auto simp: annotations_handle_section_def)
qed

lemma platform_total: "platform_handle_section n config \<noteq> None"
proof -
  have "\<exists>t. foreach handle_platform_section (gchildren n) config = Some t"
    by (rule foreach_total) (simp add: handle_platform_section_def Let_def split: list.split)
  then show ?thesis by (auto simp: platform_handle_section_def Let_def)
qed

lemma root_total: "root_handle_section E n s \<noteq> None"
proof -
  have "\<exists>t. foreach (handle_root_section E) (gchildren n) s = Some t"
    by (rule foreach_total)
      (simp add: handle_root_section_def Let_def split: list.split option.split prod.split)
  then show ?thesis by (auto simp: root_handle_section_def callB_def)
qed

subsubsection \<open>hooks: every hook has a path\<close>

definition hooks_complete :: "clr_oci_config \<Rightarrow> bool" where
  "hooks_complete config \<longleftrightarrow> list_all hook_complete (prestart (hooks (oci config)))
     \<and> list_all hook_complete (poststart (hooks (oci config)))
     \<and> list_all hook_complete (poststop (hooks (oci config)))"

lemma hook_list_selectE:
  assumes "hook_list_select name = Some (get, put)" and "hooks_complete config"
  shows "list_all hook_complete (get (hooks (oci config)))"
    and "list_all hook_complete l \<Longrightarrow>
      hooks_complete (config\<lparr>oci := (oci config)\<lparr>hooks := put l (hooks (oci config))\<rparr>\<rparr>)"
  using assms by (auto simp: hook_list_select_def hooks_complete_def split: if_splits)

lemma hooks_section_step:
  assumes "hooks_complete config" and "err \<longrightarrow> cur = None" and "cur = None"
  shows "\<exists>config' err'. handle_hooks_section n (config, cur, err) = Some (config', None, err')
     \<and> hooks_complete config'"
proof (cases "gchildren n = [] \<or> err \<or> Option.bind (gdata n) hook_list_select = None")
  case True
  with assms show ?thesis by (auto simp: handle_hooks_section_def)
next
  case False
  then obtain get put where sel: "Option.bind (gdata n) hook_list_select = Some (get, put)"
    by auto
  then obtain name where name: "hook_list_select name = Some (get, put)"
    by (auto simp: bind_eq_Some_conv)
  have "walk_ok hook_complete (cur, err, get (hooks (oci config)))"
    using hook_list_selectE(1) [OF name assms(1)] assms(3) by (simp add: walk_ok_def)
  then obtain t where t: "foreach handle_hook (gchildren n) (cur, err, get (hooks (oci config))) = Some t"
    "walk_ok hook_complete t" using hook_walk.walk_total by blast
  obtain c e l where sv: "save_current_hook t = (c, e, l)" by (cases "save_current_hook t")
  have "c = None" using hook_walk.save_closes [of t] sv by simp
  moreover have "list_all hook_complete l"
    using hook_walk.save_ok [OF t(2)] sv by (simp add: walk_ok_def)
  ultimately show ?thesis
    using False sel t(1) sv hook_list_selectE(2) [OF name assms(1)]
    by (simp add: handle_hooks_section_def)
qed

lemma hooks_section_total:
  assumes "hooks_complete config"
  shows "\<exists>b config'. hooks_handle_section n config = Some (b, config') \<and> hooks_complete config'"
proof -
  let ?I = "\<lambda>s. hooks_complete (fst s) \<and> fst (snd s) = None"
  have "\<exists>t. foreach handle_hooks_section (gchildren n) (config, None, False) = Some t \<and> ?I t"
  proof (rule foreach_total_inv)
    fix x and s :: "clr_oci_config \<times> oci_cfg_hook option \<times> bool"
    assume "?I s"
    then show "\<exists>t. handle_hooks_section x s = Some t \<and> ?I t"
      using hooks_section_step [of "fst s" "snd (snd s)" None x] by (cases s) auto
  qed (simp add: assms)
  then show ?thesis by (auto simp: hooks_handle_section_def)
qed

text \<open>Without the invariant on the lists that were there before, the walk still returns.\<close>

lemma hook_walk_returns: "\<exists>t. foreach handle_hook ns s = Some t"
proof (rule foreach_total)
  fix x and s :: "oci_cfg_hook walk"
  show "\<exists>t. handle_hook x s = Some t"
    by (cases s; cases "gdata x") (auto simp: handle_hook_def)
qed

lemma hooks_total: "hooks_handle_section n config \<noteq> None"
proof -
  have "\<exists>t. foreach handle_hooks_section (gchildren n) (config, None, False) = Some t"
  proof (rule foreach_total)
    fix x and s :: "clr_oci_config \<times> oci_cfg_hook option \<times> bool"
    obtain config cur err where s: "s = (config, cur, err)" by (cases s)
    show "\<exists>t. handle_hooks_section x s = Some t"
    proof (cases "Option.bind (gdata x) hook_list_select")
      case (Some gp)
      then obtain get put where "gp = (get, put)" by (cases gp)
      moreover obtain u where "foreach handle_hook (gchildren x) (cur, err, get (hooks (oci config))) = Some u"
        using hook_walk_returns by blast
      ultimately show ?thesis
        using Some by (cases "save_current_hook u") (auto simp: s handle_hooks_section_def)
    qed (simp add: s handle_hooks_section_def)
  qed
  then show ?thesis by (auto simp: hooks_handle_section_def)
qed

subsubsection \<open>mounts and linux\<close>

lemma mounts_section_total:
  assumes "list_all mount_complete (mounts (oci config))"
  shows "\<exists>b config'. mounts_handle_section n config = Some (b, config')
     \<and> list_all mount_complete (mounts (oci config'))"
proof (cases "mounts (oci config) = []")
  case True
  have "walk_ok mount_complete (None, False, mounts (oci config))" using assms by (simp add: walk_ok_def)
  then obtain t where t: "foreach handle_mounts_section (gchildren n) (None, False, mounts (oci config)) = Some t"
    "walk_ok mount_complete t" using mount_walk.walk_total by blast
  then have "walk_ok mount_complete (if fst (snd t) then t else save_current_mount t)"
    using mount_walk.save_ok by simp
  then show ?thesis
    using True t(1) by (auto simp: mounts_handle_section_def walk_ok_def split: prod.splits)
qed (use assms in \<open>auto simp: mounts_handle_section_def intro: exI [of _ True]\<close>)

lemma mounts_total: "mounts_handle_section n config \<noteq> None"
proof (cases "mounts (oci config) = []")
  case True
  then have "list_all mount_complete (mounts (oci config))" by simp
  from mounts_section_total [OF this] show ?thesis by fastforce
qed (simp add: mounts_handle_section_def not_None_eq)

lemma linux_total: "linux_handle_section n config \<noteq> None"
proof -
  let ?I = "walk_ok (\<lambda>_. True)"
  have "\<exists>t. foreach handle_linux_section (gchildren n) (None, False, namespaces (oci config)) = Some t \<and> ?I t"
  proof (rule foreach_total_inv)
    fix x and s :: "oci_cfg_namespace walk"
    assume "?I s"
    then show "\<exists>t. handle_linux_section x s = Some t \<and> ?I t"
      using ns_walk.walk_total [of s "gchildren x"] unfolding handle_linux_section_def by simp blast
  qed (simp add: walk_ok_def list_all_iff)
  then show ?thesis by (auto simp: linux_handle_section_def Let_def split: prod.splits)
qed

subsubsection \<open>vm\<close>

definition vm_there :: "cw \<Rightarrow> bool" where
  "vm_there s \<longleftrightarrow> vm (fst s) \<noteq> None"

lemma vm_path_update_total: "vm_there s \<Longrightarrow> \<exists>t. vm_path_update E upd text s = Some t \<and> vm_there t"
  by (auto simp: vm_path_update_def vm_there_def split: prod.split option.split)

lemma kernel_section_total: "vm_there s \<Longrightarrow> \<exists>t. handle_kernel_section E n s = Some t \<and> vm_there t"
  using vm_path_update_total
  by (cases "gchildren n") (auto simp: handle_kernel_section_def vm_there_def not_None_eq)

lemma vm_section_node_total: "vm_there s \<Longrightarrow> \<exists>t. handle_vm_section E n s = Some t \<and> vm_there t"
proof (cases "gchildren n")
  case (Cons child rest)
  assume "vm_there s"
  moreover from this have "\<exists>t. foreach (handle_kernel_section E) (gchildren n) s = Some t \<and> vm_there t"
    by (rule foreach_total_inv) (rule kernel_section_total)
  ultimately show ?thesis
    using Cons vm_path_update_total [of s E] by (simp add: handle_vm_section_def del: foreach.simps)
qed (simp add: handle_vm_section_def)

lemma vm_total: "vm_handle_section E root (config, w) \<noteq> None"
proof (cases root)
  case (Some n)
  define c where "c = (case vm config of None \<Rightarrow> config\<lparr>vm := Some vm_cfg0\<rparr> | Some _ \<Rightarrow> config)"
  have "vm_there (c, w)" by (simp add: c_def vm_there_def split: option.split)
  then have "\<exists>t. foreach (handle_vm_section E) (gchildren n) (c, w) = Some t \<and> vm_there t"
    by (rule foreach_total_inv) (rule vm_section_node_total)
  then obtain c' w' vmc where "foreach (handle_vm_section E) (gchildren n) (c, w) = Some (c', w')"
    "vm c' = Some vmc" by (auto simp: vm_there_def)
  with Some show ?thesis
    by (simp add: vm_handle_section_def Let_def c_def [symmetric] split: prod.split)
qed (simp add: vm_handle_section_def)

text \<open>What can be wrong with a top-level member of \<^verbatim>\<open>config.json\<close>.\<close>

definition deadly :: "gnode \<Rightarrow> bool" where
  "deadly n \<longleftrightarrow> (gdata n = Some ''ociVersion'' \<or> gdata n = Some ''hostname'') \<and> gchildren n = []
     \<or> gdata n = Some ''process'' \<and> list_ex bad_user (gchildren n)"

lemma run_spec_handler_None:
  "run_spec_handler (start_spec_handlers E) (Some name) n s = None \<longleftrightarrow>
     name = ''process'' \<and> list_ex bad_user (gchildren n)"
proof -
  obtain config w where s: "s = (config, w)" by (cases s)
  show ?thesis
    using annotations_total [of n config] hooks_total [of n config] mounts_total [of n config]
      platform_total [of n config] process_section_None [of n config] root_total [of E n s]
      vm_total [of E "Some n" config w] linux_total [of n config]
    by (auto simp: run_spec_handler_def start_spec_handlers_def pure_handler_def s split: if_splits)
qed

lemma process_config_start_None: "process_config_start E n s = None \<longleftrightarrow> deadly n"
proof (cases "gdata n")
  case (Some name)
  then show ?thesis
    by (cases "gchildren n")
      (auto simp: process_config_start_def deadly_def run_spec_handler_None bind_eq_None_conv)
qed (simp add: process_config_start_def deadly_def)


lemma mount_of_spec_complete: "mount_complete (mount_of_spec ms)"
  by (simp add: mount_complete_def mount_of_spec_def)

subsection \<open>Properties\<close>

text \<open>
  C33. A "mounts" array of objects with a destination, a type, a source and options gives, in
  order, one mount per object: its flags are the union of the options that name a flag, and
  the other options, separated by commas, are its option string (none when every option is a
  flag).
\<close>

theorem mounts_from_config:
  assumes "mounts (oci config) = []"
  shows "mounts_handle_section
     (GNode d (clr_oci_json_parse_aux (JArr (map (\<lambda>ms. JObj (mount_members ms)) mss)) b)) config =
     Some (True, config\<lparr>oci := (oci config)\<lparr>mounts := map mount_of_spec mss\<rparr>\<rparr>)"
proof -
  have nodes: "clr_oci_json_parse_aux (JArr (map (\<lambda>ms. JObj (mount_members ms)) mss)) b =
      concat (map (\<lambda>ns. GNode None [] # ns) (map (\<lambda>ms. parse_members (mount_members ms)) mss))"
    using parse_object_array [of "map mount_members mss"] by (simp add: comp_def)
  have "list_all2 (\<lambda>ns y. object_makes fill_mount mount0 ns y \<and> mount_complete y)
      (map (\<lambda>ms. parse_members (mount_members ms)) mss) (map mount_of_spec mss)"
    using mount_object_makes mount_of_spec_complete by (simp add: list_all2_conv_all_nth)
  from mount_walk.walk_objects [OF this, of None "[]"] obtain t where
    "foreach handle_mounts_section (clr_oci_json_parse_aux (JArr (map (\<lambda>ms. JObj (mount_members ms)) mss)) b)
       (None, False, []) = Some t"
    "save_current_mount t = (None, False, map mount_of_spec mss)" "\<not> fst (snd t)"
    unfolding nodes by auto
  with assms show ?thesis by (simp add: mounts_handle_section_def del: clr_oci_json_parse_aux.simps)
qed

definition data_mount :: mount_spec where
  "data_mount = \<lparr>destination = ''/data'', mount_type = ''ext4'', source = ''/dev/sdb'',
     options = [''nosuid'', ''data=ordered'', ''ro'', ''barrier=1'']\<rparr>"

theorem mounts_from_config_witness:
  "mounts_handle_section
     (GNode (Some ''mounts'') (clr_oci_json_parse_aux (JArr [JObj (mount_members data_mount)]) False)) config0 =
     Some (True, config0\<lparr>oci := oci_cfg0\<lparr>mounts := [mount_of_spec data_mount]\<rparr>\<rparr>)
   \<and> mnt_flags (mount_of_spec data_mount) = 3
   \<and> mnt_opts (mount_of_spec data_mount) = Some ''data=ordered,barrier=1''"
proof -
  have "mounts (oci config0) = []" by (simp add: zeroed)
  from mounts_from_config [OF this, of "Some ''mounts''" "[data_mount]" False] show ?thesis
    by (simp add: zeroed mount_of_spec_def data_mount_def option_flags_def option_text_def
        known_option_def mount_get_flag_value_def mnt_flag_map_def)
qed

text \<open>
  C34. Whatever the document, a mount that is accepted has a destination, a type and a source,
  and a hook that is accepted has a path; neither section kills the process.
\<close>

theorem accepted_objects_are_complete:
  assumes "list_all mount_complete (mounts (oci config))" and "hooks_complete config"
  shows "(\<exists>b config'. mounts_handle_section n config = Some (b, config')
            \<and> list_all mount_complete (mounts (oci config')))
     \<and> (\<exists>b config'. hooks_handle_section n config = Some (b, config') \<and> hooks_complete config')"
  using mounts_section_total [OF assms(1)] hooks_section_total [OF assms(2)] by blast

text \<open>A mount without a source is refused, and the mounts before it are kept.\<close>

definition sourceless :: gnode where
  "sourceless = GNode (Some ''mounts'') (clr_oci_json_parse_aux
     (JArr [JObj (mount_members data_mount), JObj [(''destination'', JString ''/x'')]]) False)"

theorem accepted_objects_are_complete_witness:
  "(\<exists>b config'. mounts_handle_section sourceless config0 = Some (b, config')
      \<and> list_all mount_complete (mounts (oci config')))
   \<and> (\<exists>b config'. hooks_handle_section sourceless config0 = Some (b, config') \<and> hooks_complete config')"
  by (rule accepted_objects_are_complete) (simp_all add: zeroed hooks_complete_def)


end
