(* ===== verification/Network.thy ===== *)
theory Network
  imports Util
begin

text \<open>
  \<^verbatim>\<open>src/network.c\<close>: the QMP client that asks the hypervisor to power down, to stop and to
  continue. A \<^verbatim>\<open>g_socket_receive\<close> that fails replies \<^term>\<open>None\<close>, one that returns 0
  bytes (the hypervisor closed the connection) replies the empty string.
\<close>

definition CLR_OCI_NET_BUF_SIZE :: nat where "CLR_OCI_NET_BUF_SIZE = 2048"

definition CR :: char where "CR = CHR 0x0D"
definition LF :: char where "LF = CHR 0x0A"

definition CLR_OCI_MSG_SEPARATOR :: string where "CLR_OCI_MSG_SEPARATOR = [CR, LF]"

subsection \<open>Receiving\<close>

text \<open>
  The inner loop takes the complete messages off the front of the received bytes. The search
  stops at a NUL byte.
\<close>

function take_messages :: "string \<Rightarrow> string list \<times> string" where
  "take_messages received =
     (case strstr CLR_OCI_MSG_SEPARATOR (cstr_at received 0) of
        None \<Rightarrow> ([], received)
      | Some msg_len \<Rightarrow>
          (case take_messages (drop (msg_len + length CLR_OCI_MSG_SEPARATOR) received) of
             (msgs, rest) \<Rightarrow> (take msg_len received # msgs, rest)))"
  by pat_completeness auto

lemma strstr_bound: "strstr n (cstr_at s 0) = Some i \<Longrightarrow> i + length n \<le> length s"
proof -
  assume "strstr n (cstr_at s 0) = Some i"
  then have "i + length n \<le> length (cstr_at s 0)" by (rule strstr_Some [THEN conjunct1])
  also have "\<dots> \<le> length s" by (simp add: cstr_at_def length_takeWhile_le)
  finally show ?thesis .
qed

termination take_messages
  by (relation "measure length")
    (auto simp: CLR_OCI_MSG_SEPARATOR_def dest!: strstr_bound)

declare take_messages.simps [simp del]

text \<open>
  The outer loop. It ends when the count of messages is exactly the expected one, and goes on
  receiving when it is larger. A failure returns false; a return of 0 bytes leaves no error
  object, whose message is then dereferenced; bytes after the last message fail the assertion
  that everything received was handled.
\<close>

partial_function (option) qmp_recv_loop ::
  "env \<Rightarrow> nat \<Rightarrow> string \<Rightarrow> string list \<Rightarrow> world \<Rightarrow> (bool \<times> string list \<times> world) option" where
  "qmp_recv_loop E expected_count received msgs w =
     (case callS E (SockRecv CLR_OCI_NET_BUF_SIZE) w of
        (None, w) \<Rightarrow> Some (False, msgs, w)
      | (Some chunk, w) \<Rightarrow>
          if chunk = [] then None
          else (case take_messages (received @ chunk) of
                  (new, rest) \<Rightarrow>
                    if length (msgs @ new) = expected_count
                    then (if rest = [] then Some (True, msgs @ new, w) else None)
                    else qmp_recv_loop E expected_count rest (msgs @ new) w))"

text \<open>\<^verbatim>\<open>g_assert (expected_count)\<close>\<close>

definition clr_oci_qmp_msg_recv ::
  "env \<Rightarrow> nat \<Rightarrow> world \<Rightarrow> (bool \<times> string list \<times> world) option" where
  "clr_oci_qmp_msg_recv E expected_count w =
     (if expected_count = 0 then None else qmp_recv_loop E expected_count [] [] w)"

subsection \<open>Checking and sending\<close>

text \<open>
  The member "return" of the response must be an object. The branch that finds members where
  none are expected jumps out with the result still true.
\<close>

definition clr_oci_qmp_check_result :: "env \<Rightarrow> string \<Rightarrow> bool \<Rightarrow> bool" where
  "clr_oci_qmp_check_result E result expect_empty =
     (case json_parse E result of
        Some (JObj members) \<Rightarrow>
          (case map_of members ''return'' of
             Some (JObj ret) \<Rightarrow>
               (let count = length ret; r = True
                in if count \<noteq> 0 \<and> expect_empty then r else True)
           | _ \<Rightarrow> False)
      | _ \<Rightarrow> False)"

definition qmp_capabilities :: string where
  "qmp_capabilities = ''{ \"execute\": \"qmp_capabilities\" }''"

text \<open>
  The first message of the process negotiates the capabilities; the flag is the static
  variable \<^verbatim>\<open>initialised\<close>.
\<close>

definition qmp_initialise :: "env \<Rightarrow> bool \<Rightarrow> world \<Rightarrow> (bool \<times> bool \<times> world) option" where
  "qmp_initialise E initialised w =
     (if initialised then Some (True, initialised, w)
      else do {
        let (size, w) = callI E (SockSend qmp_capabilities) w;
        if size < 0 then Some (False, initialised, w)
        else do {
          (ret, msgs, w) \<leftarrow> clr_oci_qmp_msg_recv E 1 w;
          if \<not> ret then Some (False, initialised, w)
          else (case msgs of
                  [] \<Rightarrow> Some (False, initialised, w)
                | recv_msg # _ \<Rightarrow>
                    if clr_oci_qmp_check_result E recv_msg True then Some (True, True, w)
                    else Some (False, initialised, w))
        }
      })"

definition response_index :: "nat \<Rightarrow> nat option" where
  "response_index expected_resp_count =
     (if expected_resp_count = 1 then Some 0
      else if expected_resp_count = 2 then Some 1
      else if expected_resp_count = 3 then Some 0
      else None)"

text \<open>
  When the command itself cannot be sent, the variable \<^verbatim>\<open>ret\<close> is returned as it is: true
  when the capabilities were negotiated just before, false when they had been earlier.
\<close>

definition clr_oci_qmp_msg_send ::
  "env \<Rightarrow> string \<Rightarrow> nat \<Rightarrow> bool \<Rightarrow> bool \<Rightarrow> world \<Rightarrow> (bool \<times> bool \<times> world) option" where
  "clr_oci_qmp_msg_send E msg expected_resp_count expect_empty initialised w = do {
     let negotiated_now = (\<not> initialised);
     (ret, initialised, w) \<leftarrow> qmp_initialise E initialised w;
     if \<not> ret then Some (False, initialised, w)
     else do {
       let (size, w) = callI E (SockSend msg) w;
       if size < 0 then Some (negotiated_now, initialised, w)
       else if expected_resp_count = 0 then Some (True, initialised, w)
       else do {
         (ret, msgs, w) \<leftarrow> clr_oci_qmp_msg_recv E expected_resp_count w;
         if \<not> ret then Some (False, initialised, w)
         else (case response_index expected_resp_count of
                 None \<Rightarrow> Some (False, initialised, w)
               | Some i \<Rightarrow>
                   if i < length msgs
                   then Some (clr_oci_qmp_check_result E (msgs ! i) expect_empty, initialised, w)
                   else Some (False, initialised, w))
       }
     }
   }"


subsection \<open>The three commands\<close>

definition shutdown_msg :: string where "shutdown_msg = ''{ \"execute\": \"system_powerdown\" }''"
definition pause_msg :: string where "pause_msg = ''{ \"execute\": \"stop\" }''"
definition resume_msg :: string where "resume_msg = ''{ \"execute\": \"cont\" }''"

definition clr_oci_qmp_shutdown :: "env \<Rightarrow> int \<Rightarrow> bool \<Rightarrow> world \<Rightarrow> (bool \<times> bool \<times> world) option" where
  "clr_oci_qmp_shutdown E pid initialised w =
     (if pid = 0 then None else clr_oci_qmp_msg_send E shutdown_msg 3 False initialised w)"

definition clr_oci_qmp_pause :: "env \<Rightarrow> int \<Rightarrow> bool \<Rightarrow> world \<Rightarrow> (bool \<times> bool \<times> world) option" where
  "clr_oci_qmp_pause E pid initialised w =
     (if pid = 0 then None else clr_oci_qmp_msg_send E pause_msg 2 False initialised w)"

definition clr_oci_qmp_resume :: "env \<Rightarrow> int \<Rightarrow> bool \<Rightarrow> world \<Rightarrow> (bool \<times> bool \<times> world) option" where
  "clr_oci_qmp_resume E pid initialised w =
     (if pid = 0 then None else clr_oci_qmp_msg_send E resume_msg 2 False initialised w)"

text \<open>Whatever the welcome message is, the result is true; its contents are only logged.\<close>

definition clr_oci_qmp_check_welcome :: "env \<Rightarrow> world \<Rightarrow> (bool \<times> world) option" where
  "clr_oci_qmp_check_welcome E w = do {
     (ret, msgs, w) \<leftarrow> clr_oci_qmp_msg_recv E 1 w;
     Some (True, w)
   }"

text \<open>The first component says whether there is a connection.\<close>

definition clr_oci_vm_conn_new :: "env \<Rightarrow> cstring \<Rightarrow> int \<Rightarrow> world \<Rightarrow> (bool \<times> world) option" where
  "clr_oci_vm_conn_new E socket_path pid w = do {
     path \<leftarrow> socket_path;
     if pid = 0 then None
     else do {
       let (ok, w) = callB E SockNew w;
       if \<not> ok then Some (False, w)
       else do {
         let (ok, w) = callB E (SockConnect path) w;
         if \<not> ok then Some (False, w)
         else clr_oci_qmp_check_welcome E w
       }
     }
   }"

text \<open>
  A process sends one command, so the flag \<^verbatim>\<open>initialised\<close> is false. Only the shutdown
  guards the release of the connection; the two others release a NULL one, which asserts.
\<close>

definition clr_oci_vm_shutdown :: "env \<Rightarrow> cstring \<Rightarrow> int \<Rightarrow> world \<Rightarrow> (bool \<times> world) option" where
  "clr_oci_vm_shutdown E socket_path pid w = do {
     (conn, w) \<leftarrow> clr_oci_vm_conn_new E socket_path pid w;
     if \<not> conn then Some (False, w)
     else do {
       (ret, _, w) \<leftarrow> clr_oci_qmp_shutdown E pid False w;
       Some (ret, w)
     }
   }"

definition clr_oci_vm_pause :: "env \<Rightarrow> cstring \<Rightarrow> int \<Rightarrow> world \<Rightarrow> (bool \<times> world) option" where
  "clr_oci_vm_pause E socket_path pid w = do {
     (conn, w) \<leftarrow> clr_oci_vm_conn_new E socket_path pid w;
     if \<not> conn then None
     else do {
       (ret, _, w) \<leftarrow> clr_oci_qmp_pause E pid False w;
       Some (ret, w)
     }
   }"

definition clr_oci_vm_resume :: "env \<Rightarrow> cstring \<Rightarrow> int \<Rightarrow> world \<Rightarrow> (bool \<times> world) option" where
  "clr_oci_vm_resume E socket_path pid w = do {
     (conn, w) \<leftarrow> clr_oci_vm_conn_new E socket_path pid w;
     if \<not> conn then None
     else do {
       (ret, _, w) \<leftarrow> clr_oci_qmp_resume E pid False w;
       Some (ret, w)
     }
   }"

subsection \<open>Framing\<close>

definition frame :: "string list \<Rightarrow> string" where
  "frame ms = concat (map (\<lambda>m. m @ CLR_OCI_MSG_SEPARATOR) ms)"

definition clean :: "string \<Rightarrow> bool" where
  "clean m \<longleftrightarrow> CR \<notin> set m \<and> NUL \<notin> set m"

lemma frame_simps [simp]:
  "frame [] = []" "frame (m # ms) = m @ CLR_OCI_MSG_SEPARATOR @ frame ms"
  by (simp_all add: frame_def)

lemma frame_append [simp]: "frame (xs @ ys) = frame xs @ frame ys"
  by (simp add: frame_def)

lemma strstr_separator: "CR \<notin> set m \<Longrightarrow> strstr CLR_OCI_MSG_SEPARATOR (m @ CR # LF # r) = Some (length m)"
  by (induction m) (auto simp: CLR_OCI_MSG_SEPARATOR_def)

lemma strstr_no_separator: "CR \<notin> set m \<Longrightarrow> strstr CLR_OCI_MSG_SEPARATOR (m @ (if b then [CR] else [])) = None"
  by (induction m) (auto simp: CLR_OCI_MSG_SEPARATOR_def CR_def LF_def)

lemma cstr_at_message: "clean m \<Longrightarrow> cstr_at (m @ CR # LF # r) 0 = m @ CR # LF # cstr_at r 0"
  by (induction m) (auto simp: cstr_at_def clean_def CR_def LF_def NUL_def)

lemma cstr_at_tail: "clean m \<Longrightarrow> cstr_at (m @ (if b then [CR] else [])) 0 = m @ (if b then [CR] else [])"
  by (induction m) (auto simp: cstr_at_def clean_def CR_def NUL_def)

text \<open>
  The messages of a stream that was cut anywhere: whole messages, then a part of one that may
  end between the two bytes of the separator.
\<close>

lemma take_messages_frame:
  assumes "list_all clean ms" and "clean m"
  shows "take_messages (frame ms @ m @ (if b then [CR] else [])) = (ms, m @ (if b then [CR] else []))"
  using assms
proof (induction ms)
  case Nil
  then show ?case
    by (subst take_messages.simps)
      (simp add: cstr_at_tail strstr_no_separator clean_def del: split_paired_All)
next
  case (Cons x ms)
  let ?r = "frame ms @ m @ (if b then [CR] else [])"
  have eq: "frame (x # ms) @ m @ (if b then [CR] else []) = x @ CR # LF # ?r"
    by (simp add: CLR_OCI_MSG_SEPARATOR_def)
  have "strstr CLR_OCI_MSG_SEPARATOR (cstr_at (x @ CR # LF # ?r) 0) = Some (length x)"
    using Cons.prems by (simp add: cstr_at_message strstr_separator clean_def)
  moreover have "drop (length x + length CLR_OCI_MSG_SEPARATOR) (x @ CR # LF # ?r) = ?r"
    by (simp add: CLR_OCI_MSG_SEPARATOR_def)
  ultimately show ?case
    using Cons unfolding eq by (subst take_messages.simps) simp
qed

text \<open>Any prefix of a stream of messages has that shape.\<close>

definition cut_of :: "string \<Rightarrow> string list \<Rightarrow> string list \<Rightarrow> string \<Rightarrow> bool \<Rightarrow> bool" where
  "cut_of s ms ms1 m b \<longleftrightarrow> s = frame ms1 @ m @ (if b then [CR] else []) \<and> prefix ms1 ms \<and> clean m
     \<and> (if s = frame ms then ms1 = ms \<and> m = [] \<and> \<not> b else length ms1 < length ms)"

lemma cut_of_Cons:
  assumes "cut_of s ms ms1 m b"
  shows "cut_of (x @ CR # LF # s) (x # ms) (x # ms1) m b"
proof -
  have eq: "(x @ CR # LF # s = frame (x # ms)) \<longleftrightarrow> s = frame ms"
    by (simp add: CLR_OCI_MSG_SEPARATOR_def)
  have fr: "frame (x # ms1) = x @ CR # LF # frame ms1" by (simp add: CLR_OCI_MSG_SEPARATOR_def)
  from assms have s: "s = frame ms1 @ m @ (if b then [CR] else [])" and p: "prefix ms1 ms" and "clean m"
    and len: "if s = frame ms then ms1 = ms \<and> m = [] \<and> \<not> b else length ms1 < length ms"
    unfolding cut_of_def by blast+
  show ?thesis
    unfolding cut_of_def eq
  proof (intro conjI)
    show "x @ CR # LF # s = frame (x # ms1) @ m @ (if b then [CR] else [])"
      unfolding fr by (subst s) simp
    show "if s = frame ms then x # ms1 = x # ms \<and> m = [] \<and> \<not> b else length (x # ms1) < length (x # ms)"
      using len by (cases "s = frame ms") simp_all
  qed (simp_all add: p \<open>clean m\<close>)
qed

lemma prefix_of_frame:
  assumes "prefix s (frame ms)" and "list_all clean ms"
  shows "\<exists>ms1 m b. cut_of s ms ms1 m b"
  using assms
proof (induction ms arbitrary: s)
  case Nil
  then show ?case by (intro exI [of _ "[]"] exI [of _ False]) (simp add: clean_def cut_of_def)
next
  case (Cons x ms)
  then have x: "clean x" and p: "prefix s (x @ CR # LF # frame ms)"
    by (simp_all add: CLR_OCI_MSG_SEPARATOR_def)
  consider "prefix s x" | "s = x @ [CR]" | s' where "s = x @ CR # LF # s'" "prefix s' (frame ms)"
  proof -
    from p consider "prefix s x" | t where "s = x @ t" "prefix t (CR # LF # frame ms)"
      unfolding prefix_append by blast
    then show thesis
    proof cases
      case (2 t)
      show thesis
      proof (cases t)
        case Nil
        with 2(1) show thesis using that(1) by simp
      next
        case t: (Cons c t')
        with 2(2) have "c = CR" "prefix t' (LF # frame ms)" by simp_all
        show thesis
        proof (cases t')
          case Nil
          show thesis by (rule that(2)) (simp add: 2(1) t \<open>c = CR\<close> Nil)
        next
          case (Cons c' t'')
          with \<open>prefix t' (LF # frame ms)\<close> have "c' = LF" "prefix t'' (frame ms)" by simp_all
          then show thesis
            by (intro that(3) [of t'']) (simp_all add: 2(1) t \<open>c = CR\<close> Cons)
        qed
      qed
    qed (rule that)
  qed
  then show ?case
  proof cases
    case 1
    then have "clean s" using x by (auto simp: clean_def prefix_def)
    moreover have "s \<noteq> frame (x # ms)"
      using 1 by (auto simp: CLR_OCI_MSG_SEPARATOR_def prefix_def)
    ultimately show ?thesis
      unfolding cut_of_def by (intro exI [of _ "[]"] exI [of _ s] exI [of _ False]) simp
  next
    case 2
    then have "s \<noteq> frame (x # ms)" by (simp add: CLR_OCI_MSG_SEPARATOR_def)
    with 2 x show ?thesis
      unfolding cut_of_def by (intro exI [of _ "[]"] exI [of _ x] exI [of _ True]) simp
  next
    case (3 s')
    have "list_all clean ms" using Cons.prems(2) by simp
    from Cons.IH [OF 3(2) this] obtain ms1 m b where "cut_of s' ms ms1 m b" by blast
    from cut_of_Cons [OF this, of x] show ?thesis unfolding 3(1) by blast
  qed
qed


text \<open>The chunks that the socket delivers from a history on, and the history after them.\<close>

abbreviation recv_call :: call where "recv_call \<equiv> SockRecv CLR_OCI_NET_BUF_SIZE"

fun delivers :: "env \<Rightarrow> world \<Rightarrow> string list \<Rightarrow> bool" where
  "delivers E w [] \<longleftrightarrow> True"
| "delivers E w (c # cs) \<longleftrightarrow>
     c \<noteq> [] \<and> sys_str E w recv_call = Some c \<and> delivers E ((recv_call, RStr (Some c)) # w) cs"

definition after_chunks :: "string list \<Rightarrow> world \<Rightarrow> world" where
  "after_chunks cs w = rev (map (\<lambda>c. (recv_call, RStr (Some c))) cs) @ w"

lemma after_chunks_simps [simp]:
  "after_chunks [] w = w"
  "after_chunks (c # cs) w = after_chunks cs ((recv_call, RStr (Some c)) # w)"
  by (simp_all add: after_chunks_def)

lemma delivers_nonempty: "delivers E w cs \<Longrightarrow> concat cs = [] \<Longrightarrow> cs = []"
  by (cases cs) auto

lemma qmp_recv_loop_delivers:
  assumes "delivers E w cs" and "received @ concat cs = frame todo" and "list_all clean todo"
    and "todo \<noteq> []" and "cs \<noteq> []"
  shows "qmp_recv_loop E (length msgs + length todo) received msgs w =
     Some (True, msgs @ todo, after_chunks cs w)"
  using assms
proof (induction cs arbitrary: w received msgs todo)
  case (Cons c cs)
  let ?w = "(recv_call, RStr (Some c)) # w"
  have c: "c \<noteq> []" "sys_str E w recv_call = Some c" "delivers E ?w cs"
    using Cons.prems(1) by simp_all
  have "prefix (received @ c) (frame todo)"
    using Cons.prems(2) [symmetric] by (simp add: prefix_def)
  from prefix_of_frame [OF this Cons.prems(3)] obtain new m b where "cut_of (received @ c) todo new m b"
    by blast
  then have eq: "received @ c = frame new @ m @ (if b then [CR] else [])" and new: "prefix new todo"
    and m: "clean m"
    and len: "if received @ c = frame todo then new = todo \<and> m = [] \<and> \<not> b else length new < length todo"
    unfolding cut_of_def by blast+
  from new obtain todo' where todo: "todo = new @ todo'" by (auto simp: prefix_def)
  have tm: "take_messages (received @ c) = (new, m @ (if b then [CR] else []))"
    unfolding eq using Cons.prems(3) m todo by (intro take_messages_frame) simp_all
  show ?case
  proof (cases "received @ c = frame todo")
    case True
    with Cons.prems(2) have "concat cs = []" by (metis append_assoc append_self_conv concat.simps(2))
    with c(3) have "cs = []" by (rule delivers_nonempty)
    moreover have "new = todo" "m = []" "\<not> b" using len True by simp_all
    ultimately show ?thesis
      using c tm by (subst qmp_recv_loop.simps) (simp add: callS_def)
  next
    case False
    then have less: "length new < length todo" using len by simp
    then have "todo' \<noteq> []" using todo by auto
    have rest: "(m @ (if b then [CR] else [])) @ concat cs = frame todo'"
    proof -
      have "(received @ c) @ concat cs = frame new @ frame todo'" using Cons.prems(2) todo by simp
      then show ?thesis unfolding eq by simp
    qed
    have "cs \<noteq> []" using False Cons.prems(2) by auto
    have "list_all clean todo'" using Cons.prems(3) todo by simp
    from Cons.IH [OF c(3) rest this \<open>todo' \<noteq> []\<close> \<open>cs \<noteq> []\<close>, of "msgs @ new"]
    show ?thesis
      using c tm less todo
      by (subst qmp_recv_loop.simps) (simp add: callS_def add.assoc)
  qed
qed simp

subsection \<open>What the commands do on the socket\<close>

text \<open>What a run appended to the history: the payloads sent, oldest first.\<close>

fun sent :: "world \<Rightarrow> string list" where
  "sent [] = []"
| "sent (x # w) = sent w @ (case x of (SockSend m, RInt n) \<Rightarrow> if n < 0 then [] else [m] | _ \<Rightarrow> [])"

lemma sent_append: "sent (new @ w) = sent w @ sent new"
  by (induction new) simp_all

lemma sent_after_chunks [simp]: "sent (after_chunks cs w) = sent w"
  by (induction cs arbitrary: w) simp_all

text \<open>Receiving sends nothing and only receives.\<close>

abbreviation only_receives :: "world \<Rightarrow> world \<Rightarrow> bool" where
  "only_receives \<equiv> extends_by (\<lambda>c. c = recv_call)"

lemma only_receives_step: "only_receives ((recv_call, r) # w) w' \<Longrightarrow> only_receives w w'"
  by (rule extends_by_step) simp_all

lemma sent_only_receives: "only_receives w w' \<Longrightarrow> sent w' = sent w"
  by (induction rule: extends_by_induct) simp_all

lemma qmp_recv_loop_receives:
  assumes "qmp_recv_loop E n received msgs w = Some r"
  shows "only_receives w (snd (snd r)) \<and> (fst r \<longrightarrow> length (fst (snd r)) = n)"
proof (rule qmp_recv_loop.raw_induct [where P = "\<lambda>E n received msgs w r.
    only_receives w (snd (snd r)) \<and> (fst r \<longrightarrow> length (fst (snd r)) = n)", OF _ assms])
  fix loop E n received msgs w r
  assume IH: "\<And>E n received msgs w r. loop E n received msgs w = Some r \<Longrightarrow>
      only_receives w (snd (snd r)) \<and> (fst r \<longrightarrow> length (fst (snd r)) = n)"
    and body: "(case callS E recv_call w of
        (None, w) \<Rightarrow> Some (False, msgs, w)
      | (Some chunk, w) \<Rightarrow>
          if chunk = [] then None
          else (case take_messages (received @ chunk) of
                  (new, rest) \<Rightarrow>
                    if length (msgs @ new) = n
                    then (if rest = [] then Some (True, msgs @ new, w) else None)
                    else loop E n rest (msgs @ new) w)) = Some r"
  show "only_receives w (snd (snd r)) \<and> (fst r \<longrightarrow> length (fst (snd r)) = n)"
  proof (cases "sys_str E w recv_call")
    case None
    with body show ?thesis
      by (auto simp: callS_def)
  next
    case (Some chunk)
    obtain new rest where tm: "take_messages (received @ chunk) = (new, rest)"
      by (cases "take_messages (received @ chunk)")
    let ?w = "(recv_call, RStr (Some chunk)) # w"
    have "chunk \<noteq> []" using body Some by (simp add: callS_def split: if_splits)
    with body Some tm have
      "(if length (msgs @ new) = n then (if rest = [] then Some (True, msgs @ new, ?w) else None)
        else loop E n rest (msgs @ new) ?w) = Some r"
      by (simp add: callS_def)
    then have "if length (msgs @ new) = n then rest = [] \<and> Some (True, msgs @ new, ?w) = Some r
      else loop E n rest (msgs @ new) ?w = Some r"
      by (cases "length (msgs @ new) = n"; cases "rest = []") simp_all
    then show ?thesis
    proof (cases "length (msgs @ new) = n")
      case True
      with \<open>if length (msgs @ new) = n then _ else _\<close> have "r = (True, msgs @ new, ?w)" by simp
      then show ?thesis using True by simp
    next
      case False
      with \<open>if length (msgs @ new) = n then _ else _\<close> have "loop E n rest (msgs @ new) ?w = Some r"
        by simp
      from IH [OF this] show ?thesis using only_receives_step by blast
    qed
  qed
qed

lemma qmp_msg_recv_receives:
  "clr_oci_qmp_msg_recv E n w = Some (b, ms, w') \<Longrightarrow> only_receives w w' \<and> (b \<longrightarrow> length ms = n)"
  using qmp_recv_loop_receives by (fastforce simp: clr_oci_qmp_msg_recv_def split: if_splits)


text \<open>The calls of the client.\<close>

definition qmp_call :: "call \<Rightarrow> bool" where
  "qmp_call c \<longleftrightarrow> (case c of SockNew \<Rightarrow> True | SockConnect p \<Rightarrow> True | SockSend m \<Rightarrow> True | SockRecv n \<Rightarrow> True | _ \<Rightarrow> False)"

lemma qmp_calls [simp]:
  "qmp_call SockNew" "qmp_call (SockConnect p)" "qmp_call (SockSend m)" "qmp_call (SockRecv n)"
  by (simp_all add: qmp_call_def)

lemma qmp_keeps_files: "qmp_call c \<Longrightarrow> keeps_files c"
  by (simp add: qmp_call_def keeps_files_def split: call.splits)

lemma receives_qmp: "only_receives w w' \<Longrightarrow> extends_by qmp_call w w'"
  by (erule extends_by_mono) simp

text \<open>
  A payload is sent, or it is the last thing that was tried.
\<close>

definition sent_or_failed :: "string \<Rightarrow> world \<Rightarrow> world \<Rightarrow> bool" where
  "sent_or_failed msg w w' \<longleftrightarrow>
     sent w' = sent w @ [msg] \<or> (\<exists>n. hd w' = (SockSend msg, RInt n) \<and> n < 0 \<and> sent w' = sent w)"

lemma qmp_initialise_facts:
  assumes "qmp_initialise E initialised w = Some (b, initialised', w')"
  shows "extends_by qmp_call w w' \<and> (b \<and> \<not> initialised \<longrightarrow> sent w' = sent w @ [qmp_capabilities])
     \<and> (initialised \<longrightarrow> b \<and> w' = w)"
proof (cases initialised)
  case False
  let ?w = "(SockSend qmp_capabilities, RInt (sys_int E w (SockSend qmp_capabilities))) # w"
  show ?thesis
  proof (cases "sys_int E w (SockSend qmp_capabilities) < 0")
    case True
    with False assms show ?thesis by (auto simp: qmp_initialise_def callI_def)
  next
    case sent: False
    with False assms obtain r ms where rc: "clr_oci_qmp_msg_recv E 1 ?w = Some (r, ms, w')"
      by (auto simp: qmp_initialise_def callI_def bind_eq_Some_conv split: if_splits list.splits)
    from qmp_msg_recv_receives [OF this] have o: "only_receives ?w w'" by blast
    have "extends_by qmp_call w ?w" by simp
    with receives_qmp [OF o] have "extends_by qmp_call w w'" by (rule extends_by_trans [rotated])
    moreover have "sent w' = sent w @ [qmp_capabilities]"
      using sent sent_only_receives [OF o] by simp
    ultimately show ?thesis using False by blast
  qed
qed (use assms in \<open>auto simp: qmp_initialise_def\<close>)

lemma qmp_msg_send_facts:
  assumes "clr_oci_qmp_msg_send E msg n expect_empty False w = Some (b, i, w')"
  shows "extends_by qmp_call w w'
     \<and> (b \<longrightarrow> (\<exists>v. sent v = sent w @ [qmp_capabilities] \<and> sent_or_failed msg v w'))"
proof -
  from assms obtain b1 i1 w1 where ini: "qmp_initialise E False w = Some (b1, i1, w1)"
    and rest: "(if \<not> b1 then Some (False, i1, w1)
     else do {
       let (size, w) = callI E (SockSend msg) w1;
       if size < 0 then Some (True, i1, w)
       else if n = 0 then Some (True, i1, w)
       else do {
         (ret, msgs, w) \<leftarrow> clr_oci_qmp_msg_recv E n w;
         if \<not> ret then Some (False, i1, w)
         else (case response_index n of
                 None \<Rightarrow> Some (False, i1, w)
               | Some i \<Rightarrow>
                   if i < length msgs
                   then Some (clr_oci_qmp_check_result E (msgs ! i) expect_empty, i1, w)
                   else Some (False, i1, w))
       }
     }) = Some (b, i, w')"
    by (auto simp: clr_oci_qmp_msg_send_def bind_eq_Some_conv)
  note f = qmp_initialise_facts [OF ini]
  show ?thesis
  proof (cases b1)
    case False
    with rest f show ?thesis by auto
  next
    case True
    let ?w = "(SockSend msg, RInt (sys_int E w1 (SockSend msg))) # w1"
    have e: "extends_by qmp_call w ?w" using f by simp
    have s1: "sent w1 = sent w @ [qmp_capabilities]" using f True by blast
    show ?thesis
    proof (cases "sys_int E w1 (SockSend msg) < 0")
      case neg: True
      with True rest have "w' = ?w" by (simp add: callI_def)
      with e s1 neg show ?thesis unfolding sent_or_failed_def by (intro conjI impI exI [of _ w1]) auto
    next
      case pos: False
      have "only_receives ?w w'"
      proof (cases "n = 0")
        case True
        with pos \<open>b1\<close> rest show ?thesis by (simp add: callI_def)
      next
        case False
        with pos \<open>b1\<close> rest obtain r ms where "clr_oci_qmp_msg_recv E n ?w = Some (r, ms, w')"
          by (auto simp: callI_def bind_eq_Some_conv split: if_splits option.splits)
        then show ?thesis using qmp_msg_recv_receives by blast
      qed
      then have "extends_by qmp_call w w'" "sent w' = sent w1 @ [msg]"
        using extends_by_trans [OF e receives_qmp] sent_only_receives [of ?w w'] pos by simp_all
      with s1 show ?thesis unfolding sent_or_failed_def by (intro conjI impI exI [of _ w1]) auto
    qed
  qed
qed

lemma vm_conn_new_facts:
  assumes "clr_oci_vm_conn_new E path pid w = Some (b, w')"
  shows "extends_by qmp_call w w' \<and> sent w' = sent w"
proof -
  from assms obtain p where p: "path = Some p" "pid \<noteq> 0"
    by (auto simp: clr_oci_vm_conn_new_def bind_eq_Some_conv split: if_splits)
  let ?w1 = "(SockNew, RBool (sys_bool E w SockNew)) # w"
  let ?w2 = "(SockConnect p, RBool (sys_bool E ?w1 (SockConnect p))) # ?w1"
  from assms p consider "w' = ?w1" | "w' = ?w2"
    | r ms where "clr_oci_qmp_msg_recv E 1 ?w2 = Some (r, ms, w')"
    by (auto simp: clr_oci_vm_conn_new_def clr_oci_qmp_check_welcome_def callB_def Let_def
        bind_eq_Some_conv split: if_splits)
  then show ?thesis
  proof cases
    case (3 r ms)
    then have o: "only_receives ?w2 w'" using qmp_msg_recv_receives by blast
    have "extends_by qmp_call w ?w2" by simp
    from extends_by_trans [OF this receives_qmp [OF o]] sent_only_receives [OF o] show ?thesis
      by simp
  qed simp_all
qed


subsection \<open>The contract of the three commands\<close>

locale vm_command =
  fixes op :: "env \<Rightarrow> cstring \<Rightarrow> int \<Rightarrow> world \<Rightarrow> (bool \<times> world) option"
    and msg :: string
  assumes only_qmp: "op E path pid w = Some (b, w') \<Longrightarrow> extends_by qmp_call w w'"
    and success: "op E path pid w = Some (True, w') \<Longrightarrow>
      \<exists>v. sent v = sent w @ [qmp_capabilities] \<and> sent_or_failed msg v w'"
begin

lemma keeps_files: "op E path pid w = Some (b, w') \<Longrightarrow> file_view d w' p = file_view d w p"
  by (rule file_view_extends [OF extends_by_mono [OF only_qmp qmp_keeps_files]])

lemma success_sent:
  "op E path pid w = Some (True, w') \<Longrightarrow>
     sent w' = sent w @ [qmp_capabilities, msg]
     \<or> sent w' = sent w @ [qmp_capabilities] \<and> (\<exists>n. hd w' = (SockSend msg, RInt n) \<and> n < 0)"
  using success unfolding sent_or_failed_def by fastforce

end

interpretation shutdown: vm_command clr_oci_vm_shutdown shutdown_msg
proof
  fix E path pid w b w'
  assume "clr_oci_vm_shutdown E path pid w = Some (b, w')"
  then obtain c w1 where c: "clr_oci_vm_conn_new E path pid w = Some (c, w1)"
    and r: "if c then (\<exists>i. clr_oci_qmp_msg_send E shutdown_msg 3 False False w1 = Some (b, i, w'))
      else \<not> b \<and> w' = w1"
    by (auto simp: clr_oci_vm_shutdown_def clr_oci_qmp_shutdown_def bind_eq_Some_conv split: if_splits)
  from vm_conn_new_facts [OF c] r qmp_msg_send_facts show "extends_by qmp_call w w'"
    by (cases c) (auto intro: extends_by_trans)
next
  fix E path pid w w'
  assume "clr_oci_vm_shutdown E path pid w = Some (True, w')"
  then obtain w1 i where c: "clr_oci_vm_conn_new E path pid w = Some (True, w1)"
    and r: "clr_oci_qmp_msg_send E shutdown_msg 3 False False w1 = Some (True, i, w')"
    by (auto simp: clr_oci_vm_shutdown_def clr_oci_qmp_shutdown_def bind_eq_Some_conv split: if_splits)
  from vm_conn_new_facts [OF c] qmp_msg_send_facts [OF r]
  show "\<exists>v. sent v = sent w @ [qmp_capabilities] \<and> sent_or_failed shutdown_msg v w'" by auto
qed

lemma vm_command_two:
  assumes "op = (\<lambda>E path pid w. do {
     (conn, w) \<leftarrow> clr_oci_vm_conn_new E path pid w;
     if \<not> conn then None
     else do {
       (ret, _, w) \<leftarrow> (if pid = 0 then None else clr_oci_qmp_msg_send E msg 2 False False w);
       Some (ret, w)
     }
   })"
  shows "vm_command op msg"
proof
  have run: "\<exists>w1 i. clr_oci_vm_conn_new E path pid w = Some (True, w1)
      \<and> clr_oci_qmp_msg_send E msg 2 False False w1 = Some (b, i, w')"
    if "op E path pid w = Some (b, w')" for E path pid w b w'
    using that unfolding assms by (auto simp: bind_eq_Some_conv split: if_splits)
  show "extends_by qmp_call w w'" if "op E path pid w = Some (b, w')" for E path pid w b w'
    using run [OF that] vm_conn_new_facts qmp_msg_send_facts by (blast intro: extends_by_trans)
  show "\<exists>v. sent v = sent w @ [qmp_capabilities] \<and> sent_or_failed msg v w'"
    if "op E path pid w = Some (True, w')" for E path pid w w'
  proof -
    from run [OF that] obtain w1 i where "clr_oci_vm_conn_new E path pid w = Some (True, w1)"
      "clr_oci_qmp_msg_send E msg 2 False False w1 = Some (True, i, w')" by blast
    with vm_conn_new_facts qmp_msg_send_facts show ?thesis by fastforce
  qed
qed

interpretation pause: vm_command clr_oci_vm_pause pause_msg
  by (rule vm_command_two) (unfold clr_oci_vm_pause_def clr_oci_qmp_pause_def, rule refl)

interpretation resume: vm_command clr_oci_vm_resume resume_msg
  by (rule vm_command_two) (unfold clr_oci_vm_resume_def clr_oci_qmp_resume_def, rule refl)

subsection \<open>Properties\<close>

text \<open>
  C11. However the hypervisor's messages are cut into chunks on the socket, the client receives
  exactly these messages, in order, and stops after the last one.
\<close>

theorem qmp_recv_any_chunking:
  assumes "delivers E w chunks" and "concat chunks = frame ms" and "list_all clean ms" and "ms \<noteq> []"
  shows "clr_oci_qmp_msg_recv E (length ms) w = Some (True, ms, after_chunks chunks w)"
proof -
  have "chunks \<noteq> []" using assms(2,4) by (auto simp: frame_def CLR_OCI_MSG_SEPARATOR_def)
  from qmp_recv_loop_delivers [OF assms(1) _ assms(3,4) this, of "[]" "[]"] assms(2,4)
  show ?thesis by (simp add: clr_oci_qmp_msg_recv_def)
qed

definition chunked_env :: env where
  "chunked_env = env0\<lparr>sys_str := \<lambda>w c. Some (if w = [] then ''a'' @ [CR] else [LF] @ ''b'' @ [CR, LF])\<rparr>"

theorem qmp_recv_any_chunking_witness:
  "\<exists>w. clr_oci_qmp_msg_recv chunked_env 2 [] = Some (True, [''a'', ''b''], w) \<and> length w = 2"
proof -
  let ?cs = "[''a'' @ [CR], [LF] @ ''b'' @ [CR, LF]]"
  have "delivers chunked_env [] ?cs" by (simp add: chunked_env_def env0_def)
  moreover have "concat ?cs = frame [''a'', ''b'']" by (simp add: CLR_OCI_MSG_SEPARATOR_def)
  moreover have "list_all clean [''a'', ''b'']" by (simp add: clean_def CR_def NUL_def)
  ultimately have "clr_oci_qmp_msg_recv chunked_env (length [''a'', ''b'']) [] =
      Some (True, [''a'', ''b''], after_chunks ?cs [])"
    by (rule qmp_recv_any_chunking) simp
  then show ?thesis by (simp add: numeral_2_eq_2)
qed

text \<open>
  C21. When a shutdown, a pause or a resume reports success, the client has negotiated the
  capabilities and then sent the command of that operation and nothing else, or the last thing
  it did was to fail to send it.
\<close>

theorem vm_command_success:
  assumes "(op, msg) \<in> {(clr_oci_vm_shutdown, shutdown_msg), (clr_oci_vm_pause, pause_msg),
      (clr_oci_vm_resume, resume_msg)}"
    and "op E path pid w = Some (True, w')"
  shows "sent w' = sent w @ [qmp_capabilities, msg]
     \<or> sent w' = sent w @ [qmp_capabilities] \<and> (\<exists>n. hd w' = (SockSend msg, RInt n) \<and> n < 0)"
proof -
  have "vm_command op msg"
    using assms(1) shutdown.vm_command_axioms pause.vm_command_axioms resume.vm_command_axioms by auto
  from vm_command.success_sent [OF this assms(2)] show ?thesis .
qed

text \<open>A hypervisor that answers every message with an empty result, and takes no command.\<close>

definition deaf_env :: env where
  "deaf_env = env0\<lparr>sys_str := \<lambda>w c. Some ([CR, LF]),
     sys_int := \<lambda>w c. if c = SockSend qmp_capabilities then 0 else -1,
     json_parse := \<lambda>s. Some (JObj [(''return'', JObj [])])\<rparr>"

lemma deaf_recv:
  "clr_oci_qmp_msg_recv deaf_env (Suc 0) w = Some (True, [[]], (recv_call, RStr (Some [CR, LF])) # w)"
proof -
  have "clean []" by (simp add: clean_def)
  then show ?thesis
    using qmp_recv_loop_delivers [of deaf_env w "[[CR, LF]]" "[]" "[[]]" "[]"]
    by (simp add: clr_oci_qmp_msg_recv_def deaf_env_def env0_def CLR_OCI_MSG_SEPARATOR_def)
qed

lemma capabilities_not_shutdown: "qmp_capabilities \<noteq> shutdown_msg"
  by (simp add: qmp_capabilities_def shutdown_msg_def)

lemma deaf_simps:
  "sys_bool deaf_env w c = True" "sys_int deaf_env w (SockSend qmp_capabilities) = 0"
  "sys_int deaf_env w (SockSend shutdown_msg) = -1"
  "json_parse deaf_env s = Some (JObj [(''return'', JObj [])])"
  using capabilities_not_shutdown by (simp_all add: deaf_env_def env0_def)

lemma deaf_shutdown:
  "\<exists>w. clr_oci_vm_shutdown deaf_env (Some ''s'') 7 [] = Some (True, w) \<and> sent w = [qmp_capabilities]"
  by (simp add: clr_oci_vm_shutdown_def clr_oci_vm_conn_new_def clr_oci_qmp_check_welcome_def
      clr_oci_qmp_shutdown_def clr_oci_qmp_msg_send_def qmp_initialise_def deaf_recv callI_def callB_def
      clr_oci_qmp_check_result_def deaf_simps)

theorem vm_command_success_witness:
  "\<exists>w. clr_oci_vm_shutdown deaf_env (Some ''s'') 7 [] = Some (True, w)
     \<and> (sent w = [qmp_capabilities, shutdown_msg]
        \<or> sent w = [qmp_capabilities] \<and> (\<exists>n. hd w = (SockSend shutdown_msg, RInt n) \<and> n < 0))"
proof -
  obtain w where w: "clr_oci_vm_shutdown deaf_env (Some ''s'') 7 [] = Some (True, w)"
    using deaf_shutdown by blast
  have "(clr_oci_vm_shutdown, shutdown_msg) \<in> {(clr_oci_vm_shutdown, shutdown_msg),
      (clr_oci_vm_pause, pause_msg), (clr_oci_vm_resume, resume_msg)}" by simp
  from vm_command_success [OF this w] w show ?thesis by auto
qed

text \<open>
  The shutdown can report success without ever having sent the command.
\<close>

theorem lost_shutdown_reported_as_success:
  "\<exists>E w. clr_oci_vm_shutdown E (Some ''s'') 7 [] = Some (True, w) \<and> shutdown_msg \<notin> set (sent w)"
proof -
  from deaf_shutdown capabilities_not_shutdown show ?thesis by fastforce
qed

text \<open>
  A hypervisor that does not accept connections makes a pause or a resume kill the
  runtime, where a shutdown fails.
\<close>

theorem pause_dies_without_hypervisor:
  assumes "pid \<noteq> 0" and "sys_bool E w SockNew"
    and "\<not> sys_bool E ((SockNew, RBool True) # w) (SockConnect path)"
  shows "clr_oci_vm_pause E (Some path) pid w = None \<and> clr_oci_vm_resume E (Some path) pid w = None
     \<and> (\<exists>w'. clr_oci_vm_shutdown E (Some path) pid w = Some (False, w'))"
  using assms
  by (simp add: clr_oci_vm_pause_def clr_oci_vm_resume_def clr_oci_vm_shutdown_def
      clr_oci_vm_conn_new_def callB_def)

theorem pause_dies_without_hypervisor_witness:
  "clr_oci_vm_pause (env0\<lparr>sys_bool := \<lambda>w c. c = SockNew\<rparr>) (Some ''s'') 7 [] = None"
  using pause_dies_without_hypervisor [of 7 "env0\<lparr>sys_bool := \<lambda>w c. c = SockNew\<rparr>" "[]" "''s''"]
  by simp

text \<open>
  The check that a response is empty is never enforced: a response with members passes
  where none are expected.
\<close>

theorem expect_empty_not_enforced:
  "clr_oci_qmp_check_result E result True = clr_oci_qmp_check_result E result False"
  by (simp add: clr_oci_qmp_check_result_def split: option.split json.split)

end
