(* ===== verification/Hypervisor.thy ===== *)
theory Hypervisor
  imports Util
begin

text \<open>
  \<^verbatim>\<open>src/hypervisor.c\<close>: where the hypervisor's command line comes from and how its
  tokens are expanded.
\<close>

definition CLR_OCI_HYPERVISOR_CMDLINE_FILE :: string where
  "CLR_OCI_HYPERVISOR_CMDLINE_FILE = ''hypervisor.args''"

subsection \<open>The UUID and the name of the VM\<close>

definition UUID_MAX :: nat where "UUID_MAX = 37"

definition uuid_pattern :: string where
  "uuid_pattern = ''00000000-0000-0000-0000-000000000000''"

definition hex_digit :: "nat \<Rightarrow> char" where
  "hex_digit n = ''0123456789abcdef'' ! n"

text \<open>\<^verbatim>\<open>"%02x"\<close> of a byte\<close>

definition hex2 :: "char \<Rightarrow> string" where
  "hex2 b = [hex_digit (char_code b div 16), hex_digit (char_code b mod 16)]"

text \<open>One turn of the loop, for one byte; \<^verbatim>\<open>uuid_index\<close> is the length of the string.\<close>

definition uuid_step :: "char \<Rightarrow> string \<Rightarrow> string" where
  "uuid_step b str =
     (if length str < UUID_MAX then
        let str = str @ hex2 b in
        if length str < length uuid_pattern \<and> uuid_pattern ! length str = CHR ''-''
        then str @ ''-'' else str
      else str)"

definition uuid_str :: "string \<Rightarrow> string" where
  "uuid_str uuid = fold uuid_step uuid []"

text \<open>\<^verbatim>\<open>g_strrstr (uuid_str, "-") + 1\<close>\<close>

definition vm_name :: "string \<Rightarrow> string" where
  "vm_name str = rev (takeWhile (\<lambda>c. c \<noteq> CHR ''-'') (rev str))"

subsection \<open>Expansion\<close>

definition cmdline_tokens ::
  "clr_oci_config \<Rightarrow> clr_oci_vm_cfg \<Rightarrow> string \<Rightarrow> string \<Rightarrow> string \<Rightarrow> string \<Rightarrow> (string \<times> cstring) list" where
  "cmdline_tokens config vmc bytes procsock_device console_device uuid =
    [(''@WORKLOAD_DIR@'', Some (rootfs_path (rootfs (oci config)))),
     (''@KERNEL@'', Some (kernel_path vmc)),
     (''@KERNEL_PARAMS@'', kernel_params vmc),
     (''@IMAGE@'', Some (image_path vmc)),
     (''@SIZE@'', Some bytes),
     (''@COMMS_SOCKET@'', Some (comms_path (cstate config))),
     (''@PROCESS_SOCKET@'', Some procsock_device),
     (''@CONSOLE_DEVICE@'', Some console_device),
     (''@NAME@'', Some (vm_name uuid)),
     (''@UUID@'', Some uuid)]"

definition expand_arg :: "(string \<times> cstring) list \<Rightarrow> string \<Rightarrow> string" where
  "expand_arg tokens arg = fold (\<lambda>(token, v) arg. clr_oci_replace_string arg (Some token) v) tokens arg"

text \<open>The first argument is the command, looked up in the path unless it is absolute.\<close>

definition find_command :: "env \<Rightarrow> string \<Rightarrow> world \<Rightarrow> string \<times> world" where
  "find_command E cmd w =
     (if cmd \<noteq> [] \<and> hd cmd = slash then (cmd, w)
      else (case callS E (FindProgram cmd) w of
              (None, w) \<Rightarrow> (cmd, w)
            | (Some found, w) \<Rightarrow> (found, w)))"

definition expand_args :: "env \<Rightarrow> (string \<times> cstring) list \<Rightarrow> string list \<Rightarrow> world \<Rightarrow> string list \<times> world" where
  "expand_args E tokens args w =
     (case args of
        [] \<Rightarrow> ([], w)
      | cmd # rest \<Rightarrow>
          (case find_command E cmd w of
             (cmd, w) \<Rightarrow> (map (expand_arg tokens) (cmd # rest), w)))"

text \<open>
  Without a console, the hypervisor is told to make a socket, and the configuration records
  it. \<^verbatim>\<open>g_file_test\<close> with both flags holds when the file exists.
\<close>

definition console_setup :: "clr_oci_config \<Rightarrow> clr_oci_config \<times> string" where
  "console_setup config =
     (let socket = g_build_path [runtime_path (cstate config), CLR_OCI_CONSOLE_SOCKET] in
      case console config of
        Some c \<Rightarrow>
          if g_utf8_strlen c \<noteq> 0 then (config, ''stdio,id=charconsole0,signal=off'')
          else (config\<lparr>console := Some socket, use_socket_console := True\<rparr>,
                ''socket,path='' @ socket @ '',server,nowait,id=charconsole0,signal=off'')
      | None \<Rightarrow> (config\<lparr>console := Some socket, use_socket_console := True\<rparr>,
                 ''socket,path='' @ socket @ '',server,nowait,id=charconsole0,signal=off''))"

definition nonempty_and :: "env \<Rightarrow> (string \<Rightarrow> call) \<Rightarrow> string \<Rightarrow> world \<Rightarrow> bool \<times> world" where
  "nonempty_and E c path w = (if path = [] then (False, w) else callB E (c path) w)"

definition clr_oci_expand_cmdline ::
  "env \<Rightarrow> clr_oci_config \<Rightarrow> string list \<Rightarrow> world \<Rightarrow> bool \<times> clr_oci_config \<times> string list \<times> world" where
  "clr_oci_expand_cmdline E config args w =
     (case vm config of
        None \<Rightarrow> (False, config, args, w)
      | Some vmc \<Rightarrow>
          (case nonempty_and E Stat (image_path vmc) w of
             (False, w) \<Rightarrow> (False, config, args, w)
           | (True, w) \<Rightarrow>
             (case nonempty_and E FileExists (kernel_path vmc) w of
                (False, w) \<Rightarrow> (False, config, args, w)
              | (True, w) \<Rightarrow>
                (case nonempty_and E FileExists (rootfs_path (rootfs (oci config))) w of
                   (False, w) \<Rightarrow> (False, config, args, w)
                 | (True, w) \<Rightarrow>
                   let (bytes16, w) = callS E RandomUuid w;
                       uuid = uuid_str (fmt_s bytes16);
                       (size, w) = callI E (StatSize (image_path vmc)) w;
                       (config, console_device) = console_setup config;
                       procsock_device =
                         ''socket,id=procsock,path='' @ procsock_path (cstate config) @ '',server,nowait'';
                       (args, w) = expand_args E (cmdline_tokens config vmc (dec_of_int size)
                                     procsock_device console_device uuid) args w
                   in (True, config, args, w)))))"

subsection \<open>The file\<close>

definition clr_oci_get_bundlepath_file :: "cstring \<Rightarrow> cstring \<Rightarrow> cstring" where
  "clr_oci_get_bundlepath_file bundle file =
     (case (bundle, file) of
        (Some b, Some f) \<Rightarrow> if b = [] \<or> f = [] then None else Some (g_build_path [b, f])
      | _ \<Rightarrow> None)"

definition clr_oci_vm_args_file_path :: "env \<Rightarrow> clr_oci_config \<Rightarrow> world \<Rightarrow> cstring \<times> world" where
  "clr_oci_vm_args_file_path E config w =
     (case clr_oci_get_bundlepath_file (bundle_path config) (Some CLR_OCI_HYPERVISOR_CMDLINE_FILE) of
        None \<Rightarrow> (None, w)
      | Some args_file \<Rightarrow>
          (case callB E (FileExists args_file) w of
             (True, w) \<Rightarrow> (Some args_file, w)
           | (False, w) \<Rightarrow>
             let args_file = g_build_path [sysconfdir E, CLR_OCI_HYPERVISOR_CMDLINE_FILE] in
             (case callB E (FileExists args_file) w of
                (True, w) \<Rightarrow> (Some args_file, w)
              | (False, w) \<Rightarrow>
                let args_file = g_build_path [defaultsdir E, CLR_OCI_HYPERVISOR_CMDLINE_FILE] in
                (case callB E (FileExists args_file) w of
                   (True, w) \<Rightarrow> (Some args_file, w)
                 | (False, w) \<Rightarrow> (None, w)))))"

text \<open>The arguments are \<^term>\<open>None\<close> when none could be read.\<close>

definition clr_oci_vm_args_get ::
  "env \<Rightarrow> clr_oci_config \<Rightarrow> world \<Rightarrow> bool \<times> clr_oci_config \<times> string list option \<times> world" where
  "clr_oci_vm_args_get E config w =
     (case clr_oci_vm_args_file_path E config w of
        (args_file, w) \<Rightarrow>
          (case clr_oci_file_to_strv E args_file w of
             (None, w) \<Rightarrow> (False, config, None, w)
           | (Some args, w) \<Rightarrow>
               (case clr_oci_expand_cmdline E config args w of
                  (ret, config, args, w) \<Rightarrow> (ret, config, Some args, w))))"

subsection \<open>Expansion of one argument\<close>

text \<open>A token is a name between two @ signs.\<close>

definition is_token :: "string \<Rightarrow> bool" where
  "is_token t \<longleftrightarrow> (\<exists>x. t = CHR ''@'' # x @ ''@'' \<and> CHR ''@'' \<notin> set x)"

lemma token_unique:
  assumes "is_token t" and "is_token t'" and "CHR ''@'' \<notin> set a" and "CHR ''@'' \<notin> set b"
    and "sublist t' (a @ t @ b)"
  shows "t' = t"
proof -
  from assms(1,2) obtain x x' where t: "t = CHR ''@'' # x @ ''@''" "CHR ''@'' \<notin> set x"
    and t': "t' = CHR ''@'' # x' @ ''@''" "CHR ''@'' \<notin> set x'" by (auto simp: is_token_def)
  from assms(5) obtain c d where eq: "a @ t @ b = c @ t' @ d" by (auto simp: sublist_def)
  have "count_list (a @ t @ b) (CHR ''@'') = 2"
    using assms(3,4) t by (simp add: count_list_0_iff)
  then have "count_list c (CHR ''@'') = 0" unfolding eq t' by simp
  then have "CHR ''@'' \<notin> set c" by (simp add: count_list_0_iff)
  have "a @ CHR ''@'' # x @ CHR ''@'' # b = c @ CHR ''@'' # x' @ CHR ''@'' # d"
    using eq by (simp add: t t')
  with assms(3) \<open>CHR ''@'' \<notin> set c\<close> have "x @ CHR ''@'' # b = x' @ CHR ''@'' # d"
    using delim_unique by metis
  with t(2) t'(2) have "x = x'" using delim_unique by metis
  then show ?thesis by (simp add: t t')
qed

lemma token_needs_at: "is_token t \<Longrightarrow> CHR ''@'' \<notin> set s \<Longrightarrow> \<not> sublist t s"
  by (auto simp: is_token_def sublist_def)

lemma expand_arg_no_token:
  "list_all (is_token \<circ> fst) tokens \<Longrightarrow> CHR ''@'' \<notin> set arg \<Longrightarrow> expand_arg tokens arg = arg"
  by (induction tokens) (auto simp: expand_arg_def replace_string_absent token_needs_at)

lemma expand_arg_one_token:
  assumes "list_all (is_token \<circ> fst) tokens" and "list_all (ascii \<circ> fst) tokens"
    and "list_all (\<lambda>t. length (fst t) \<le> LINE_MAX) tokens" and "distinct (map fst tokens)"
    and "(t, Some v) \<in> set tokens"
    and "CHR ''@'' \<notin> set a" "CHR ''@'' \<notin> set b" "CHR ''@'' \<notin> set v"
  shows "expand_arg tokens (a @ t @ b) = a @ v @ b"
  using assms(1-5)
proof (induction tokens)
  case (Cons tok tokens)
  obtain t' v' where tok: "tok = (t', v')" by (cases tok)
  have "is_token t" using Cons.prems(1,5) by (auto simp: list_all_iff)
  show ?case
  proof (cases "t' = t")
    case True
    with Cons.prems(4,5) tok have v': "v' = Some v" by (auto simp: image_iff)
    have "t \<noteq> []" using \<open>is_token t\<close> by (auto simp: is_token_def)
    moreover have "sublist t (a @ t @ b)" unfolding sublist_def by blast
    moreover have "ascii t" "length t \<le> LINE_MAX" using Cons.prems(2,3) tok True by simp_all
    ultimately obtain a' b' where s: "a @ t @ b = a' @ t @ b'"
      "clr_oci_replace_string (a @ t @ b) (Some t) (Some v) = a' @ v @ b'"
      "\<forall>a'' b''. a @ t @ b = a'' @ t @ b'' \<longrightarrow> length a' \<le> length a''"
      using replace_string_split [of t "a @ t @ b" v] by blast
    have "length a' \<le> length a" using s(3) by blast
    moreover have "prefix a (a @ t @ b)" by simp
    moreover have "prefix a' (a @ t @ b)" by (subst s(1)) simp
    ultimately have "prefix a' a" using prefix_length_prefix by blast
    then have "CHR ''@'' \<notin> set a'" using assms(6) by (auto simp: prefix_def)
    moreover obtain x where x: "t = CHR ''@'' # x" using \<open>is_token t\<close> by (auto simp: is_token_def)
    ultimately have "a = a' \<and> x @ b = x @ b'"
      using delim_unique [of "CHR ''@''" a a' "x @ b" "x @ b'"] assms(6) s(1) by simp
    then have "a' = a \<and> b' = b" by simp
    with s(2) have "clr_oci_replace_string (a @ t @ b) (Some t) (Some v) = a @ v @ b" by simp
    moreover have "expand_arg tokens (a @ v @ b) = a @ v @ b"
      using Cons.prems(1) assms(6-8) by (intro expand_arg_no_token) (simp_all add: list_all_iff)
    ultimately show ?thesis by (simp add: expand_arg_def tok True v')
  next
    case False
    then have "\<not> sublist t' (a @ t @ b)"
      using token_unique [OF \<open>is_token t\<close> _ assms(6,7)] Cons.prems(1) tok by auto
    moreover have "(t, Some v) \<in> set tokens" using Cons.prems(5) False tok by simp
    ultimately show ?thesis
      using Cons tok by (simp add: expand_arg_def replace_string_absent)
  qed
qed simp

lemma cmdline_tokens_ok:
  "list_all (is_token \<circ> fst) (cmdline_tokens c v s p d u)"
  "list_all (ascii \<circ> fst) (cmdline_tokens c v s p d u)"
  "list_all (\<lambda>t. length (fst t) \<le> LINE_MAX) (cmdline_tokens c v s p d u)"
  "distinct (map fst (cmdline_tokens c v s p d u))"
proof -
  have tok: "is_token (CHR ''@'' # x @ ''@'')" if "CHR ''@'' \<notin> set x" for x
    using that by (auto simp: is_token_def)
  show "list_all (is_token \<circ> fst) (cmdline_tokens c v s p d u)"
    using tok [of "''WORKLOAD_DIR''"] tok [of "''KERNEL''"] tok [of "''KERNEL_PARAMS''"]
      tok [of "''IMAGE''"] tok [of "''SIZE''"] tok [of "''COMMS_SOCKET''"] tok [of "''PROCESS_SOCKET''"]
      tok [of "''CONSOLE_DEVICE''"] tok [of "''NAME''"] tok [of "''UUID''"]
    by (simp add: cmdline_tokens_def)
qed (simp_all add: cmdline_tokens_def ascii_def LINE_MAX_def)


subsection \<open>The UUID\<close>

lemma length_16: "length bs = 16 \<Longrightarrow> \<exists>b0 b1 b2 b3 b4 b5 b6 b7 b8 b9 b10 b11 b12 b13 b14 b15.
    bs = [b0, b1, b2, b3, b4, b5, b6, b7, b8, b9, b10, b11, b12, b13, b14, b15]"
  by (simp add: numeral_eq_Suc length_Suc_conv) blast

definition hex :: "string \<Rightarrow> string" where
  "hex bs = concat (map hex2 bs)"

lemma hex_simps [simp]: "hex [] = []" "hex (b # bs) = hex2 b @ hex bs"
  by (simp_all add: hex_def)

lemma uuid_steps:
  "length str < UUID_MAX \<Longrightarrow> length str + 2 < length uuid_pattern \<Longrightarrow> uuid_pattern ! (length str + 2) = CHR ''-'' \<Longrightarrow>
     uuid_step b str = str @ hex2 b @ ''-''"
  "length str < UUID_MAX \<Longrightarrow> length uuid_pattern \<le> length str + 2 \<or> uuid_pattern ! (length str + 2) \<noteq> CHR ''-'' \<Longrightarrow>
     uuid_step b str = str @ hex2 b"
  by (auto simp: uuid_step_def hex2_def Let_def)

lemma uuid_str_format:
  assumes "length bs = 16"
  shows "uuid_str bs = hex (take 4 bs) @ ''-'' @ hex (take 2 (drop 4 bs)) @ ''-'' @ hex (take 2 (drop 6 bs))
     @ ''-'' @ hex (take 2 (drop 8 bs)) @ ''-'' @ hex (drop 10 bs)"
proof -
  obtain b0 b1 b2 b3 b4 b5 b6 b7 b8 b9 b10 b11 b12 b13 b14 b15 where
    bs: "bs = [b0, b1, b2, b3, b4, b5, b6, b7, b8, b9, b10, b11, b12, b13, b14, b15]"
    using length_16 [OF assms] by blast
  have l: "length (hex2 b) = 2" for b by (simp add: hex2_def)
  show ?thesis
    unfolding bs uuid_str_def
    by (simp add: uuid_steps l UUID_MAX_def uuid_pattern_def)
qed

lemma hex_digit_not_dash: "n < 16 \<Longrightarrow> hex_digit n \<noteq> CHR ''-''"
proof -
  assume "n < 16"
  then have "hex_digit n \<in> set ''0123456789abcdef''"
    unfolding hex_digit_def by (intro nth_mem) simp
  then show ?thesis by auto
qed

lemma hex_no_dash: "CHR ''-'' \<notin> set (hex bs)"
proof (induction bs)
  case (Cons b bs)
  have "char_code b div 16 < 16" using nat_of_char_less_256 [of b] by linarith
  moreover have "char_code b mod 16 < 16" by simp
  ultimately show ?case
    using Cons hex_digit_not_dash [of "char_code b div 16"] hex_digit_not_dash [of "char_code b mod 16"]
    by (simp add: hex2_def)
qed simp

lemma vm_name_last: "CHR ''-'' \<notin> set r \<Longrightarrow> vm_name (l @ CHR ''-'' # r) = r"
  by (simp add: vm_name_def takeWhile_append)

subsection \<open>Properties\<close>

text \<open>
  An argument with one token of the command-line file, and no other @ sign, is expanded to
  the text around the token with the token's value in its place; an argument without an @
  sign is left alone.
\<close>

theorem tokens_expanded:
  assumes "(token, Some v) \<in> set (cmdline_tokens config vmc bytes procsock_device console_device uuid)"
    and "CHR ''@'' \<notin> set a" and "CHR ''@'' \<notin> set b" and "CHR ''@'' \<notin> set v"
  shows "expand_arg (cmdline_tokens config vmc bytes procsock_device console_device uuid) (a @ token @ b)
       = a @ v @ b
     \<and> expand_arg (cmdline_tokens config vmc bytes procsock_device console_device uuid) (a @ b) = a @ b"
proof
  note ok = cmdline_tokens_ok [of config vmc bytes procsock_device console_device uuid]
  show "expand_arg (cmdline_tokens config vmc bytes procsock_device console_device uuid) (a @ token @ b)
       = a @ v @ b"
    by (rule expand_arg_one_token [OF ok assms])
  show "expand_arg (cmdline_tokens config vmc bytes procsock_device console_device uuid) (a @ b) = a @ b"
    using assms(2,3) by (intro expand_arg_no_token [OF ok(1)]) simp
qed

theorem tokens_expanded_witness:
  "expand_arg (cmdline_tokens config0 (vm_cfg0\<lparr>kernel_path := ''/boot/k''\<rparr>) ''1'' ''p'' ''c'' ''u'')
     (''-kernel='' @ ''@KERNEL@'' @ '',ro'') = ''-kernel='' @ ''/boot/k'' @ '',ro''"
  by (rule tokens_expanded [THEN conjunct1]) (simp_all add: cmdline_tokens_def)

text \<open>
  The arguments come from the first of three files that exists: the bundle's, the
  system's, the distribution's.
\<close>

theorem args_file_priority:
  assumes "bundle_path config = Some bundle" and "bundle \<noteq> []"
    and files: "files = [g_build_path [bundle, CLR_OCI_HYPERVISOR_CMDLINE_FILE],
      g_build_path [sysconfdir E, CLR_OCI_HYPERVISOR_CMDLINE_FILE],
      g_build_path [defaultsdir E, CLR_OCI_HYPERVISOR_CMDLINE_FILE]]"
    and stable: "\<And>w f. sys_bool E w (FileExists f) \<longleftrightarrow> f \<in> existing"
  shows "fst (clr_oci_vm_args_file_path E config w) = find (\<lambda>f. f \<in> existing) files"
  using assms
  by (simp add: clr_oci_vm_args_file_path_def clr_oci_get_bundlepath_file_def callB_def
      CLR_OCI_HYPERVISOR_CMDLINE_FILE_def Let_def)

theorem args_file_priority_witness:
  "fst (clr_oci_vm_args_file_path
        (env0\<lparr>sys_bool := \<lambda>w c. c = FileExists ''/etc/cor/hypervisor.args''\<rparr>)
        (config0\<lparr>bundle_path := Some ''/b''\<rparr>) []) =
     Some ''/etc/cor/hypervisor.args''"
proof -
  let ?E = "env0\<lparr>sys_bool := \<lambda>w c. c = FileExists ''/etc/cor/hypervisor.args''\<rparr>"
  have "fst (clr_oci_vm_args_file_path ?E (config0\<lparr>bundle_path := Some ''/b''\<rparr>) []) =
     find (\<lambda>f. f \<in> {''/etc/cor/hypervisor.args''})
      [g_build_path [''/b'', CLR_OCI_HYPERVISOR_CMDLINE_FILE],
       g_build_path [sysconfdir ?E, CLR_OCI_HYPERVISOR_CMDLINE_FILE],
       g_build_path [defaultsdir ?E, CLR_OCI_HYPERVISOR_CMDLINE_FILE]]"
    by (rule args_file_priority [OF _ _ refl]) simp_all
  then show ?thesis
    by (simp add: g_build_path_def strip_slashes_def CLR_OCI_HYPERVISOR_CMDLINE_FILE_def env0_def)
qed

text \<open>
  The loop that prints the 16 random bytes never overruns its buffer: it yields the
  canonical 8-4-4-4-12 form of 36 characters, and the VM's name is its last group.
\<close>

theorem uuid_is_canonical:
  assumes "length bs = 16"
  shows "uuid_str bs = hex (take 4 bs) @ ''-'' @ hex (take 2 (drop 4 bs)) @ ''-'' @ hex (take 2 (drop 6 bs))
     @ ''-'' @ hex (take 2 (drop 8 bs)) @ ''-'' @ hex (drop 10 bs)
   \<and> length (uuid_str bs) < UUID_MAX \<and> vm_name (uuid_str bs) = hex (drop 10 bs)"
proof (intro conjI)
  show f: "uuid_str bs = hex (take 4 bs) @ ''-'' @ hex (take 2 (drop 4 bs)) @ ''-'' @ hex (take 2 (drop 6 bs))
     @ ''-'' @ hex (take 2 (drop 8 bs)) @ ''-'' @ hex (drop 10 bs)"
    by (rule uuid_str_format [OF assms])
  have "length (hex xs) = 2 * length xs" for xs by (induction xs) (simp_all add: hex2_def)
  then show "length (uuid_str bs) < UUID_MAX" unfolding f by (simp add: assms UUID_MAX_def)
  have "vm_name (l @ CHR ''-'' # hex (drop 10 bs)) = hex (drop 10 bs)" for l
    by (rule vm_name_last [OF hex_no_dash])
  from this [of "hex (take 4 bs) @ ''-'' @ hex (take 2 (drop 4 bs)) @ ''-'' @ hex (take 2 (drop 6 bs))
     @ ''-'' @ hex (take 2 (drop 8 bs))"]
  show "vm_name (uuid_str bs) = hex (drop 10 bs)" unfolding f by simp
qed

lemma length_16_digits: "length ''0123456789abcdef'' = 16"
  by simp

theorem uuid_is_canonical_witness:
  "uuid_str ''0123456789abcdef'' = ''30313233-3435-3637-3839-616263646566''
   \<and> vm_name (uuid_str ''0123456789abcdef'') = ''616263646566''"
proof -
  note c = uuid_is_canonical [of "''0123456789abcdef''"]
  have "uuid_str ''0123456789abcdef'' = ''30313233-3435-3637-3839-616263646566''"
    using c by (simp add: hex2_def hex_digit_def)
  moreover have "hex (drop 10 ''0123456789abcdef'') = ''616263646566''"
    by (simp add: hex2_def hex_digit_def)
  with c have "vm_name (uuid_str ''0123456789abcdef'') = ''616263646566''" by (metis length_16_digits)
  ultimately show ?thesis by blast
qed

end
