(* ===== verification/Process.thy ===== *)
theory Process
  imports State_File Hypervisor Namespace
begin

text \<open>
  \<^verbatim>\<open>src/process.c\<close>: the launch of the hypervisor as a traced child that is left stopped,
  what the child does before it becomes the hypervisor, and the hooks.
\<close>

subsection \<open>Shells\<close>

definition recognised_shells :: "string list" where
  "recognised_shells = [''sh'', ''bash'', ''zsh'', ''ksh'', ''csh'']"

definition clr_oci_cmd_is_shell :: "cstring \<Rightarrow> bool" where
  "clr_oci_cmd_is_shell cmd =
     (case cmd of
        None \<Rightarrow> False
      | Some c \<Rightarrow> list_ex (\<lambda>shell. shell = c \<or> suffix (slash # shell) c) recognised_shells)"

subsection \<open>In the child\<close>

fun close_fds_loop :: "env \<Rightarrow> int \<Rightarrow> string list \<Rightarrow> world \<Rightarrow> world" where
  "close_fds_loop E dirfd [] w = w"
| "close_fds_loop E dirfd (name # names) w =
     (if name = ''.'' \<or> name = ''..'' then close_fds_loop E dirfd names w
      else let fd = atoi name in
        if fd < 3 then close_fds_loop E dirfd names w
        else if fd = dirfd then close_fds_loop E dirfd names w
        else close_fds_loop E dirfd names (snd (callI E (Close fd) w)))"

definition fd_dir :: string where "fd_dir = ''/proc/self/fd''"

definition clr_oci_close_fds :: "env \<Rightarrow> world \<Rightarrow> bool \<times> world" where
  "clr_oci_close_fds E w =
     (case callB E (DirOpen fd_dir) w of
        (False, w) \<Rightarrow> (False, w)
      | (True, w) \<Rightarrow>
          let names = sys_dir E w fd_dir;
              (dirfd, w) = callI E (DirFd fd_dir) w;
              w = close_fds_loop E dirfd names w;
              (r, w) = callI E (CloseDir fd_dir) w
          in (\<not> r < 0, w))"

text \<open>A \<^verbatim>\<open>dup2\<close> that fails, and a NULL terminal, are assertions.\<close>

definition dup2_or_die :: "env \<Rightarrow> int \<Rightarrow> int \<Rightarrow> world \<Rightarrow> world option" where
  "dup2_or_die E fd n w = (case callI E (Dup2 fd n) w of (r, w) \<Rightarrow> if r \<ge> 0 then Some w else None)"

definition clr_oci_set_child_std_fds :: "env \<Rightarrow> cstring \<Rightarrow> world \<Rightarrow> world option" where
  "clr_oci_set_child_std_fds E tty w = do {
     t \<leftarrow> tty;
     let (fd, w) = callI E (OpenRdwr t) w;
     if fd < 0 then Some w
     else do {
       w \<leftarrow> dup2_or_die E fd 0 w;
       w \<leftarrow> dup2_or_die E fd 1 w;
       w \<leftarrow> dup2_or_die E fd 2 w;
       Some (if fd \<noteq> 0 then snd (callI E (Close fd) w) else w)
     }
   }"

definition clr_oci_setup_child :: "env \<Rightarrow> clr_oci_config \<Rightarrow> world \<Rightarrow> world option" where
  "clr_oci_setup_child E config w =
     (case callI E SetSid w of (_, w) \<Rightarrow>
        (case clr_oci_ns_setup E config w of
           (False, w) \<Rightarrow> Some w
         | (True, w) \<Rightarrow>
             (case callI E PtraceTraceme w of (r, w) \<Rightarrow>
                if r < 0 then Some w
                else
                  let w = (if detached_mode config then w else snd (clr_oci_close_fds E w))
                  in if use_socket_console config then Some w
                     else clr_oci_set_child_std_fds E (console config) w)))"

subsection \<open>Launch\<close>

text \<open>
  A spawn replies with the process id, positive when it succeeded. The wait must return that
  process, stopped by \<^verbatim>\<open>SIGTRAP\<close>; on every other outcome, and when the detach fails, the
  function jumps out with the result of the spawn, which is true.
\<close>

definition clr_oci_vm_launch :: "env \<Rightarrow> clr_oci_config \<Rightarrow> world \<Rightarrow> bool \<times> clr_oci_config \<times> world" where
  "clr_oci_vm_launch E config w =
     (case clr_oci_vm_args_get E config w of
        (ret, config, args, w) \<Rightarrow>
          (case (ret, args) of
             (True, Some argv) \<Rightarrow>
               (case callI E (Spawn (rootfs_path (rootfs (oci config))) argv) w of (pid, w) \<Rightarrow>
                  if pid \<le> 0 then (False, config, w)
                  else
                    let config = config\<lparr>cstate := (cstate config)\<lparr>workload_pid := pid\<rparr>\<rparr> in
                    (case callI E (Waitpid pid) w of (r, w) \<Rightarrow>
                       if r \<noteq> pid then (True, config, w)
                       else (case callI E (WaitStopSignal pid) w of (sig, w) \<Rightarrow>
                         if sig < 0 then (True, config, w)
                         else if sig \<noteq> SIGTRAP then (True, config, w)
                         else (case callI E (PtraceDetach pid SIGSTOP) w of (r, w) \<Rightarrow>
                           if r < 0 then (True, config, w)
                           else (case pid_file config of
                                   None \<Rightarrow> (True, config, w)
                                 | Some f \<Rightarrow>
                                     (case clr_oci_create_pidfile E (Some f) pid w of
                                        (ret, w) \<Rightarrow> (ret, config, w)))))))
           | _ \<Rightarrow> (ret, config, w)))"

subsection \<open>Hooks\<close>

definition hook_argv :: "oci_cfg_hook \<Rightarrow> string list" where
  "hook_argv hook = hook_path hook # (case hook_args hook of None \<Rightarrow> [] | Some args \<Rightarrow> args)"

text \<open>The state that a hook reads on its standard input is one line.\<close>

definition hook_state :: "string \<Rightarrow> string" where
  "hook_state state = map (\<lambda>c. if c = CHR 0x0A then CHR '' '' else c) state"

text \<open>
  The pipes of the hook are closed at the end, its standard input only when the state was
  written.
\<close>

definition close_if_open :: "env \<Rightarrow> int \<Rightarrow> world \<Rightarrow> world" where
  "close_if_open E fd w = (if fd \<noteq> - 1 then snd (callI E (Close fd) w) else w)"

definition clr_run_hook :: "env \<Rightarrow> oci_cfg_hook \<Rightarrow> string \<Rightarrow> world \<Rightarrow> bool \<times> world" where
  "clr_run_hook E hook state w =
     (case callI E (SpawnHook (hook_argv hook) (hook_env hook)) w of (pid, w) \<Rightarrow>
        if pid \<le> 0 then (False, w)
        else
          let (std_in, w) = callI E (HookPipe 0) w;
              (std_out, w) = callI E (HookPipe 1) w;
              (std_err, w) = callI E (HookPipe 2) w;
              finish = (\<lambda>w. close_if_open E std_err (close_if_open E std_out w))
          in (case callI E (WriteFd std_in (hook_state state)) w of (r, w) \<Rightarrow>
                if r < 0 then (False, finish w)
                else (case callI E (WriteFd std_in [CHR 0x0A]) w of (r, w) \<Rightarrow>
                  if r < 0 then (False, finish w)
                  else
                    let w = snd (callI E (Close std_in) w)
                    in (case callI E (RunHookLoop pid) w of (hook_exit_code, w) \<Rightarrow>
                          (hook_exit_code = 0, finish w)))))"

fun run_hooks_loop :: "env \<Rightarrow> oci_cfg_hook list \<Rightarrow> string \<Rightarrow> bool \<Rightarrow> world \<Rightarrow> bool \<times> world" where
  "run_hooks_loop E [] state stop_on_failure w = (True, w)"
| "run_hooks_loop E (hook # hs) state stop_on_failure w =
     (case clr_run_hook E hook state w of (ok, w) \<Rightarrow>
        if \<not> ok \<and> stop_on_failure then (False, w)
        else run_hooks_loop E hs state stop_on_failure w)"

definition clr_run_hooks ::
  "env \<Rightarrow> oci_cfg_hook list \<Rightarrow> string \<Rightarrow> bool \<Rightarrow> world \<Rightarrow> bool \<times> world" where
  "clr_run_hooks E hs path stop_on_failure w =
     (if hs = [] then (True, w)
      else (case callB E LoopNew w of
              (False, w) \<Rightarrow> (False, w)
            | (True, w) \<Rightarrow>
                (case callS E (FileGet path) w of
                   (None, w) \<Rightarrow> (False, w)
                 | (Some container_state, w) \<Rightarrow> run_hooks_loop E hs container_state stop_on_failure w)))"

subsection \<open>Running a command in the VM\<close>

text \<open>
  The connection is not implemented: after the arguments were checked the function jumps out
  with the result false, and what follows in the source is unreachable.
\<close>

definition clr_oci_vm_connect :: "clr_oci_config \<Rightarrow> string list \<Rightarrow> bool option" where
  "clr_oci_vm_connect config argv = (if argv = [] then None else Some False)"


subsection \<open>Lemmas\<close>

text \<open>The last component of a path, which may be empty.\<close>

definition last_component :: "string \<Rightarrow> string" where
  "last_component c = rev (takeWhile (\<lambda>x. x \<noteq> slash) (rev c))"

lemma last_component_iff:
  assumes "slash \<notin> set s"
  shows "last_component c = s \<longleftrightarrow> c = s \<or> suffix (slash # s) c"
proof -
  define l r where "l = rev (takeWhile (\<lambda>x. x \<noteq> slash) (rev c))" and
    "r = rev (dropWhile (\<lambda>x. x \<noteq> slash) (rev c))"
  have c: "c = r @ l"
    unfolding l_def r_def by (simp flip: rev_append)
  have l: "slash \<notin> set l" unfolding l_def by (auto dest: set_takeWhileD)
  have r: "r = [] \<or> (\<exists>r'. r = r' @ [slash])"
  proof (cases "dropWhile (\<lambda>x. x \<noteq> slash) (rev c)")
    case (Cons x xs)
    then have "x = slash" using hd_dropWhile [of "\<lambda>x. x \<noteq> slash" "rev c"] by simp
    with Cons show ?thesis unfolding r_def by simp
  qed (simp add: r_def)
  have "last_component c = l" by (simp add: last_component_def l_def)
  moreover have "l = s \<longleftrightarrow> c = s \<or> suffix (slash # s) c" (is "?L \<longleftrightarrow> ?R")
  proof
    assume ?L
    with r c show ?R by (auto simp: suffix_def)
  next
    assume ?R
    then show ?L
    proof
      assume "c = s"
      with assms have "slash \<notin> set r" using c by auto
      with r have "r = []" by auto
      with c \<open>c = s\<close> show ?L by simp
    next
      assume "suffix (slash # s) c"
      then obtain q where "c = q @ slash # s" by (auto simp: suffix_def)
      then have "takeWhile (\<lambda>x. x \<noteq> slash) (rev c) = rev s"
        using assms by (simp add: takeWhile_append)
      then show ?L unfolding l_def by simp
    qed
  qed
  ultimately show ?thesis by simp
qed

fun hook_spawns :: "world \<Rightarrow> string list list" where
  "hook_spawns [] = []"
| "hook_spawns (x # w) = hook_spawns w @ (case fst x of SpawnHook argv envp \<Rightarrow> [argv] | _ \<Rightarrow> [])"

lemma close_if_open_spawns [simp]: "hook_spawns (close_if_open E fd w) = hook_spawns w"
  by (simp add: close_if_open_def callI_def)

lemma close_if_open_keeps [intro]: "extends_by keeps_files w v \<Longrightarrow> extends_by keeps_files w (close_if_open E fd v)"
  by (simp add: close_if_open_def callI_def keeps_files_def)

lemma run_hook_spawns: "hook_spawns (snd (clr_run_hook E hook state w)) = hook_spawns w @ [hook_argv hook]"
  by (auto simp: clr_run_hook_def callI_def Let_def)

lemma run_hooks_loop_spawns:
  "run_hooks_loop E hs state stop w = (b, w') \<Longrightarrow>
   \<exists>n \<le> length hs. hook_spawns w' = hook_spawns w @ map hook_argv (take n hs)
     \<and> (b \<longrightarrow> n = length hs) \<and> (\<not> stop \<longrightarrow> b)"
proof (induction hs arbitrary: w)
  case (Cons hook hs)
  obtain ok w1 where h: "clr_run_hook E hook state w = (ok, w1)" by (cases "clr_run_hook E hook state w")
  with run_hook_spawns [of E hook state w] have s: "hook_spawns w1 = hook_spawns w @ [hook_argv hook]" by simp
  show ?case
  proof (cases "\<not> ok \<and> stop")
    case True
    with Cons.prems h s show ?thesis by (intro exI [of _ 1]) auto
  next
    case False
    with Cons.prems h have "run_hooks_loop E hs state stop w1 = (b, w')" by auto
    from Cons.IH [OF this] s obtain n where "n \<le> length hs"
      "hook_spawns w' = (hook_spawns w @ [hook_argv hook]) @ map hook_argv (take n hs)"
      "b \<longrightarrow> n = length hs" "\<not> stop \<longrightarrow> b" by auto
    then show ?thesis by (intro exI [of _ "Suc n"]) simp
  qed
qed auto

lemma run_hooks_spawns:
  assumes "clr_run_hooks E hs p stop w = (b, w')"
  shows "\<exists>n \<le> length hs. hook_spawns w' = hook_spawns w @ map hook_argv (take n hs) \<and> (b \<longrightarrow> n = length hs)"
proof (cases "hs = []")
  case False
  let ?w1 = "(LoopNew, RBool True) # w"
  show ?thesis
  proof (cases "sys_bool E w LoopNew")
    case True
    show ?thesis
    proof (cases "sys_str E ?w1 (FileGet p)")
      case None
      with assms False True show ?thesis by (auto simp: clr_run_hooks_def callB_def callS_def)
    next
      case (Some c)
      with assms False True have "run_hooks_loop E hs c stop ((FileGet p, RStr (Some c)) # ?w1) = (b, w')"
        by (simp add: clr_run_hooks_def callB_def callS_def)
      from run_hooks_loop_spawns [OF this] show ?thesis by auto
    qed
  qed (use assms False in \<open>auto simp: clr_run_hooks_def callB_def\<close>)
qed (use assms in \<open>auto simp: clr_run_hooks_def\<close>)

lemma run_hooks_keeps_files:
  assumes "clr_run_hooks E hs p stop w = (b, w')"
  shows "extends_by keeps_files w w'"
proof -
  have hook: "extends_by keeps_files v (snd (clr_run_hook E hook state v))" for hook state v
    by (auto simp: clr_run_hook_def callI_def Let_def keeps_files_def intro!: close_if_open_keeps)
  have loop: "run_hooks_loop E hs state stop v = (b, v') \<Longrightarrow> extends_by keeps_files v v'" for state v v'
  proof (induction hs arbitrary: v)
    case (Cons h hs)
    obtain ok v1 where h: "clr_run_hook E h state v = (ok, v1)" by (cases "clr_run_hook E h state v")
    with hook [of v h state] have e: "extends_by keeps_files v v1" by simp
    show ?case
    proof (cases "\<not> ok \<and> stop")
      case True
      with Cons.prems h e show ?thesis by auto
    next
      case False
      with Cons.prems h have "run_hooks_loop E hs state stop v1 = (b, v')" by auto
      from extends_by_trans [OF e Cons.IH [OF this]] show ?thesis .
    qed
  qed auto
  show ?thesis
  proof (cases "hs = [] \<or> \<not> sys_bool E w LoopNew
      \<or> sys_str E ((LoopNew, RBool True) # w) (FileGet p) = None")
    case True
    with assms show ?thesis
      by (auto simp: clr_run_hooks_def callB_def callS_def keeps_files_def split: if_splits bool.splits)
  next
    case False
    then obtain c where "run_hooks_loop E hs c stop
        ((FileGet p, RStr (Some c)) # (LoopNew, RBool True) # w) = (b, w')"
      using assms by (auto simp: clr_run_hooks_def callB_def callS_def)
    from extends_by_trans [OF _ loop [OF this]] show ?thesis by (simp add: keeps_files_def)
  qed
qed

lemma close_fds_loop_closes:
  "closed_fds (close_fds_loop E dirfd names w) =
     rev (filter (\<lambda>fd. 3 \<le> fd \<and> fd \<noteq> dirfd) (map atoi (filter (\<lambda>n. n \<noteq> ''.'' \<and> n \<noteq> ''..'') names)))
     @ closed_fds w"
  by (induction E dirfd names w rule: close_fds_loop.induct) (auto simp: callI_def Let_def)


subsection \<open>Properties\<close>


definition two_hooks :: "oci_cfg_hook list" where
  "two_hooks = [hook0\<lparr>hook_path := ''/bin/a'', hook_args := Some [''a'', ''x'']\<rparr>, hook0\<lparr>hook_path := ''/bin/b''\<rparr>]"


text \<open>
  When the hypervisor was spawned, waited for, found stopped by the trap of its exec and
  detached, it is left stopped, its process id is in the configuration and, when one was asked
  for, in the pid file, whose writing decides the result.
\<close>

theorem vm_launch_leaves_stopped:
  assumes args: "clr_oci_vm_args_get E config w = (True, config1, Some argv, w1)"
    and spawn: "w2 = (Spawn (rootfs_path (rootfs (oci config1))) argv, RInt pid) # w1"
      "sys_int E w1 (Spawn (rootfs_path (rootfs (oci config1))) argv) = pid" "0 < pid"
    and wait: "w3 = (Waitpid pid, RInt pid) # w2" "sys_int E w2 (Waitpid pid) = pid"
    and trap: "w4 = (WaitStopSignal pid, RInt SIGTRAP) # w3" "sys_int E w3 (WaitStopSignal pid) = SIGTRAP"
    and detach: "w5 = (PtraceDetach pid SIGSTOP, RInt r) # w4" "sys_int E w4 (PtraceDetach pid SIGSTOP) = r" "0 \<le> r"
  shows "\<exists>b w'. clr_oci_vm_launch E config w = (b, config1\<lparr>cstate := (cstate config1)\<lparr>workload_pid := pid\<rparr>\<rparr>, w')
     \<and> (case pid_file config1 of
          None \<Rightarrow> b \<and> w' = w5
        | Some f \<Rightarrow> (b, w') = (if f \<noteq> [] \<and> hd f = slash
            then callB E (FileSet f (dec_of_int pid)) w5 else (False, w5)))"
  using assms
  by (cases "pid_file config1")
    (auto simp: clr_oci_vm_launch_def callI_def Let_def SIGTRAP_def clr_oci_create_pidfile_def callB_def)

text \<open>
  When the wait for the spawned child fails, the launch still reports success, without
  detaching the child and without writing the pid file that was asked for.
\<close>

theorem failed_wait_reported_as_success:
  assumes args: "clr_oci_vm_args_get E config w = (True, config1, Some argv, w1)"
    and spawn: "sys_int E w1 (Spawn (rootfs_path (rootfs (oci config1))) argv) = pid" "0 < pid"
    and wait: "sys_int E ((Spawn (rootfs_path (rootfs (oci config1))) argv, RInt pid) # w1) (Waitpid pid) = r"
      "r \<noteq> pid"
  shows "clr_oci_vm_launch E config w =
     (True, config1\<lparr>cstate := (cstate config1)\<lparr>workload_pid := pid\<rparr>\<rparr>,
      (Waitpid pid, RInt r) # (Spawn (rootfs_path (rootfs (oci config1))) argv, RInt pid) # w1)"
  using assms by (simp add: clr_oci_vm_launch_def callI_def)

definition launch_env :: env where
  "launch_env = env0\<lparr>sys_str := \<lambda>w c. (case c of FileGet p \<Rightarrow> Some ''/bin/qemu'' | RandomUuid \<Rightarrow> Some ''0123456789abcdef'' | _ \<Rightarrow> None),
     sys_int := \<lambda>w c. (case c of Spawn d a \<Rightarrow> 7 | Waitpid p \<Rightarrow> 7 | WaitStopSignal p \<Rightarrow> 5 | _ \<Rightarrow> 0)\<rparr>"

definition no_wait_env :: env where
  "no_wait_env = launch_env\<lparr>sys_int := \<lambda>w c. (case c of Spawn d a \<Rightarrow> 7 | Waitpid p \<Rightarrow> -1 | _ \<Rightarrow> 0)\<rparr>"

definition launch_config :: clr_oci_config where
  "launch_config = config0\<lparr>bundle_path := Some ''/b'', pid_file := Some ''/p'', console := Some ''/dev/tty'',
     vm := Some (vm_cfg0\<lparr>image_path := ''/i'', kernel_path := ''/k''\<rparr>),
     oci := oci_cfg0\<lparr>rootfs := \<lparr>rootfs_path = ''/r'', read_only = False\<rparr>\<rparr>\<rparr>"

lemma qemu_arg: "map (expand_arg (cmdline_tokens c v s p d u)) [''/bin/qemu''] = [''/bin/qemu'']"
  using expand_arg_no_token [OF cmdline_tokens_ok(1), of "''/bin/qemu''"] by simp

lemma g_utf8_strlen_tty: "g_utf8_strlen ''/dev/tty'' = 8"
  by (simp add: g_utf8_strlen_def LINE_MAX_def)

lemma launch_args:
  "sys_str E = sys_str launch_env \<Longrightarrow> sys_bool E = sys_bool launch_env \<Longrightarrow>
   \<exists>w. clr_oci_vm_args_get E launch_config [] = (True, launch_config, Some [''/bin/qemu''], w)"
  using qemu_arg
  by (simp add: clr_oci_vm_args_get_def clr_oci_vm_args_file_path_def clr_oci_get_bundlepath_file_def
      launch_config_def zeroed callB_def callS_def callI_def launch_env_def env0_def
      CLR_OCI_HYPERVISOR_CMDLINE_FILE_def clr_oci_file_to_strv_def g_build_path_def strip_slashes_def
      cstr_at_def NUL_def g_strsplit_def clr_oci_expand_cmdline_def nonempty_and_def console_setup_def
      g_utf8_strlen_tty expand_args_def find_command_def)

theorem vm_launch_leaves_stopped_witness:
  "\<exists>b w. clr_oci_vm_launch launch_env launch_config [] =
     (b, launch_config\<lparr>cstate := container_state0\<lparr>workload_pid := 7\<rparr>\<rparr>, w)
     \<and> b \<and> hd w = (FileSet ''/p'' ''7'', RBool True)"
proof -
  obtain w1 where a: "clr_oci_vm_args_get launch_env launch_config [] =
      (True, launch_config, Some [''/bin/qemu''], w1)" using launch_args [of launch_env] by auto
  have "dec_of_int 7 = ''7''" by (simp add: dec_of_int_def dec_of_nat.simps char_of_def bit_Suc_0_iff)
  with vm_launch_leaves_stopped [OF a refl _ _ refl _ refl _ refl, of 7] show ?thesis
    by (auto simp: launch_env_def SIGTRAP_def launch_config_def zeroed callB_def env0_def)
qed

theorem failed_wait_reported_as_success_witness:
  "\<exists>c w. clr_oci_vm_launch no_wait_env launch_config [] = (True, c, w) \<and> hd w = (Waitpid 7, RInt (-1))"
proof -
  obtain w1 where a: "clr_oci_vm_args_get no_wait_env launch_config [] =
      (True, launch_config, Some [''/bin/qemu''], w1)"
    using launch_args [of no_wait_env] by (auto simp: no_wait_env_def)
  from failed_wait_reported_as_success [OF a, of 7 "-1"] show ?thesis by (simp add: no_wait_env_def)
qed

text \<open>
  The child closes every descriptor that its directory of descriptors names, except the
  three standard streams and the descriptor of that directory.
\<close>

theorem close_fds_spares_std_streams:
  assumes "sys_bool E w (DirOpen fd_dir)"
    and "w1 = (DirOpen fd_dir, RBool True) # w"
  shows "closed_fds (snd (clr_oci_close_fds E w)) =
     rev (filter (\<lambda>fd. 3 \<le> fd \<and> fd \<noteq> sys_int E w1 (DirFd fd_dir))
       (map atoi (filter (\<lambda>n. n \<noteq> ''.'' \<and> n \<noteq> ''..'') (sys_dir E w1 fd_dir)))) @ closed_fds w"
  using assms by (simp add: clr_oci_close_fds_def callB_def callI_def Let_def close_fds_loop_closes)

theorem close_fds_spares_std_streams_witness:
  "closed_fds (snd (clr_oci_close_fds (env0\<lparr>sys_dir := \<lambda>w p. [''.'', ''..'', ''0'', ''1'', ''2'', ''3'', ''10''],
     sys_int := \<lambda>w c. 3\<rparr>) [])) = [10]"
proof -
  have "atoi ''0'' = 0" "atoi ''1'' = 1" "atoi ''2'' = 2" "atoi ''3'' = 3" "atoi ''10'' = 10"
    by (simp_all add: atoi_def atol_def strtol_def is_space_def is_digit_def dec_val_def digit_val_def
        LONG_MAX_def LONG_MIN_def to_int32_id Let_def)
  then show ?thesis
    using close_fds_spares_std_streams [of "env0\<lparr>sys_dir := \<lambda>w p. [''.'', ''..'', ''0'', ''1'', ''2'', ''3'', ''10''],
     sys_int := \<lambda>w c. 3\<rparr>" "[]"] by (simp add: env0_def)
qed

text \<open>A command is a shell exactly when its last path component is the name of one.\<close>

theorem is_shell_iff_last_component:
  "clr_oci_cmd_is_shell (Some c) \<longleftrightarrow> last_component c \<in> set recognised_shells"
proof -
  have "slash \<notin> set s \<Longrightarrow> (last_component c = s) = (c = s \<or> suffix (slash # s) c)" for s
    by (rule last_component_iff)
  then show ?thesis
    by (auto simp: clr_oci_cmd_is_shell_def recognised_shells_def)
qed

end
