(* ===== verification/Shell_Quote.thy ===== *)
theory Shell_Quote
  imports Prelude
begin

text \<open>
  \<^verbatim>\<open>g_shell_quote\<close> of GLib, and how a POSIX shell splits a script into commands and
  words, as far as the scripts that the runtime writes need it: blanks, newlines, comments,
  single quotes and backslashes. Any other character that is special to a shell is refused
  outside quotes.
\<close>

definition SQUOTE :: char where "SQUOTE = CHR 0x27"
definition BACKSLASH :: char where "BACKSLASH = CHR 0x5C"
definition NEWLINE :: char where "NEWLINE = CHR 0x0A"

definition quote_char :: "char \<Rightarrow> string" where
  "quote_char c = (if c = SQUOTE then [SQUOTE, BACKSLASH, SQUOTE, SQUOTE] else [c])"

definition g_shell_quote :: "string \<Rightarrow> string" where
  "g_shell_quote s = SQUOTE # concat (map quote_char s) @ [SQUOTE]"

datatype sh_mode = Blank | InWord string | InQuotes string | Escaped string | InComment

definition sh_special :: "char \<Rightarrow> bool" where
  "sh_special c \<longleftrightarrow> c \<in> set ''|&;<>()$`*?[]#~=%!{}'' \<or> c = CHR 0x22 \<or> c = CHR 0x09"

text \<open>The end of a word, and of a command; an empty command is none.\<close>

definition end_word :: "sh_mode \<Rightarrow> string list \<Rightarrow> string list" where
  "end_word m ws = (case m of InWord u \<Rightarrow> ws @ [u] | _ \<Rightarrow> ws)"

definition end_command :: "string list \<Rightarrow> string list list \<Rightarrow> string list list" where
  "end_command ws cmds = (if ws = [] then cmds else cmds @ [ws])"

fun sh_lex :: "sh_mode \<Rightarrow> string list \<Rightarrow> string list list \<Rightarrow> string \<Rightarrow> string list list option" where
  "sh_lex m ws cmds [] =
     (case m of
        InQuotes u \<Rightarrow> None
      | Escaped u \<Rightarrow> None
      | _ \<Rightarrow> Some (end_command (end_word m ws) cmds))"
| "sh_lex (InQuotes u) ws cmds (c # s) =
     (if c = SQUOTE then sh_lex (InWord u) ws cmds s else sh_lex (InQuotes (u @ [c])) ws cmds s)"
| "sh_lex (Escaped u) ws cmds (c # s) = sh_lex (InWord (if c = NEWLINE then u else u @ [c])) ws cmds s"
| "sh_lex InComment ws cmds (c # s) =
     (if c = NEWLINE then sh_lex Blank [] (end_command ws cmds) s else sh_lex InComment ws cmds s)"
| "sh_lex m ws cmds (c # s) =
     (if c = CHR '' '' then sh_lex Blank (end_word m ws) cmds s
      else if c = NEWLINE then sh_lex Blank [] (end_command (end_word m ws) cmds) s
      else
        let u = (case m of InWord u \<Rightarrow> u | _ \<Rightarrow> []) in
        if c = SQUOTE then sh_lex (InQuotes u) ws cmds s
        else if c = BACKSLASH then sh_lex (Escaped u) ws cmds s
        else if c = CHR ''#'' \<and> m = Blank then sh_lex InComment ws cmds s
        else if sh_special c then None
        else sh_lex (InWord (u @ [c])) ws cmds s)"

text \<open>The commands of a script, each the list of its words.\<close>

definition sh_commands :: "string \<Rightarrow> string list list option" where
  "sh_commands script = sh_lex Blank [] [] script"

subsection \<open>A quoted string is one word\<close>

lemma sh_chars [simp]: "SQUOTE \<noteq> BACKSLASH" "SQUOTE \<noteq> CHR '' ''" "SQUOTE \<noteq> NEWLINE" "BACKSLASH \<noteq> CHR '' ''"
  "BACKSLASH \<noteq> NEWLINE" "NEWLINE \<noteq> CHR '' ''" "BACKSLASH \<noteq> SQUOTE" "NEWLINE \<noteq> SQUOTE"
  by (simp_all add: SQUOTE_def BACKSLASH_def NEWLINE_def)

lemma sh_lex_quoted:
  "sh_lex (InQuotes u) ws cmds (concat (map quote_char s) @ SQUOTE # rest) = sh_lex (InWord (u @ s)) ws cmds rest"
proof (induction s arbitrary: u)
  case (Cons c s)
  show ?case
  proof (cases "c = SQUOTE")
    case True
    have "sh_lex (InQuotes u) ws cmds (concat (map quote_char (c # s)) @ SQUOTE # rest) =
        sh_lex (InQuotes (u @ [SQUOTE])) ws cmds (concat (map quote_char s) @ SQUOTE # rest)"
      by (simp add: True quote_char_def Let_def)
    with Cons True show ?thesis by simp
  next
    case False
    then show ?thesis using Cons [of "u @ [c]"] by (simp add: quote_char_def)
  qed
qed simp

lemma sh_lex_quote: "sh_lex Blank ws cmds (g_shell_quote s @ rest) = sh_lex (InWord s) ws cmds rest"
  using sh_lex_quoted [of "[]" ws cmds s rest] by (simp add: g_shell_quote_def)

lemma sh_lex_quotes:
  "args \<noteq> [] \<Longrightarrow> sh_lex Blank ws cmds (g_strjoinv '' '' (map g_shell_quote args) @ NEWLINE # rest) =
     sh_lex Blank [] (cmds @ [ws @ args]) rest"
proof (induction args arbitrary: ws)
  case (Cons a args)
  show ?case
  proof (cases args)
    case Nil
    then show ?thesis by (simp add: sh_lex_quote end_word_def end_command_def)
  next
    case (Cons b bs)
    then have "sh_lex Blank ws cmds (g_strjoinv '' '' (map g_shell_quote (a # args)) @ NEWLINE # rest) =
        sh_lex Blank (ws @ [a]) cmds (g_strjoinv '' '' (map g_shell_quote args) @ NEWLINE # rest)"
      by (simp add: sh_lex_quote end_word_def)
    with Cons.IH [of "ws @ [a]"] Cons show ?thesis by simp
  qed
qed simp

lemma sh_lex_comment:
  "NEWLINE \<notin> set s \<Longrightarrow> sh_lex InComment [] cmds (s @ NEWLINE # rest) = sh_lex Blank [] cmds rest"
  by (induction s) (auto simp: end_command_def)

lemma sh_lex_cd: "sh_lex Blank [] cmds (''cd '' @ rest) = sh_lex Blank [''cd''] cmds rest"
  by (simp add: SQUOTE_def BACKSLASH_def NEWLINE_def sh_special_def end_word_def)

lemma sh_lex_hash: "sh_lex Blank [] cmds (CHR ''#'' # rest) = sh_lex InComment [] cmds rest"
  by (simp add: SQUOTE_def BACKSLASH_def NEWLINE_def)

end
