(* ===== verification/Oci.thy ===== *)
theory Oci
  imports Semver State_File Spec_Handlers Network Process Shell_Quote
begin

text \<open>
  \<^verbatim>\<open>src/oci.c\<close>, \<^verbatim>\<open>src/oci-config.c\<close>: the operations on containers. Each takes the
  configuration and the state that was read from the state file, and returns the configuration
  as it leaves it; \<^term>\<open>None\<close> is the death of the process, or a wait without end.
\<close>

subsection \<open>Configuration and state of an existing container\<close>

definition clr_oci_config_check :: "clr_oci_config \<Rightarrow> bool option" where
  "clr_oci_config_check config =
     (case oci_version (oci config) of
        None \<Rightarrow> Some False
      | Some v \<Rightarrow> do {
          ret \<leftarrow> clr_oci_semver_cmp CLR_OCI_SUPPORTED_SPEC_VERSION v;
          Some (\<not> ret < 0)
        })"

definition clr_oci_config_file_path :: "cstring \<Rightarrow> cstring" where
  "clr_oci_config_file_path bundle =
     (case bundle of
        None \<Rightarrow> None
      | Some b \<Rightarrow> clr_oci_get_bundlepath_file (Some b) (Some CLR_OCI_CONFIG_FILE))"

text \<open>
  A pointer to a state: NULL, or valid, or dangling, as the error path of the next function
  leaves it. Freeing a dangling one is undefined.
\<close>

datatype state_ptr = NoState | Live oci_state | Dangling

definition clr_oci_state_free :: "state_ptr \<Rightarrow> unit option" where
  "clr_oci_state_free p = (case p of Dangling \<Rightarrow> None | _ \<Rightarrow> Some ())"

definition clr_oci_get_config_and_state ::
  "env \<Rightarrow> clr_oci_config \<Rightarrow> world \<Rightarrow> (bool \<times> cstring \<times> clr_oci_config \<times> state_ptr \<times> world) option" where
  "clr_oci_get_config_and_state E config w =
     (case clr_oci_runtime_path_get config of
        (False, config) \<Rightarrow> Some (False, None, config, NoState, w)
      | (True, config) \<Rightarrow>
          (case clr_oci_state_file_get config of
             (False, config) \<Rightarrow> Some (False, None, config, NoState, w)
           | (True, config) \<Rightarrow> do {
               (st, w) \<leftarrow> clr_oci_state_file_read E (Some (state_file_path (cstate config))) w;
               case st of
                 None \<Rightarrow> Some (False, None, config, NoState, w)
               | Some state \<Rightarrow> do {
                   comms \<leftarrow> s_comms_path state;
                   let config = config\<lparr>bundle_path := s_bundle_path state,
                         cstate := (cstate config)\<lparr>workload_pid := s_pid state, status := s_status state,
                                                   comms_path := buf_put PATH_MAX comms\<rparr>\<rparr>;
                   case clr_oci_config_file_path (s_bundle_path state) of
                     None \<Rightarrow> Some (False, None, config, Dangling, w)
                   | Some config_file \<Rightarrow> Some (True, Some config_file, config, Live state, w)
                 }
             }))"

text \<open>
  The elements of the state that the next state file needs; the annotations are not among
  them. Pointers move: the state keeps NULL.
\<close>

definition clr_oci_config_update :: "clr_oci_config \<Rightarrow> oci_state \<Rightarrow> clr_oci_config \<times> oci_state" where
  "clr_oci_config_update config state =
     (let (config, state) =
            (if s_mounts state = [] then (config, state)
             else (config\<lparr>oci := (oci config)\<lparr>mounts := s_mounts state\<rparr>\<rparr>, state\<lparr>s_mounts := []\<rparr>));
          (config, state) =
            (if s_console state = None then (config, state)
             else (config\<lparr>console := s_console state\<rparr>, state\<lparr>s_console := None\<rparr>));
          config = config\<lparr>use_socket_console := s_use_socket_console state\<rparr>;
          (config, state) =
            (if s_vm state = None then (config, state)
             else (config\<lparr>vm := s_vm state\<rparr>, state\<lparr>s_vm := None\<rparr>));
          config =
            (case s_procsock_path state of
               None \<Rightarrow> config
             | Some p \<Rightarrow> config\<lparr>cstate := (cstate config)\<lparr>procsock_path := buf_put PATH_MAX p\<rparr>\<rparr>)
      in (config, state))"

subsection \<open>kill\<close>

definition clr_oci_kill :: "env \<Rightarrow> clr_oci_config \<Rightarrow> oci_state \<Rightarrow> int \<Rightarrow> world \<Rightarrow> bool \<times> clr_oci_config \<times> world" where
  "clr_oci_kill E config state signum w =
     (let last_status = status (cstate config);
          config = set_status OCI_STATUS_STOPPING config
      in case clr_oci_state_file_create E config (s_create_time state) w of
           (False, config, w) \<Rightarrow> (False, config, w)
         | (True, config, w) \<Rightarrow>
             (case callI E (Kill (s_pid state) signum) w of (r, w) \<Rightarrow>
                if r < 0 then
                  (case clr_oci_state_file_create E (set_status last_status config) (s_create_time state) w of
                     (_, config, w) \<Rightarrow> (False, config, w))
                else
                  (case clr_oci_state_file_create E (set_status OCI_STATUS_STOPPED config) (s_create_time state) w of
                     (False, config, w) \<Rightarrow> (False, config, w)
                   | (True, config, w) \<Rightarrow> (True, config, w))))"

definition clr_oci_vm_running :: "env \<Rightarrow> oci_state \<Rightarrow> world \<Rightarrow> bool \<times> world" where
  "clr_oci_vm_running E state w =
     (if s_pid state = 0 then (False, w)
      else (case callI E (Kill (s_pid state) 0) w of (r, w) \<Rightarrow> (r = 0, w)))"

subsection \<open>create\<close>

definition workload_script :: "string \<Rightarrow> string list \<Rightarrow> string" where
  "workload_script cwd args =
     ''#!'' @ CLR_OCI_WORKLOAD_SHELL @ [CHR 0x0A] @
     ''cd '' @ cwd @ [CHR 0x0A] @
     g_strjoinv '' '' args @ [CHR 0x0A]"

text \<open>
  The arguments of the configuration are replaced by their quoted forms. A failed
  \<^verbatim>\<open>chmod\<close> jumps out with the result of the write before it, which is true.
\<close>

definition workload_env :: "env \<Rightarrow> clr_oci_config \<Rightarrow> world \<Rightarrow> bool \<times> world" where
  "workload_env E config w =
     (case proc_env (oci_process (oci config)) of
        None \<Rightarrow> (True, w)
      | Some environ \<Rightarrow>
          callB E (FileSet (g_build_path [rootfs_path (rootfs (oci config)), CLR_OCI_ENV_FILE])
                           (g_strjoinv [CHR 0x0A] environ)) w)"

definition clr_oci_create_container_workload ::
  "env \<Rightarrow> clr_oci_config \<Rightarrow> world \<Rightarrow> (bool \<times> clr_oci_config \<times> world) option" where
  "clr_oci_create_container_workload E config w = do {
     args \<leftarrow> proc_args (oci_process (oci config));
     case vm config of
       None \<Rightarrow> Some (False, config, w)
     | Some vmc \<Rightarrow>
         (case workload_env E config w of
            (False, w) \<Rightarrow> Some (False, config, w)
          | (True, w) \<Rightarrow>
              let path = g_build_path [rootfs_path (rootfs (oci config)), CLR_OCI_WORKLOAD_FILE];
                  cwd = g_shell_quote (proc_cwd (oci_process (oci config)));
                  vmc = vmc\<lparr>workload_path := buf_put PATH_MAX path\<rparr>;
                  quoted = map g_shell_quote args;
                  config = config\<lparr>vm := Some vmc,
                    oci := (oci config)\<lparr>oci_process := (oci_process (oci config))\<lparr>proc_args := Some quoted\<rparr>\<rparr>\<rparr>
              in (case callB E (FileSet (workload_path vmc) (workload_script cwd quoted)) w of
                    (False, w) \<Rightarrow> Some (False, config, w)
                  | (True, w) \<Rightarrow>
                      (case callI E (Chmod (workload_path vmc) CLR_OCI_SCRIPT_MODE) w of (r, w) \<Rightarrow>
                         let ret = True in
                         if r < 0 then Some (ret, config, w) else Some (True, config, w))))
   }"

definition clr_oci_config_file_parse ::
  "env \<Rightarrow> clr_oci_config \<Rightarrow> world \<Rightarrow> (bool \<times> clr_oci_config \<times> world) option" where
  "clr_oci_config_file_parse E config w =
     (case (bundle_path config, clr_oci_config_file_path (bundle_path config)) of
        (Some bundle, Some config_file) \<Rightarrow>
          (case callS E GetCwd w of
             (None, w) \<Rightarrow> Some (False, config, w)
           | (Some cwd, w) \<Rightarrow>
               (case callI E (Chdir bundle) w of (r, w) \<Rightarrow>
                  if r \<noteq> 0 then Some (False, config, w)
                  else
                    (case clr_oci_json_parse E (Some config_file) w of
                       (None, w) \<Rightarrow> Some (False, config, snd (callI E (Chdir cwd) w))
                     | (Some root, w) \<Rightarrow> do {
                         (config, w) \<leftarrow> foreach (process_config_start E) (gchildren root) (config, w);
                         (ret, config, w) \<leftarrow> get_spec_vm_from_cfg_file E (config, w);
                         Some (ret, config, snd (callI E (Chdir cwd) w))
                       })))
      | _ \<Rightarrow> Some (False, config, w))"

text \<open>
  The steps of "create" up to the launch of the VM; the result says whether to go on.
\<close>

definition create_prepare ::
  "env \<Rightarrow> clr_oci_config \<Rightarrow> world \<Rightarrow> (bool \<times> clr_oci_config \<times> world) option" where
  "create_prepare E config w = do {
     (ok, config, w) \<leftarrow> clr_oci_config_file_parse E config w;
     if \<not> ok then Some (False, config, w)
     else do {
       ok \<leftarrow> clr_oci_config_check config;
       if \<not> ok then Some (False, config, w)
       else (case clr_oci_runtime_dir_setup E config w of
               (False, config, w) \<Rightarrow>
                 Some (False, config, snd (callB E (FileExists (runtime_path (cstate config))) w))
             | (True, config, w) \<Rightarrow> do {
                 (ok, config, w) \<leftarrow> clr_oci_handle_mounts E config w;
                 if \<not> ok then Some (False, config, w)
                 else clr_oci_create_container_workload E config w
               })
     }
   }"

definition create_launch :: "env \<Rightarrow> clr_oci_config \<Rightarrow> world \<Rightarrow> bool \<times> clr_oci_config \<times> world" where
  "create_launch E config w =
     (let config = set_status OCI_STATUS_CREATED config in
      case clr_oci_get_iso8601_timestamp E w of
        (None, w) \<Rightarrow> (False, config, w)
      | (Some timestamp, w) \<Rightarrow>
          (case clr_oci_vm_launch E config w of
             (False, config, w) \<Rightarrow> (False, config, w)
           | (True, config, w) \<Rightarrow>
               (case clr_oci_state_file_create E config (Some timestamp) w of
                  (False, config, w) \<Rightarrow> (False, config, w)
                | (True, config, w) \<Rightarrow>
                    (case clr_run_hooks E (prestart (hooks (oci config)))
                            (state_file_path (cstate config)) True w of
                       (_, w) \<Rightarrow> (True, config, w)))))"

definition clr_oci_create :: "env \<Rightarrow> clr_oci_config \<Rightarrow> world \<Rightarrow> (bool \<times> clr_oci_config \<times> world) option" where
  "clr_oci_create E config w = do {
     (ok, config, w) \<leftarrow> create_prepare E config w;
     if \<not> ok then Some (False, config, w)
     else if dry_run_mode config then Some (True, config, w)
     else Some (create_launch E config w)
   }"

subsection \<open>cleanup and stop\<close>

definition clr_oci_cleanup :: "env \<Rightarrow> clr_oci_config \<Rightarrow> world \<Rightarrow> (bool \<times> world) option" where
  "clr_oci_cleanup E config w =
     (case clr_oci_handle_unmounts E config w of
        (False, w) \<Rightarrow> Some (False, w)
      | (True, w) \<Rightarrow> do {
          (ok, w) \<leftarrow> clr_oci_state_file_delete E config w;
          if \<not> ok then Some (False, w)
          else Some (clr_oci_runtime_dir_delete E config w)
        })"

definition clr_oci_stop :: "env \<Rightarrow> clr_oci_config \<Rightarrow> oci_state \<Rightarrow> world \<Rightarrow> (bool \<times> world) option" where
  "clr_oci_stop E config state w = do {
     let (running, w) = clr_oci_vm_running E state w;
     (go_on, w) \<leftarrow> (if running then clr_oci_vm_shutdown E (s_comms_path state) (s_pid state) w
                     else Some (True, w));
     if \<not> go_on then Some (False, w)
     else do {
       (ret, w) \<leftarrow> clr_oci_cleanup E config w;
       let (_, w) = clr_run_hooks E (poststop (hooks (oci config))) (state_file_path (cstate config)) False w;
       Some (ret, w)
     }
   }"


subsection \<open>start\<close>

text \<open>
  While it waits, "start" watches the runtime directory for the process socket, connects to
  it, and ends the main loop when it is closed. The state of the watch: whether the monitor
  still exists, whether the socket is connected, and the flag \<^verbatim>\<open>failed\<close>.
\<close>

record process_watcher =
  monitoring :: bool
  connected :: bool
  failed :: bool

definition handle_process_socket :: "env \<Rightarrow> clr_oci_config \<Rightarrow> world \<Rightarrow> bool \<times> world" where
  "handle_process_socket E config w =
     (if procsock_path (cstate config) = [] then (False, w)
      else (case callB E SockNew w of
              (False, w) \<Rightarrow> (False, w)
            | (True, w) \<Rightarrow> callB E (SockConnect (procsock_path (cstate config))) w))"

definition watcher_runtime_dir ::
  "env \<Rightarrow> clr_oci_config \<Rightarrow> string \<Rightarrow> process_watcher \<Rightarrow> world \<Rightarrow> process_watcher \<times> world" where
  "watcher_runtime_dir E config path data w =
     (if CLR_OCI_PROCESS_SOCKET \<noteq> g_path_get_basename path then (data, w)
      else (case handle_process_socket E config w of
              (True, w) \<Rightarrow> (data\<lparr>monitoring := False, connected := True\<rparr>, w)
            | (False, w) \<Rightarrow> (data\<lparr>monitoring := False, failed := True\<rparr>, w)))"

text \<open>The main loop ends when the connected socket is closed, and only then.\<close>

fun main_loop_run ::
  "env \<Rightarrow> clr_oci_config \<Rightarrow> loop_event list \<Rightarrow> process_watcher \<Rightarrow> world \<Rightarrow> (process_watcher \<times> world) option" where
  "main_loop_run E config [] data w = None"
| "main_loop_run E config (ev # evs) data w =
     (case ev of
        DirChangesDone path \<Rightarrow>
          if monitoring data then
            (case watcher_runtime_dir E config path data w of
               (data, w) \<Rightarrow> main_loop_run E config evs data w)
          else main_loop_run E config evs data w
      | ProcSocketClosed \<Rightarrow>
          if connected data then Some (data, w)
          else main_loop_run E config evs data w
      | _ \<Rightarrow> main_loop_run E config evs data w)"

definition start_wait_setup :: "env \<Rightarrow> clr_oci_config \<Rightarrow> bool \<Rightarrow> world \<Rightarrow> bool \<times> world" where
  "start_wait_setup E config wait w =
     (if \<not> wait then (True, w)
      else (case callB E LoopNew w of
              (False, w) \<Rightarrow> (False, w)
            | (True, w) \<Rightarrow> callB E (MonitorDir (runtime_path (cstate config))) w))"

definition start_wait ::
  "env \<Rightarrow> clr_oci_config \<Rightarrow> world \<Rightarrow> (bool \<times> clr_oci_config \<times> world) option" where
  "start_wait E config w = do {
     (data, w) \<leftarrow> main_loop_run E config (sys_events E w)
                    \<lparr>monitoring = True, connected = False, failed = False\<rparr> w;
     (ret, _, config, state, w) \<leftarrow> clr_oci_get_config_and_state E config w;
     if \<not> ret then Some (False, config, w)
     else if status (cstate config) \<noteq> OCI_STATUS_STOPPED \<and> status (cstate config) \<noteq> OCI_STATUS_STOPPING
     then do {
       (ret, w) \<leftarrow> clr_oci_cleanup E config w;
       Some (if failed data then False else ret, config, w)
     }
     else Some (True, config, w)
   }"

text \<open>\<open>bundle\<close> is the option of the command line, \<^verbatim>\<open>start_data.bundle\<close>.\<close>

definition clr_oci_start ::
  "env \<Rightarrow> clr_oci_config \<Rightarrow> oci_state \<Rightarrow> cstring \<Rightarrow> world \<Rightarrow> (bool \<times> clr_oci_config \<times> world) option" where
  "clr_oci_start E config state bundle w =
     (if s_status state = OCI_STATUS_RUNNING then
        Some (False, config, snd (clr_oci_vm_running E state w))
      else if s_status state \<noteq> OCI_STATUS_CREATED then Some (False, config, w)
      else do {
        let (config, w) = (case bundle of
              None \<Rightarrow> (config, w)
            | Some b \<Rightarrow> (case clr_oci_resolve_path E (Some b) w of
                          (p, w) \<Rightarrow> (config\<lparr>bundle_path := p\<rparr>, w)));
        let pid = workload_pid (cstate config);
        let (tty, w) = callB E IsATty w;
        let wait = (tty \<and> \<not> detached_mode config \<and> \<not> use_socket_console config);
        let (ok, w) = start_wait_setup E config wait w;
        if \<not> ok then Some (False, config, w)
        else do {
          let (r, w) = callI E (Kill pid SIGCONT) w;
          if r < 0 then Some (False, config, w)
          else (case clr_oci_state_file_create E (set_status OCI_STATUS_RUNNING config) (s_create_time state) w of
                  (False, config, w) \<Rightarrow> Some (False, config, w)
                | (True, config, w) \<Rightarrow> do {
                    let (_, w) = clr_run_hooks E (poststart (hooks (oci config)))
                                   (state_file_path (cstate config)) False w;
                    if wait then start_wait E config w
                    else Some (True, config, w)
                  })
        }
      })"

definition clr_oci_run :: "env \<Rightarrow> clr_oci_config \<Rightarrow> world \<Rightarrow> (bool \<times> clr_oci_config \<times> world) option" where
  "clr_oci_run E config w = do {
     (ok, config, w) \<leftarrow> clr_oci_create E config w;
     if \<not> ok then Some (False, config, w)
     else do {
       (st, w) \<leftarrow> clr_oci_state_file_read E (Some (state_file_path (cstate config))) w;
       case st of
         None \<Rightarrow> Some (False, config, w)
       | Some state \<Rightarrow> clr_oci_start E config state None w
     }
   }"

subsection \<open>pause, resume, exec\<close>

definition clr_oci_toggle ::
  "env \<Rightarrow> clr_oci_config \<Rightarrow> oci_state \<Rightarrow> bool \<Rightarrow> world \<Rightarrow> (bool \<times> clr_oci_config \<times> world) option" where
  "clr_oci_toggle E config state pause w =
     (let dest_status = (if pause then OCI_STATUS_PAUSED else OCI_STATUS_RUNNING) in
      if s_status state = dest_status then Some (True, config, w)
      else do {
        (ret, w) \<leftarrow> (if pause then clr_oci_vm_pause else clr_oci_vm_resume)
                      E (s_comms_path state) (s_pid state) w;
        if \<not> ret then Some (False, config, w)
        else Some (clr_oci_state_file_create E (set_status dest_status config) (s_create_time state) w)
      })"

definition clr_oci_exec :: "clr_oci_config \<Rightarrow> oci_state \<Rightarrow> string list \<Rightarrow> bool option" where
  "clr_oci_exec config state argv =
     (if argv = [] then None else clr_oci_vm_connect config argv)"


subsection \<open>Lemmas\<close>

text \<open>Runs that start no hook.\<close>

definition no_hook :: "call \<Rightarrow> bool" where
  "no_hook c \<longleftrightarrow> (case c of SpawnHook _ _ \<Rightarrow> False | _ \<Rightarrow> True)"

lemma no_hook_spawns: "extends_by no_hook w w' \<Longrightarrow> hook_spawns w' = hook_spawns w"
  by (induction rule: extends_by_induct) (auto simp: no_hook_def split: call.splits)

lemma qmp_no_hook: "qmp_call c \<Longrightarrow> no_hook c"
  by (simp add: qmp_call_def no_hook_def split: call.splits)

lemma unmounts_extend:
  assumes "\<And>p. P (Umount p)"
  shows "clr_oci_handle_unmounts E config w = (b, w') \<Longrightarrow> extends_by P w w'"
proof -
  have "handle_unmounts_loop E l w = (b, w') \<Longrightarrow> extends_by P w w'" for l
  proof (induction l arbitrary: w)
    case (Cons m l)
    let ?w1 = "(Umount (mnt_dest m), RInt (sys_int E w (Umount (mnt_dest m)))) # w"
    have e: "extends_by P w ?w1" using assms by simp
    show ?case
    proof (cases "ignore_mount m")
      case False
      show ?thesis
      proof (cases "sys_int E w (Umount (mnt_dest m)) = 0")
        case True
        with Cons.prems False have "handle_unmounts_loop E l ?w1 = (b, w')"
          by (simp add: clr_oci_perform_unmount_def callI_def)
        from extends_by_trans [OF e Cons.IH [OF this]] show ?thesis .
      next
        case f: False
        with Cons.prems False have "w' = ?w1"
          by (simp add: clr_oci_perform_unmount_def callI_def)
        with e show ?thesis by simp
      qed
    qed (use Cons in simp)
  qed simp
  then show "clr_oci_handle_unmounts E config w = (b, w') \<Longrightarrow> extends_by P w w'"
    by (simp add: clr_oci_handle_unmounts_def)
qed

text \<open>A cleanup that succeeds removed the state file; none starts a hook.\<close>

lemma runtime_dir_delete_extends:
  assumes "\<And>c. P (System c)"
  shows "extends_by P w (snd (clr_oci_runtime_dir_delete E config w))"
  using assms by (auto simp: clr_oci_runtime_dir_delete_def clr_oci_rm_rf_def callI_def Let_def)

lemma cleanup_no_hook: "clr_oci_cleanup E config w = Some (b, w') \<Longrightarrow> extends_by no_hook w w'"
proof -
  assume run: "clr_oci_cleanup E config w = Some (b, w')"
  obtain um w1 where u: "clr_oci_handle_unmounts E config w = (um, w1)"
    by (cases "clr_oci_handle_unmounts E config w")
  have e1: "extends_by no_hook w w1" by (rule unmounts_extend [OF _ u]) (simp add: no_hook_def)
  let ?w2 = "(Unlink (state_file_path (cstate config)),
    RInt (sys_int E w1 (Unlink (state_file_path (cstate config))))) # w1"
  have e2: "extends_by no_hook w ?w2" using e1 by (simp add: no_hook_def)
  have "extends_by no_hook ?w2 (snd (clr_oci_runtime_dir_delete E config ?w2))"
    by (rule runtime_dir_delete_extends) (simp add: no_hook_def)
  from extends_by_trans [OF e2 this] run u e1 e2 show ?thesis
    by (auto simp: clr_oci_cleanup_def clr_oci_state_file_delete_def callI_def split: if_splits bool.splits)
qed

lemma cleanup_removes:
  assumes "clr_oci_cleanup E config w = Some (True, w')"
  shows "file_view d w' (state_file_path (cstate config)) = None"
proof -
  let ?p = "state_file_path (cstate config)"
  obtain um w1 where u: "clr_oci_handle_unmounts E config w = (um, w1)"
    by (cases "clr_oci_handle_unmounts E config w")
  let ?w2 = "(Unlink ?p, RInt 0) # w1"
  from assms u have "clr_oci_runtime_dir_delete E config ?w2 = (True, w')"
    by (auto simp: clr_oci_cleanup_def clr_oci_state_file_delete_def callI_def split: if_splits bool.splits)
  with runtime_dir_delete_extends [of keeps_files ?w2 E config] have "extends_by keeps_files ?w2 w'"
    by (simp add: keeps_files_def)
  from file_view_extends [OF this] show ?thesis by (simp add: file_view_unlink)
qed

lemma run_hooks_no_state:
  assumes "sys_str E ((LoopNew, RBool True) # w) (FileGet p) = None" and "clr_run_hooks E hs p stop w = (b, w')"
  shows "extends_by no_hook w w'"
  using assms by (auto simp: clr_run_hooks_def callB_def callS_def no_hook_def split: if_splits bool.splits)

lemma stop_no_hook:
  assumes "reads_back E d (state_file_path (cstate config))"
    and run: "clr_oci_stop E config state w = Some (True, w')"
  shows "hook_spawns w' = hook_spawns w"
proof -
  let ?p = "state_file_path (cstate config)"
  obtain r w1 where r: "clr_oci_vm_running E state w = (r, w1)" by (cases "clr_oci_vm_running E state w")
  have e1: "extends_by no_hook w w1"
    using r by (auto simp: clr_oci_vm_running_def callI_def no_hook_def split: if_splits)
  from run r obtain w2 w3 where
    g: "(if r then clr_oci_vm_shutdown E (s_comms_path state) (s_pid state) w1 else Some (True, w1)) = Some (True, w2)"
    and c: "clr_oci_cleanup E config w2 = Some (True, w3)"
    and h: "w' = snd (clr_run_hooks E (poststop (hooks (oci config))) ?p False w3)"
    by (auto simp: clr_oci_stop_def bind_eq_Some_conv case_prod_beta split: if_splits)
  have e2: "extends_by no_hook w1 w2"
    using g extends_by_mono [OF shutdown.only_qmp qmp_no_hook] by (cases r) auto
  have "sys_str E ((LoopNew, RBool True) # w3) (FileGet ?p) = None"
    using assms(1) cleanup_removes [OF c, of d] by (simp add: reads_back_def)
  from run_hooks_no_state [OF this] h have e4: "extends_by no_hook w3 w'" by (metis prod.collapse)
  from extends_by_trans [OF e1 extends_by_trans [OF e2 extends_by_trans [OF cleanup_no_hook [OF c] e4]]]
  show ?thesis by (rule no_hook_spawns)
qed

text \<open>The wait of "start".\<close>

lemma main_loop_connected:
  "main_loop_run E config evs data w = Some (data', w') \<Longrightarrow>
     (monitoring data \<longrightarrow> \<not> connected data \<and> \<not> failed data) \<and> (connected data \<longrightarrow> \<not> failed data) \<Longrightarrow>
     connected data' \<and> \<not> failed data' \<and> ProcSocketClosed \<in> set evs
     \<and> (connected data \<or> (\<exists>path. DirChangesDone path \<in> set evs \<and> g_path_get_basename path = CLR_OCI_PROCESS_SOCKET))"
proof (induction evs arbitrary: data w)
  case (Cons ev evs)
  show ?case
  proof (cases ev)
    case (DirChangesDone path)
    show ?thesis
    proof (cases "monitoring data")
      case True
      obtain data1 w1 where s: "watcher_runtime_dir E config path data w = (data1, w1)"
        by (cases "watcher_runtime_dir E config path data w")
      with Cons.prems DirChangesDone True have run: "main_loop_run E config evs data1 w1 = Some (data', w')" by simp
      from s Cons.prems(2) True have inv: "(monitoring data1 \<longrightarrow> \<not> connected data1 \<and> \<not> failed data1)
          \<and> (connected data1 \<longrightarrow> \<not> failed data1)"
        and new: "connected data1 \<longrightarrow> g_path_get_basename path = CLR_OCI_PROCESS_SOCKET"
        by (auto simp: watcher_runtime_dir_def split: if_splits prod.splits bool.splits)
      from Cons.IH [OF run inv] new DirChangesDone show ?thesis by auto
    next
      case False
      with Cons.prems DirChangesDone have run: "main_loop_run E config evs data w = Some (data', w')" by simp
      from Cons.IH [OF run Cons.prems(2)] show ?thesis by auto
    qed
  next
    case ProcSocketClosed
    show ?thesis
    proof (cases "connected data")
      case True
      with Cons.prems ProcSocketClosed show ?thesis by simp
    next
      case False
      with Cons.prems ProcSocketClosed have run: "main_loop_run E config evs data w = Some (data', w')" by simp
      from Cons.IH [OF run Cons.prems(2)] show ?thesis by auto
    qed
  qed (use Cons.IH [of data w] Cons.prems in auto)
qed simp

lemma after_failed_connection:
  "monitoring data = False \<Longrightarrow> connected data = False \<Longrightarrow> main_loop_run E config evs data w = None"
proof (induction evs arbitrary: w)
  case (Cons ev evs)
  then show ?case by (cases ev) simp_all
qed simp

lemma workload_script_commands:
  assumes "args \<noteq> []"
  shows "sh_commands (workload_script (g_shell_quote cwd) (map g_shell_quote args)) = Some [[''cd'', cwd], args]"
proof -
  let ?rest = "g_strjoinv '' '' (map g_shell_quote args) @ [NEWLINE]"
  have script: "workload_script (g_shell_quote cwd) (map g_shell_quote args) =
      CHR ''#'' # (''!'' @ CLR_OCI_WORKLOAD_SHELL) @ NEWLINE # ''cd '' @ g_shell_quote cwd @ NEWLINE # ?rest"
    by (simp add: workload_script_def NEWLINE_def)
  have "sh_commands (workload_script (g_shell_quote cwd) (map g_shell_quote args)) =
      sh_lex Blank [''cd''] [] (g_shell_quote cwd @ NEWLINE # ?rest)"
    unfolding script sh_commands_def sh_lex_hash
    by (subst sh_lex_comment) (simp add: CLR_OCI_WORKLOAD_SHELL_def NEWLINE_def, rule sh_lex_cd)
  also have "\<dots> = sh_lex Blank [] [[''cd'', cwd]] ?rest"
    by (simp add: sh_lex_quote end_word_def end_command_def)
  also have "\<dots> = Some [[''cd'', cwd], args]"
    using sh_lex_quotes [OF assms, of "[]" "[[''cd'', cwd]]" "[]"] by (simp add: end_word_def end_command_def)
  finally show ?thesis .
qed

subsection \<open>Properties\<close>

text \<open>
  C18. A POSIX shell that reads the workload script which "create" wrote runs exactly two
  commands: "cd" with the configured directory as its only argument, and the configured command
  with the configured arguments, character for character; nothing in them is expanded, split or
  run by the shell.
\<close>

theorem workload_script_roundtrip:
  assumes "clr_oci_create_container_workload E config w = Some (True, config', w')"
    and "proc_args (oci_process (oci config)) = Some args" and "args \<noteq> []"
  shows "\<exists>vmc script. vm config' = Some vmc \<and> FileSet (workload_path vmc) script \<in> set (calls w')
     \<and> sh_commands script = Some [[''cd'', proc_cwd (oci_process (oci config))], args]"
  using assms workload_script_commands [OF assms(3)]
  by (auto simp: clr_oci_create_container_workload_def callB_def callI_def Let_def
      split: option.splits if_splits bool.splits prod.splits
      intro!: exI [of _ "workload_script (g_shell_quote (proc_cwd (oci_process (oci config)))) (map g_shell_quote args)"])

definition echo_config :: clr_oci_config where
  "echo_config = config0\<lparr>vm := Some vm_cfg0, oci := oci_cfg0\<lparr>
     rootfs := \<lparr>rootfs_path = ''/rootfs'', read_only = False\<rparr>,
     oci_process := (oci_process oci_cfg0)\<lparr>proc_cwd := ''/a b'',
       proc_args := Some [''echo'', [SQUOTE] @ ''; rm -rf $HOME'']\<rparr>\<rparr>\<rparr>"

lemma workload_script_roundtrip_witness:
  "\<exists>config' w'. clr_oci_create_container_workload env0 echo_config [] = Some (True, config', w') \<and>
     (\<exists>path script. FileSet path script \<in> set (calls w') \<and>
       sh_commands script = Some [[''cd'', ''/a b''], [''echo'', [SQUOTE] @ ''; rm -rf $HOME'']])"
proof -
  have args: "proc_args (oci_process (oci echo_config)) = Some [''echo'', [SQUOTE] @ ''; rm -rf $HOME'']"
    and cwd: "proc_cwd (oci_process (oci echo_config)) = ''/a b''"
    by (simp_all add: echo_config_def)
  have "\<exists>config' w'. clr_oci_create_container_workload env0 echo_config [] = Some (True, config', w')"
    by (simp add: clr_oci_create_container_workload_def echo_config_def workload_env_def zeroed callB_def callI_def
        env0_def Let_def)
  then obtain config' w' where run: "clr_oci_create_container_workload env0 echo_config [] = Some (True, config', w')"
    by blast
  from workload_script_roundtrip [OF run args] run cwd show ?thesis by auto
qed

text \<open>
  C19. The wait of "start" for the end of the virtual machine ends only after the process
  socket appeared in the runtime directory, was connected to and was closed. When the
  connection fails the wait never ends, so the check of the flag \<^verbatim>\<open>failed\<close> after it
  is never true.
\<close>

theorem wait_ends_only_connected:
  assumes "main_loop_run E config evs \<lparr>monitoring = True, connected = False, failed = False\<rparr> w = Some (data, w')"
  shows "connected data \<and> \<not> failed data \<and> ProcSocketClosed \<in> set evs
     \<and> (\<exists>path. DirChangesDone path \<in> set evs \<and> g_path_get_basename path = CLR_OCI_PROCESS_SOCKET)"
  using main_loop_connected [OF assms] by simp

definition socket_config :: clr_oci_config where
  "socket_config = config0\<lparr>cstate := container_state0\<lparr>procsock_path := ''/run/web/process.sock''\<rparr>\<rparr>"

lemma process_sock_name: "g_path_get_basename ''/run/web/process.sock'' = CLR_OCI_PROCESS_SOCKET"
  by (simp add: g_path_get_basename_def CLR_OCI_PROCESS_SOCKET_def)

lemma wait_ends_only_connected_witness:
  "\<exists>data w'. main_loop_run env0 socket_config [DirOther, DirChangesDone ''/run/web/process.sock'', ProcSocketClosed]
      \<lparr>monitoring = True, connected = False, failed = False\<rparr> [] = Some (data, w')
     \<and> connected data \<and> \<not> failed data"
proof -
  obtain data w' where run: "main_loop_run env0 socket_config [DirOther, DirChangesDone ''/run/web/process.sock'', ProcSocketClosed]
      \<lparr>monitoring = True, connected = False, failed = False\<rparr> [] = Some (data, w')"
    by (simp add: watcher_runtime_dir_def process_sock_name handle_process_socket_def socket_config_def
        callB_def env0_def)
  from wait_ends_only_connected [OF this] run show ?thesis by blast
qed

text \<open>
  C20. A stop that succeeds runs none of the poststop hooks: they are run after the cleanup
  removed the state file that they are to be given on their input.
\<close>

theorem poststop_hooks_never_run:
  assumes "reads_back E d (state_file_path (cstate config))"
    and "clr_oci_stop E config state w = Some (True, w')"
  shows "hook_spawns w' = hook_spawns w"
  using assms by (rule stop_no_hook)

definition stop_config :: clr_oci_config where
  "stop_config = config0\<lparr>oci := oci_cfg0\<lparr>hooks := \<lparr>prestart = [], poststart = [],
       poststop = [hook0\<lparr>hook_path := ''/bin/cleanup''\<rparr>]\<rparr>\<rparr>,
     cstate := container_state0\<lparr>state_file_path := ''/run/web/state.json'', runtime_path := ''/run/web''\<rparr>\<rparr>"

lemma poststop_hooks_never_run_witness:
  "\<exists>w'. clr_oci_stop (disk_env (\<lambda>_. Some ''state'')) stop_config oci_state0 [] = Some (True, w') \<and> hook_spawns w' = []"
proof -
  let ?E = "disk_env (\<lambda>_. Some ''state'')"
  have "\<exists>w'. clr_oci_stop ?E stop_config oci_state0 [] = Some (True, w')"
    by (simp add: clr_oci_stop_def clr_oci_vm_running_def clr_oci_cleanup_def clr_oci_handle_unmounts_def
        clr_oci_state_file_delete_def clr_oci_runtime_dir_delete_def clr_oci_rm_rf_def callI_def callB_def callS_def
        clr_run_hooks_def stop_config_def disk_env_def env0_def oci_state0_def)
  then obtain w' where run: "clr_oci_stop ?E stop_config oci_state0 [] = Some (True, w')" by blast
  from poststop_hooks_never_run [OF disk_env_ok(2) run] run show ?thesis by auto
qed

end
