(* ===== verification/Command.thy ===== *)
theory Command
  imports Oci
begin

text \<open>
  \<^verbatim>\<open>src/command.c\<close>, \<^verbatim>\<open>src/commands/*.c\<close> and \<^verbatim>\<open>src/priv.c\<close>: the
  sub-commands. \<open>argv\<close> is the list of the arguments after the command's name; a handler
  gets the configuration that \<^verbatim>\<open>main\<close> made and returns the result of the command.
\<close>

definition g_print :: "env \<Rightarrow> string \<Rightarrow> world \<Rightarrow> world" where
  "g_print E s w = snd (callB E (Print s) w)"

lemma prints_g_print [simp]: "prints (g_print E s w) = prints w @ [s]"
  by (simp add: g_print_def callB_def)

definition is_help :: "string list \<Rightarrow> bool" where
  "is_help argv \<longleftrightarrow> argv \<noteq> [] \<and> (hd argv = ''--help'' \<or> hd argv = ''-h'')"

definition usage_line :: "string \<Rightarrow> string" where
  "usage_line cmd = ''Usage: '' @ cmd @ '' <container-id>'' @ [CHR 0x0A]"

text \<open>The result to return, when the arguments were handled.\<close>

definition handle_default_usage :: "env \<Rightarrow> string list \<Rightarrow> string \<Rightarrow> world \<Rightarrow> bool option \<times> world" where
  "handle_default_usage E argv cmd w =
     (if is_help argv \<or> argv = [] then (Some (argv \<noteq> []), g_print E (usage_line cmd) w)
      else (None, w))"

definition handle_option_console :: "cstring \<Rightarrow> start_data \<Rightarrow> start_data" where
  "handle_option_console value sd =
     (case value of None \<Rightarrow> sd | Some v \<Rightarrow> sd\<lparr>sd_console := Some v\<rparr>)"

subsection \<open>Commands on an existing container\<close>

definition handle_command_toggle ::
  "env \<Rightarrow> string \<Rightarrow> clr_oci_config \<Rightarrow> string list \<Rightarrow> bool \<Rightarrow> world \<Rightarrow> (bool \<times> world) option" where
  "handle_command_toggle E name config argv pause w =
     (case handle_default_usage E argv name w of
        (Some ret, w) \<Rightarrow> Some (ret, w)
      | (None, w) \<Rightarrow> do {
          (ret, config_file, config, ptr, w) \<leftarrow>
            clr_oci_get_config_and_state E (config\<lparr>optarg_container_id := Some (hd argv)\<rparr>) w;
          case (ret, ptr) of
            (True, Live state) \<Rightarrow> do {
              let (config, state) = clr_oci_config_update config state;
              (ret, config, w) \<leftarrow> clr_oci_toggle E config state pause w;
              let w = (if ret then g_print E ((if pause then ''pause'' else ''resume'') @ ''d container '' @
                         fmt_s (optarg_container_id config) @ [CHR 0x0A]) w else w);
              _ \<leftarrow> clr_oci_state_free (Live state);
              Some (ret, w)
            }
          | _ \<Rightarrow> do { _ \<leftarrow> clr_oci_state_free ptr; Some (False, w) }
        })"

definition handle_command_stop ::
  "env \<Rightarrow> string \<Rightarrow> clr_oci_config \<Rightarrow> string list \<Rightarrow> world \<Rightarrow> (bool \<times> world) option" where
  "handle_command_stop E name config argv w =
     (case handle_default_usage E argv name w of
        (Some ret, w) \<Rightarrow> Some (ret, w)
      | (None, w) \<Rightarrow>
          (case clr_oci_state_file_exists E (config\<lparr>optarg_container_id := Some (hd argv)\<rparr>) w of
             (False, config, w) \<Rightarrow> Some (True, w)
           | (True, config, w) \<Rightarrow> do {
               (ret, config_file, config, ptr, w) \<leftarrow> clr_oci_get_config_and_state E config w;
               case (ret, ptr) of
                 (True, Live state) \<Rightarrow>
                   (case clr_oci_json_parse E config_file w of
                      (None, w) \<Rightarrow> Some (ret, w)
                    | (Some root, w) \<Rightarrow> do {
                        (config, w) \<leftarrow> foreach process_config_stop (gchildren root) (config, w);
                        let config = config\<lparr>oci := (oci config)\<lparr>mounts := s_mounts state\<rparr>\<rparr>;
                        let state = state\<lparr>s_mounts := []\<rparr>;
                        (ret, w) \<leftarrow> clr_oci_stop E config state w;
                        let w = (if ret then g_print E (''stopped container '' @
                                   fmt_s (optarg_container_id config) @ [CHR 0x0A]) w else w);
                        Some (ret, w)
                      })
               | _ \<Rightarrow> do { _ \<leftarrow> clr_oci_state_free ptr; Some (False, w) }
             }))"

definition kill_signal :: "string list \<Rightarrow> int" where
  "kill_signal argv =
     (if length argv = 2 then
        let signum = atoi (argv ! 1) in
        if signum \<le> 0 then clr_oci_get_signum (Some (argv ! 1)) else signum
      else SIGTERM)"

definition handler_kill ::
  "env \<Rightarrow> string \<Rightarrow> clr_oci_config \<Rightarrow> string list \<Rightarrow> world \<Rightarrow> (bool \<times> world) option" where
  "handler_kill E name config argv w =
     (if is_help argv then
        Some (True, g_print E (''Usage: '' @ name @ '' <container-id> [<signal>]'' @ [CHR 0x0A]) w)
      else if argv = [] then Some (False, w)
      else if kill_signal argv < 0 then Some (False, w)
      else do {
        (ret, config_file, config, ptr, w) \<leftarrow>
          clr_oci_get_config_and_state E (config\<lparr>optarg_container_id := Some (hd argv)\<rparr>) w;
        case (ret, ptr) of
          (True, Live state) \<Rightarrow>
            (case clr_oci_config_update config state of (config, state) \<Rightarrow>
               (case clr_oci_kill E config state (kill_signal argv) w of
                  (ret, config, w) \<Rightarrow> Some (ret, w)))
        | _ \<Rightarrow> do { _ \<leftarrow> clr_oci_state_free ptr; Some (False, w) }
      })"

definition handler_start ::
  "env \<Rightarrow> string \<Rightarrow> start_data \<Rightarrow> clr_oci_config \<Rightarrow> string list \<Rightarrow> world \<Rightarrow> (bool \<times> world) option" where
  "handler_start E name sd config argv w =
     (case handle_default_usage E argv name w of
        (Some ret, w) \<Rightarrow> Some (ret, w)
      | (None, w) \<Rightarrow> do {
          (ret, config_file, config, ptr, w) \<leftarrow>
            clr_oci_get_config_and_state E (config\<lparr>optarg_container_id := Some (hd argv)\<rparr>) w;
          case (ret, ptr) of
            (True, Live state) \<Rightarrow>
              (case clr_oci_config_update config state of (config, state) \<Rightarrow> do {
                 (ret, config, w) \<leftarrow> clr_oci_start E config state (sd_bundle sd) w;
                 Some (ret, w)
               })
          | _ \<Rightarrow> Some (False, w)
        })"

definition handler_exec ::
  "env \<Rightarrow> string \<Rightarrow> clr_oci_config \<Rightarrow> string list \<Rightarrow> world \<Rightarrow> (bool \<times> world) option" where
  "handler_exec E name config argv w =
     (let usage = ''Usage: '' @ name @ '' <container-id> <cmd> [args]'' @ [CHR 0x0A] in
      if is_help argv then Some (True, g_print E usage w)
      else if length argv < 2 then Some (False, g_print E usage w)
      else do {
        (ret, config_file, config, ptr, w) \<leftarrow>
          clr_oci_get_config_and_state E (config\<lparr>optarg_container_id := Some (hd argv)\<rparr>) w;
        case (ret, ptr) of
          (True, Live state) \<Rightarrow> do { ret \<leftarrow> clr_oci_exec config state (tl argv); Some (ret, w) }
        | _ \<Rightarrow> do { _ \<leftarrow> clr_oci_state_free ptr; Some (False, w) }
      })"

definition handler_state ::
  "env \<Rightarrow> string \<Rightarrow> clr_oci_config \<Rightarrow> string list \<Rightarrow> world \<Rightarrow> (bool \<times> world) option" where
  "handler_state E name config argv w =
     (case handle_default_usage E argv name w of
        (Some ret, w) \<Rightarrow> Some (ret, w)
      | (None, w) \<Rightarrow>
          if length argv \<noteq> 1 then Some (False, w)
          else
            (case clr_oci_runtime_path_get (config\<lparr>optarg_container_id := Some (hd argv)\<rparr>) of
               (False, config) \<Rightarrow> Some (False, w)
             | (True, config) \<Rightarrow>
                 (case clr_oci_state_file_get config of
                    (False, config) \<Rightarrow> Some (False, w)
                  | (True, config) \<Rightarrow>
                      (case callS E (FileGet (state_file_path (cstate config))) w of
                         (None, w) \<Rightarrow> Some (False, w)
                       | (Some contents, w) \<Rightarrow> Some (True, g_print E (contents @ [CHR 0x0A]) w)))))"

text \<open>
  "ps", "update", "checkpoint" and "restore" only look for the state file; the last two do not
  set the container's id first.
\<close>

definition handler_ps ::
  "env \<Rightarrow> string \<Rightarrow> clr_oci_config \<Rightarrow> string list \<Rightarrow> world \<Rightarrow> (bool \<times> world) option" where
  "handler_ps E name config argv w =
     (if is_help argv \<or> argv = [] then
        Some (argv \<noteq> [], g_print E (''Usage: '' @ name @
          '' [command options] <container-id> <ps options>'' @ [CHR 0x0A]) w)
      else (case clr_oci_state_file_exists E (config\<lparr>optarg_container_id := Some (hd argv)\<rparr>) w of
              (b, config, w) \<Rightarrow> Some (b, w)))"

definition handler_update ::
  "env \<Rightarrow> string \<Rightarrow> clr_oci_config \<Rightarrow> string list \<Rightarrow> world \<Rightarrow> (bool \<times> world) option" where
  "handler_update E name config argv w =
     (case handle_default_usage E argv name w of
        (Some ret, w) \<Rightarrow> Some (ret, w)
      | (None, w) \<Rightarrow>
          (case clr_oci_state_file_exists E (config\<lparr>optarg_container_id := Some (hd argv)\<rparr>) w of
             (b, config, w) \<Rightarrow> Some (b, w)))"

definition handler_checkpoint ::
  "env \<Rightarrow> string \<Rightarrow> clr_oci_config \<Rightarrow> string list \<Rightarrow> world \<Rightarrow> (bool \<times> world) option" where
  "handler_checkpoint E name config argv w =
     (case handle_default_usage E argv name w of
        (Some ret, w) \<Rightarrow> Some (ret, w)
      | (None, w) \<Rightarrow> (case clr_oci_state_file_exists E config w of (b, config, w) \<Rightarrow> Some (b, w)))"

definition handler_restore ::
  "env \<Rightarrow> string \<Rightarrow> clr_oci_config \<Rightarrow> string list \<Rightarrow> world \<Rightarrow> (bool \<times> world) option" where
  "handler_restore E name config argv w =
     (case handle_default_usage E argv name w of
        (Some ret, w) \<Rightarrow> Some (ret, w)
      | (None, w) \<Rightarrow> (case clr_oci_state_file_exists E config w of (b, config, w) \<Rightarrow> Some (b, w)))"

definition handler_pause ::
  "env \<Rightarrow> string \<Rightarrow> clr_oci_config \<Rightarrow> string list \<Rightarrow> world \<Rightarrow> (bool \<times> world) option" where
  "handler_pause E name config argv w = handle_command_toggle E name config argv True w"

definition handler_resume ::
  "env \<Rightarrow> string \<Rightarrow> clr_oci_config \<Rightarrow> string list \<Rightarrow> world \<Rightarrow> (bool \<times> world) option" where
  "handler_resume E name config argv w = handle_command_toggle E name config argv False w"

subsection \<open>Commands that make a container\<close>

definition handle_command_setup ::
  "env \<Rightarrow> string \<Rightarrow> start_data \<Rightarrow> clr_oci_config \<Rightarrow> string list \<Rightarrow> world
   \<Rightarrow> bool \<times> clr_oci_config \<times> world" where
  "handle_command_setup E name sd config argv w =
     (case handle_default_usage E argv name w of
        (Some ret, w) \<Rightarrow> (ret, config, w)
      | (None, w) \<Rightarrow>
          let config = config\<lparr>optarg_container_id := Some (hd argv)\<rparr>;
              finish = (\<lambda>(p, w). (True, config\<lparr>bundle_path := p, console := sd_console sd,
                 pid_file := sd_pid_file sd, dry_run_mode := sd_dry_run_mode sd,
                 detached_mode := sd_detach sd\<rparr>, w))
          in case sd_bundle sd of
               Some b \<Rightarrow>
                 if length argv \<noteq> 1 then (False, config, w)
                 else finish (clr_oci_resolve_path E (Some b) w)
             | None \<Rightarrow>
                 if length argv \<noteq> 2 then (False, config, w)
                 else finish (clr_oci_resolve_path E (Some (argv ! 1)) w))"

definition handler_create ::
  "env \<Rightarrow> string \<Rightarrow> start_data \<Rightarrow> clr_oci_config \<Rightarrow> string list \<Rightarrow> world \<Rightarrow> (bool \<times> world) option" where
  "handler_create E name sd config argv w =
     (case handle_command_setup E name sd config argv w of
        (False, config, w) \<Rightarrow> Some (False, w)
      | (True, config, w) \<Rightarrow> do {
          (ret, config, w) \<leftarrow> clr_oci_create E config w;
          Some (ret, if ret then g_print E (''container '' @ fmt_s (optarg_container_id config) @
                       '' created'' @ [CHR 0x0A]) w else w)
        })"

definition handler_run ::
  "env \<Rightarrow> string \<Rightarrow> start_data \<Rightarrow> clr_oci_config \<Rightarrow> string list \<Rightarrow> world \<Rightarrow> (bool \<times> world) option" where
  "handler_run E name sd config argv w =
     (case handle_command_setup E name sd config argv w of
        (False, config, w) \<Rightarrow> Some (False, w)
      | (True, config, w) \<Rightarrow> do {
          (ret, config, w) \<leftarrow> clr_oci_run E config w;
          Some (ret, w)
        })"

subsection \<open>Privileges\<close>

definition clr_oci_get_priv_level ::
  "env \<Rightarrow> string list \<Rightarrow> string \<Rightarrow> clr_oci_config \<Rightarrow> world \<Rightarrow> int \<times> world" where
  "clr_oci_get_priv_level E argv name config w =
     (if name = ''help'' \<or> name = ''version'' then (-1, w)
      else if length argv > 1 \<and> (argv ! 1 = ''--help'' \<or> argv ! 1 = ''-h'') then (-1, w)
      else (case root_dir config of
              None \<Rightarrow> (1, w)
            | Some d \<Rightarrow>
                (case callI E (Access d) w of (r, w) \<Rightarrow>
                   if r = 0 then (0, w)
                   else (case callB E (AccessErrnoIsENOENT d) w of (enoent, w) \<Rightarrow>
                     if enoent then
                       (case callI E (Access (g_path_get_dirname d)) w of (r, w) \<Rightarrow>
                          if r = 0 then (0, w) else (1, w))
                     else (1, w)))))"

end
