(* ===== verification/Lifecycle.thy ===== *)
theory Lifecycle
  imports Command
begin

text \<open>
  The life of a container as its state file tells it. A \<open>container\<close> is what the state file
  holds; the commands of the runtime are refined to an abstract machine over the status.
\<close>

subsection \<open>What is stored\<close>

record container =
  k_id :: string
  k_bundle :: string
  k_pid :: int
  k_comms :: string
  k_procsock :: string
  k_created :: string
  k_mounts :: "string list"
  k_console :: string
  k_socket :: bool
  k_vm :: clr_oci_vm_cfg
  k_status :: oci_status
  k_annotations :: "oci_cfg_annotation list"

text \<open>A configuration whose state file is the container's.\<close>

definition config_of :: "container \<Rightarrow> clr_oci_config" where
  "config_of c = config0\<lparr>optarg_container_id := Some (k_id c), bundle_path := Some (k_bundle c),
     console := Some (k_console c), use_socket_console := k_socket c, vm := Some (k_vm c),
     oci := oci_cfg0\<lparr>mounts := map mount_of_dest (k_mounts c), annotations := k_annotations c\<rparr>,
     cstate := container_state0\<lparr>comms_path := k_comms c, procsock_path := k_procsock c,
       workload_pid := k_pid c, status := k_status c\<rparr>\<rparr>"

definition doc_of :: "container \<Rightarrow> json" where
  "doc_of c = state_document (config_of c) (k_id c) (k_bundle c)
     (fmt_s (clr_oci_status_to_str (k_status c))) (k_created c) (k_vm c)"

definition state_of :: "container \<Rightarrow> oci_state" where
  "state_of c = \<lparr>s_oci_version = Some CLR_OCI_SUPPORTED_SPEC_VERSION, s_id = Some (k_id c),
      s_pid = k_pid c, s_bundle_path = Some (k_bundle c), s_comms_path = Some (k_comms c),
      s_procsock_path = Some (k_procsock c), s_status = k_status c, s_create_time = Some (k_created c),
      s_mounts = map mount_of_dest (k_mounts c),
      s_annotations = rev (filter (\<lambda>a. ann_value a \<noteq> None) (k_annotations c)),
      s_console = Some (k_console c), s_use_socket_console = k_socket c, s_vm = Some (k_vm c)\<rparr>"

definition readable :: "container \<Rightarrow> bool" where
  "readable c \<longleftrightarrow> list_all (\<lambda>d. length d < PATH_MAX) (k_mounts c)
     \<and> - (2 ^ 31) \<le> k_pid c \<and> k_pid c < 2 ^ 31 \<and> k_status c \<noteq> OCI_STATUS_INVALID
     \<and> vm_fits (k_vm c) \<and> kernel_params (k_vm c) \<noteq> None \<and> distinct (map ann_key (k_annotations c))"

definition wf_container :: "container \<Rightarrow> bool" where
  "wf_container c \<longleftrightarrow> k_id c \<noteq> [] \<and> k_id c \<noteq> ''--help'' \<and> k_id c \<noteq> ''-h'' \<and> k_bundle c \<noteq> []
     \<and> k_comms c \<noteq> [] \<and> k_procsock c \<noteq> []
     \<and> length (k_comms c) < PATH_MAX \<and> length (k_procsock c) < PATH_MAX \<and> readable c"

lemma recorded_mount_of_dest:
  "list_all (\<lambda>d. length d < PATH_MAX) ds \<Longrightarrow> recorded (map mount_of_dest ds) = ds"
  by (induction ds) (simp_all add: mount_of_dest_def mount0_def)

lemma status_name: "s \<noteq> OCI_STATUS_INVALID \<Longrightarrow> clr_oci_status_to_str s = Some (fmt_s (clr_oci_status_to_str s))"
  using status_name_exists [of s] by (cases "clr_oci_status_to_str s") simp_all

lemma state_of_stored:
  assumes "readable c"
  shows "state_of_node (GNode f (clr_oci_json_parse_aux (doc_of c) b)) = Some (Some (state_of c))"
proof -
  have w: "state_written (config_of c) (k_id c) (k_bundle c) (k_created c) (k_console c) (k_vm c) = state_of c"
  proof -
    obtain kp where "kernel_params (k_vm c) = Some kp" using assms by (auto simp: readable_def)
    then have "(k_vm c)\<lparr>kernel_params := Some (case kernel_params (k_vm c) of Some p \<Rightarrow> p | None \<Rightarrow> [])\<rparr> = k_vm c"
      by (cases "k_vm c") simp
    moreover have "recorded (map mount_of_dest (k_mounts c)) = k_mounts c"
      using assms by (intro recorded_mount_of_dest) (simp add: readable_def)
    ultimately show ?thesis
      by (simp add: state_written_def config_of_def state_of_def)
  qed
  show ?thesis
    unfolding doc_of_def
  proof (subst state_of_document [where con = "k_console c"])
    show "clr_oci_status_to_str (status (cstate (config_of c))) = Some (fmt_s (clr_oci_status_to_str (k_status c)))"
      using assms status_name by (simp add: config_of_def readable_def)
    show "writable (config_of c)" using assms by (simp add: writable_def config_of_def readable_def)
    show "Some (Some (state_written (config_of c) (k_id c) (k_bundle c) (k_created c) (k_console c) (k_vm c))) =
        Some (Some (state_of c))" by (simp only: w)
  qed (use assms in \<open>simp_all add: config_of_def readable_def\<close>)
qed

subsection \<open>Where it is stored\<close>

definition run_path :: "cstring \<Rightarrow> string \<Rightarrow> string" where
  "run_path r cid = buf_path (case r of Some d \<Rightarrow> d | None \<Rightarrow> CLR_OCI_RUNTIME_DIR_PREFIX) cid"

definition state_path :: "cstring \<Rightarrow> string \<Rightarrow> string" where
  "state_path r cid = buf_path (run_path r cid) CLR_OCI_STATE_FILE"

lemma run_path_nonempty [simp]: "run_path r cid \<noteq> []" "state_path r cid \<noteq> []"
  by (simp_all add: run_path_def state_path_def)

definition stored :: "env \<Rightarrow> disk \<Rightarrow> cstring \<Rightarrow> world \<Rightarrow> container \<Rightarrow> bool" where
  "stored E d r w c \<longleftrightarrow> file_view d w (state_path r (k_id c)) = Some (json_gen E True (doc_of c))"

text \<open>
  What is asked of the outside: the JSON library inverts itself, files are read back and
  their existence is told truly.
\<close>

definition faithful :: "env \<Rightarrow> disk \<Rightarrow> string \<Rightarrow> bool" where
  "faithful E d p \<longleftrightarrow> codec E \<and> reads_back E d p
     \<and> (\<forall>w. sys_bool E w (FileExists p) \<longleftrightarrow> file_view d w p \<noteq> None)"

text \<open>The configuration that \<^verbatim>\<open>main\<close> makes.\<close>

abbreviation base :: "cstring \<Rightarrow> clr_oci_config" where
  "base r \<equiv> config0\<lparr>root_dir := r\<rparr>"

definition got :: "cstring \<Rightarrow> container \<Rightarrow> clr_oci_config" where
  "got r c = config0\<lparr>root_dir := r, optarg_container_id := Some (k_id c), bundle_path := Some (k_bundle c),
     cstate := container_state0\<lparr>state_file_path := state_path r (k_id c), runtime_path := run_path r (k_id c),
       comms_path := k_comms c, workload_pid := k_pid c, status := k_status c\<rparr>\<rparr>"

definition loaded :: "cstring \<Rightarrow> container \<Rightarrow> clr_oci_config" where
  "loaded r c = config0\<lparr>root_dir := r, optarg_container_id := Some (k_id c), bundle_path := Some (k_bundle c),
     console := Some (k_console c), use_socket_console := k_socket c, vm := Some (k_vm c),
     oci := oci_cfg0\<lparr>mounts := map mount_of_dest (k_mounts c)\<rparr>,
     cstate := container_state0\<lparr>state_file_path := state_path r (k_id c), runtime_path := run_path r (k_id c),
       comms_path := k_comms c, procsock_path := k_procsock c, workload_pid := k_pid c,
       status := k_status c\<rparr>\<rparr>"

definition emptied :: "oci_state \<Rightarrow> oci_state" where
  "emptied state = state\<lparr>s_mounts := [], s_console := None, s_vm := None\<rparr>"

lemma paths_of_base:
  "clr_oci_runtime_path_get ((base r)\<lparr>optarg_container_id := Some cid\<rparr>) =
     (True, (base r)\<lparr>optarg_container_id := Some cid, cstate := container_state0\<lparr>runtime_path := run_path r cid\<rparr>\<rparr>)"
  "clr_oci_state_file_get ((base r)\<lparr>optarg_container_id := Some cid, cstate := container_state0\<lparr>runtime_path := run_path r cid\<rparr>\<rparr>) =
     (True, (base r)\<lparr>optarg_container_id := Some cid,
        cstate := container_state0\<lparr>runtime_path := run_path r cid, state_file_path := state_path r cid\<rparr>\<rparr>)"
  by (simp_all add: clr_oci_runtime_path_get_def clr_oci_state_file_get_def run_path_def state_path_def)

lemma read_stored:
  assumes "faithful E d (state_path r (k_id c))" and "stored E d r w c" and "readable c"
  shows "\<exists>rep. clr_oci_state_file_read E (Some (state_path r (k_id c))) w =
     Some (Some (state_of c), (FileGet (state_path r (k_id c)), rep) # w)"
proof -
  have "sys_str E w (FileGet (state_path r (k_id c))) = Some (json_gen E True (doc_of c))"
    using assms(1,2) by (simp add: faithful_def reads_back_def stored_def)
  moreover have "json_parse E (json_gen E True (doc_of c)) = Some (doc_of c)"
    using assms(1) by (simp add: faithful_def codec_def)
  ultimately show ?thesis
    using state_of_stored [OF assms(3)] by (simp add: clr_oci_state_file_read_def json_parse_text)
qed

lemma read_missing:
  assumes "faithful E d p" and "file_view d w p = None"
  shows "\<exists>w'. clr_oci_state_file_read E (Some p) w = Some (None, w') \<and> extends_by keeps_files w w'"
proof -
  have "sys_str E w (FileGet p) = None"
    using assms by (simp add: faithful_def reads_back_def)
  then show ?thesis by (auto simp: clr_oci_state_file_read_def json_parse_text keeps_files_def)
qed

definition bundle_config :: "container \<Rightarrow> string" where
  "bundle_config c = g_build_path [k_bundle c, CLR_OCI_CONFIG_FILE]"

lemma get_stored_config:
  assumes "faithful E d (state_path r (k_id c))" and "stored E d r w c" and "wf_container c"
  shows "\<exists>rep. clr_oci_get_config_and_state E ((base r)\<lparr>optarg_container_id := Some (k_id c)\<rparr>) w =
     Some (True, Some (bundle_config c), got r c, Live (state_of c), (FileGet (state_path r (k_id c)), rep) # w)"
proof -
  obtain rep where rd: "clr_oci_state_file_read E (Some (state_path r (k_id c))) w =
     Some (Some (state_of c), (FileGet (state_path r (k_id c)), rep) # w)"
    using read_stored [OF assms(1,2)] assms(3) by (auto simp: wf_container_def readable_def)
  have "clr_oci_config_file_path (Some (k_bundle c)) = Some (bundle_config c)"
    using assms(3)
    by (simp add: clr_oci_config_file_path_def clr_oci_get_bundlepath_file_def CLR_OCI_CONFIG_FILE_def
        wf_container_def readable_def bundle_config_def)
  moreover have "buf_put PATH_MAX (k_comms c) = k_comms c" using assms(3) by (simp add: wf_container_def readable_def)
  ultimately show ?thesis
    using rd by (auto simp: clr_oci_get_config_and_state_def paths_of_base state_of_def got_def)
qed

lemma get_stored:
  assumes "faithful E d (state_path r (k_id c))" and "stored E d r w c" and "wf_container c"
  shows "\<exists>cf rep. clr_oci_get_config_and_state E ((base r)\<lparr>optarg_container_id := Some (k_id c)\<rparr>) w =
     Some (True, Some cf, got r c, Live (state_of c), (FileGet (state_path r (k_id c)), rep) # w)"
  using get_stored_config [OF assms] by blast

lemma get_missing:
  assumes "faithful E d (state_path r cid)" and "file_view d w (state_path r cid) = None"
  shows "\<exists>config w'. clr_oci_get_config_and_state E ((base r)\<lparr>optarg_container_id := Some cid\<rparr>) w =
     Some (False, None, config, NoState, w') \<and> extends_by keeps_files w w'"
  using read_missing [OF assms]
  by (auto simp: clr_oci_get_config_and_state_def paths_of_base)

lemma update_stored:
  assumes "wf_container c"
  shows "clr_oci_config_update (got r c) (state_of c) = (loaded r c, emptied (state_of c))"
proof -
  have "buf_put PATH_MAX (k_procsock c) = k_procsock c" using assms by (simp add: wf_container_def readable_def)
  then show ?thesis
    by (cases "k_mounts c")
      (simp_all add: clr_oci_config_update_def got_def loaded_def state_of_def emptied_def Let_def)
qed

subsection \<open>What is written\<close>

definition rewritten :: "oci_status \<Rightarrow> container \<Rightarrow> container" where
  "rewritten s c = c\<lparr>k_status := s, k_annotations := []\<rparr>"

lemma write_loaded:
  assumes "wf_container c" and "s \<noteq> OCI_STATUS_INVALID"
  shows "clr_oci_state_file_create E (set_status s (loaded r c)) (Some (k_created c)) w =
     (case callB E (FileSet (state_path r (k_id c)) (json_gen E True (doc_of (rewritten s c)))) w of
        (b, w) \<Rightarrow> (b, set_status s (loaded r c), w))"
proof -
  have doc: "state_document (set_status s (loaded r c)) (k_id c) (k_bundle c)
      (fmt_s (clr_oci_status_to_str s)) (k_created c) (k_vm c) = doc_of (rewritten s c)"
    by (simp add: doc_of_def rewritten_def config_of_def loaded_def state_document_def
        clr_oci_mounts_to_json_def clr_oci_annotations_to_json_def)
  have st: "clr_oci_status_get (set_status s (loaded r c)) = Some (fmt_s (clr_oci_status_to_str s))"
    using status_name [OF assms(2)] by (simp add: clr_oci_status_get_def)
  have get: "clr_oci_state_file_get (set_status s (loaded r c)) = (True, set_status s (loaded r c))"
    by (simp add: clr_oci_state_file_get_def loaded_def state_path_def)
  have fields: "optarg_container_id (loaded r c) = Some (k_id c)" "bundle_path (loaded r c) = Some (k_bundle c)"
    "vm (loaded r c) = Some (k_vm c)" "runtime_path (cstate (loaded r c)) = run_path r (k_id c)"
    "comms_path (cstate (loaded r c)) = k_comms c" "procsock_path (cstate (loaded r c)) = k_procsock c"
    "state_file_path (cstate (loaded r c)) = state_path r (k_id c)"
    by (simp_all add: loaded_def)
  show ?thesis
    using assms(1) st get doc
    by (simp add: clr_oci_state_file_create_def fields wf_container_def readable_def callB_def)
qed


subsection \<open>The abstract machine\<close>

text \<open>
  The commands on an existing container, by what they do to the status in the state file;
  \<^term>\<open>None\<close> is a container without state file. A command that fails leaves the status,
  except a "kill" whose last write fails, which leaves "stopping", and a "delete" that fails
  after it removed the file. A "delete" that cannot read \<^verbatim>\<open>config.json\<close> does nothing and
  reports success.
\<close>

datatype command = CStart | CKill "string list" | CPause | CResume | CDelete

inductive lifecycle :: "oci_status option \<Rightarrow> command \<Rightarrow> bool \<Rightarrow> oci_status option \<Rightarrow> bool" where
  start: "lifecycle (Some OCI_STATUS_CREATED) CStart True (Some OCI_STATUS_RUNNING)"
| kill: "lifecycle (Some s) (CKill args) True (Some OCI_STATUS_STOPPED)"
| kill_torn: "lifecycle (Some s) (CKill args) False (Some OCI_STATUS_STOPPING)"
| pause: "lifecycle (Some s) CPause True (Some OCI_STATUS_PAUSED)"
| resume: "lifecycle (Some s) CResume True (Some OCI_STATUS_RUNNING)"
| delete: "lifecycle (Some s) CDelete b None"
| delete_skipped: "lifecycle (Some s) CDelete True (Some s)"
| failed: "lifecycle (Some s) cmd False (Some s)"
| gone: "cmd \<noteq> CDelete \<Longrightarrow> lifecycle None cmd False None"
| delete_gone: "lifecycle None CDelete b None"

inductive_cases lifecycle_CreatedE: "lifecycle s cmd b (Some OCI_STATUS_CREATED)"
inductive_cases lifecycle_startE: "lifecycle s CStart True t"
inductive_cases lifecycle_goneE: "lifecycle None cmd b t"
inductive_cases lifecycle_StoppedE: "lifecycle s cmd b (Some OCI_STATUS_STOPPED)"

subsection \<open>Refinement, one command at a time\<close>

text \<open>The container's state file has the status \<open>s\<close>; rewriting it may have lost the annotations.\<close>

definition same_container :: "oci_status \<Rightarrow> container \<Rightarrow> container \<Rightarrow> bool" where
  "same_container s c c' \<longleftrightarrow> s \<noteq> OCI_STATUS_INVALID \<and> (c' = c\<lparr>k_status := s\<rparr> \<or> c' = rewritten s c)"

definition persisted :: "env \<Rightarrow> disk \<Rightarrow> cstring \<Rightarrow> world \<Rightarrow> container \<Rightarrow> oci_status option \<Rightarrow> bool" where
  "persisted E d r w c os \<longleftrightarrow>
     (case os of
        None \<Rightarrow> file_view d w (state_path r (k_id c)) = None
      | Some s \<Rightarrow> \<exists>c'. same_container s c c' \<and> stored E d r w c')"

lemma same_container_facts:
  assumes "same_container s c c'"
  shows "k_id c' = k_id c" "k_status c' = s" "wf_container c \<Longrightarrow> wf_container c'"
  using assms by (auto simp: same_container_def rewritten_def wf_container_def readable_def)

lemma same_container_trans: "same_container s c c' \<Longrightarrow> same_container t c' c'' \<Longrightarrow> same_container t c c''"
  by (auto simp: same_container_def rewritten_def)

lemma same_container_refl: "wf_container c \<Longrightarrow> same_container (k_status c) c c"
  by (simp add: same_container_def wf_container_def readable_def)

lemma persisted_trans: "same_container s c c' \<Longrightarrow> persisted E d r w c' t \<Longrightarrow> persisted E d r w c t"
  using same_container_facts(1) same_container_trans
  by (auto simp: persisted_def split: option.splits) blast+

lemma persisted_rewritten:
  "s \<noteq> OCI_STATUS_INVALID \<Longrightarrow> stored E d r w (rewritten s c) \<Longrightarrow> persisted E d r w c (Some s)"
  by (auto simp: persisted_def same_container_def)

lemma persisted_stored: "wf_container c \<Longrightarrow> stored E d r w c \<Longrightarrow> persisted E d r w c (Some (k_status c))"
  using same_container_refl by (auto simp: persisted_def)

lemma persisted_extends: "extends_by keeps_files w w' \<Longrightarrow> persisted E d r w' c s = persisted E d r w c s"
  by (auto simp: persisted_def stored_def file_view_extends split: option.splits)

text \<open>The world after an attempt to write the status \<open>s\<close>.\<close>

abbreviation wrote :: "env \<Rightarrow> cstring \<Rightarrow> container \<Rightarrow> oci_status \<Rightarrow> world \<Rightarrow> world" where
  "wrote E r c s w \<equiv> snd (callB E (FileSet (state_path r (k_id c)) (json_gen E True (doc_of (rewritten s c)))) w)"

abbreviation write_ok :: "env \<Rightarrow> cstring \<Rightarrow> container \<Rightarrow> oci_status \<Rightarrow> world \<Rightarrow> bool" where
  "write_ok E r c s w \<equiv> sys_bool E w (FileSet (state_path r (k_id c)) (json_gen E True (doc_of (rewritten s c))))"

lemma rewritten_id [simp]: "k_id (rewritten s c) = k_id c"
  by (simp add: rewritten_def)

lemma stored_wrote:
  "write_ok E r c s w \<Longrightarrow> stored E d r (wrote E r c s w) (rewritten s c)"
  "\<not> write_ok E r c s w \<Longrightarrow> k_id c' = k_id c \<Longrightarrow> stored E d r (wrote E r c s w) c' = stored E d r w c'"
  by (simp_all add: stored_def callB_def file_view_set del: file_view.simps)

lemma stored_extends: "extends_by keeps_files w w' \<Longrightarrow> stored E d r w' c = stored E d r w c"
  by (simp add: stored_def file_view_extends)

lemma stored_keeps [simp]: "keeps_files x \<Longrightarrow> stored E d r ((x, rep) # w) c = stored E d r w c"
  by (simp add: stored_def del: file_view.simps)

lemma write_status:
  assumes "wf_container c" and "s \<noteq> OCI_STATUS_INVALID"
  shows "clr_oci_state_file_create E (set_status s (loaded r c)) (Some (k_created c)) w =
     (write_ok E r c s w, set_status s (loaded r c), wrote E r c s w)"
  by (simp add: write_loaded [OF assms] callB_def)

lemma emptied_fields [simp]:
  "s_create_time (emptied (state_of c)) = Some (k_created c)" "s_pid (emptied (state_of c)) = k_pid c"
  "s_comms_path (emptied (state_of c)) = Some (k_comms c)" "s_status (emptied (state_of c)) = k_status c"
  by (simp_all add: emptied_def state_of_def)

lemma loaded_status [simp]: "status (cstate (loaded r c)) = k_status c"
  by (simp add: loaded_def)

subsubsection \<open>kill\<close>

text \<open>The three outcomes, by what the file and the kernel answered.\<close>

lemma kill_outcome:
  fixes E r c sig w
  assumes wf: "wf_container c"
  defines "w1 \<equiv> wrote E r c OCI_STATUS_STOPPING w"
  defines "w2 \<equiv> (Kill (k_pid c) sig, RInt (sys_int E w1 (Kill (k_pid c) sig))) # w1"
  shows "\<exists>config. clr_oci_kill E (loaded r c) (emptied (state_of c)) sig w =
     (if \<not> write_ok E r c OCI_STATUS_STOPPING w then (False, config, w1)
      else if sys_int E w1 (Kill (k_pid c) sig) < 0 then (False, config, wrote E r c (k_status c) w2)
      else (write_ok E r c OCI_STATUS_STOPPED w2, config, wrote E r c OCI_STATUS_STOPPED w2))"
proof -
  have valid: "k_status c \<noteq> OCI_STATUS_INVALID" using wf by (simp add: wf_container_def readable_def)
  note ws = write_status [OF wf, of OCI_STATUS_STOPPING] write_status [OF wf, of OCI_STATUS_STOPPED]
    write_status [OF wf valid]
  show ?thesis
    unfolding w1_def w2_def
    by (cases "write_ok E r c OCI_STATUS_STOPPING w"; cases "sys_int E (wrote E r c OCI_STATUS_STOPPING w) (Kill (k_pid c) sig) < 0")
      (simp_all add: clr_oci_kill_def ws callI_def Let_def split: bool.split)
qed

lemma kill_refines:
  assumes wf: "wf_container c" and st: "stored E d r w c"
    and run: "clr_oci_kill E (loaded r c) (emptied (state_of c)) sig w = (b, config, w')"
  shows "\<exists>s. lifecycle (Some (k_status c)) (CKill args) b s \<and> persisted E d r w' c s"
proof -
  let ?w1 = "wrote E r c OCI_STATUS_STOPPING w"
  let ?w2 = "(Kill (k_pid c) sig, RInt (sys_int E ?w1 (Kill (k_pid c) sig))) # ?w1"
  have valid: "k_status c \<noteq> OCI_STATUS_INVALID" using wf by (simp add: wf_container_def readable_def)
  have out: "(b, w') = (if \<not> write_ok E r c OCI_STATUS_STOPPING w then (False, ?w1)
      else if sys_int E ?w1 (Kill (k_pid c) sig) < 0 then (False, wrote E r c (k_status c) ?w2)
      else (write_ok E r c OCI_STATUS_STOPPED ?w2, wrote E r c OCI_STATUS_STOPPED ?w2))"
    using kill_outcome [OF wf, of E r sig w] run by (auto split: if_splits)
  consider (no_write) "\<not> write_ok E r c OCI_STATUS_STOPPING w" "b = False" "w' = ?w1"
    | (no_kill) "write_ok E r c OCI_STATUS_STOPPING w" "b = False" "w' = wrote E r c (k_status c) ?w2"
    | (killed) "write_ok E r c OCI_STATUS_STOPPING w" "b = write_ok E r c OCI_STATUS_STOPPED ?w2"
        "w' = wrote E r c OCI_STATUS_STOPPED ?w2"
    using out by (metis prod.inject)
  then show ?thesis
  proof cases
    case no_write
    then have "stored E d r w' c" using st stored_wrote(2) by simp
    then show ?thesis using no_write lifecycle.failed persisted_stored [OF wf] by blast
  next
    case no_kill
    have stopping: "stored E d r ?w2 (rewritten OCI_STATUS_STOPPING c)"
      using no_kill(1) stored_wrote(1) by (simp add: keeps_files_def)
    show ?thesis
    proof (cases "write_ok E r c (k_status c) ?w2")
      case True
      then have "persisted E d r w' c (Some (k_status c))"
        using no_kill(3) stored_wrote(1) persisted_rewritten [OF valid] by simp
      then show ?thesis using no_kill(2) lifecycle.failed by blast
    next
      case False
      then have "stored E d r w' (rewritten OCI_STATUS_STOPPING c)"
        using no_kill(3) stored_wrote(2) stopping by simp
      then have "persisted E d r w' c (Some OCI_STATUS_STOPPING)" by (rule persisted_rewritten [rotated]) simp
      then show ?thesis using no_kill(2) lifecycle.kill_torn by blast
    qed
  next
    case killed
    have stopping: "stored E d r ?w2 (rewritten OCI_STATUS_STOPPING c)"
      using killed(1) stored_wrote(1) by (simp add: keeps_files_def)
    show ?thesis
    proof (cases b)
      case True
      then have "stored E d r w' (rewritten OCI_STATUS_STOPPED c)" using killed stored_wrote(1) by simp
      then have "persisted E d r w' c (Some OCI_STATUS_STOPPED)" by (rule persisted_rewritten [rotated]) simp
      then show ?thesis using True by (auto intro: lifecycle.kill)
    next
      case False
      then have "stored E d r w' (rewritten OCI_STATUS_STOPPING c)"
        using killed stored_wrote(2) stopping by simp
      then have "persisted E d r w' c (Some OCI_STATUS_STOPPING)" by (rule persisted_rewritten [rotated]) simp
      then show ?thesis using False by (auto intro: lifecycle.kill_torn)
    qed
  qed
qed


subsubsection \<open>pause and resume\<close>

context vm_command
begin

lemma keeps_stored: "op E path pid w = Some (b, w') \<Longrightarrow> stored E d r w' c = stored E d r w c"
  by (simp add: stored_def keeps_files)

end

lemma toggle_refines:
  assumes wf: "wf_container c" and st: "stored E d r w c"
    and run: "clr_oci_toggle E (loaded r c) (emptied (state_of c)) pausing w = Some (b, config, w')"
  shows "\<exists>s. lifecycle (Some (k_status c)) (if pausing then CPause else CResume) b s \<and> persisted E d r w' c s"
proof -
  let ?dest = "if pausing then OCI_STATUS_PAUSED else OCI_STATUS_RUNNING"
  have step: "lifecycle (Some (k_status c)) (if pausing then CPause else CResume) True (Some ?dest)"
    by (auto intro: lifecycle.intros)
  show ?thesis
  proof (cases "k_status c = ?dest")
    case True
    with run have "b" "w' = w" by (simp_all add: clr_oci_toggle_def)
    with persisted_stored [OF wf st] step True show ?thesis by fastforce
  next
    case False
    let ?op = "if pausing then clr_oci_vm_pause else clr_oci_vm_resume"
    from run False obtain ret w1 where op: "?op E (Some (k_comms c)) (k_pid c) w = Some (ret, w1)"
      and rest: "(if \<not> ret then Some (False, loaded r c, w1)
        else Some (clr_oci_state_file_create E (set_status ?dest (loaded r c)) (Some (k_created c)) w1)) =
        Some (b, config, w')"
      unfolding clr_oci_toggle_def Let_def emptied_fields by (auto simp: bind_eq_Some_conv split: if_splits)
    have st1: "stored E d r w1 c"
      using op st pause.keeps_stored resume.keeps_stored by (cases pausing) simp_all
    show ?thesis
    proof (cases ret)
      case False
      with rest st1 have "\<not> b" "persisted E d r w' c (Some (k_status c))"
        using persisted_stored [OF wf] by simp_all
      then show ?thesis using lifecycle.failed by fastforce
    next
      case True
      have dest: "?dest \<noteq> OCI_STATUS_INVALID" by simp
      from rest True have b: "b = write_ok E r c ?dest w1" and w': "w' = wrote E r c ?dest w1"
        by (simp_all only: write_status [OF wf dest] simp_thms if_False not_True_eq_False option.inject prod.inject)
      show ?thesis
      proof (cases b)
        case True
        then have "persisted E d r w' c (Some ?dest)"
          using b w' stored_wrote(1) persisted_rewritten [OF dest] by metis
        then show ?thesis using True step by auto
      next
        case False
        then have "stored E d r w' c" using b w' stored_wrote(2) st1 by metis
        then have "persisted E d r w' c (Some (k_status c))" by (rule persisted_stored [OF wf])
        then show ?thesis using False lifecycle.failed by auto
      qed
    qed
  qed
qed

subsubsection \<open>start\<close>

definition no_terminal :: "env \<Rightarrow> container \<Rightarrow> bool" where
  "no_terminal E c \<longleftrightarrow> k_socket c \<or> (\<forall>w. \<not> sys_bool E w IsATty)"

lemma loaded_fields [simp]:
  "hooks (oci (loaded r c)) = \<lparr>prestart = [], poststart = [], poststop = []\<rparr>"
  "use_socket_console (loaded r c) = k_socket c" "workload_pid (cstate (loaded r c)) = k_pid c"
  by (simp_all add: loaded_def)

lemma start_refines:
  assumes wf: "wf_container c" and st: "stored E d r w c" and tty: "no_terminal E c"
    and run: "clr_oci_start E (loaded r c) (emptied (state_of c)) None w = Some (b, config, w')"
  shows "\<exists>s. lifecycle (Some (k_status c)) CStart b s \<and> persisted E d r w' c s"
proof (cases "k_status c = OCI_STATUS_CREATED")
  case False
  with run have "\<not> b" "extends_by keeps_files w w'"
    by (auto simp: clr_oci_start_def clr_oci_vm_running_def callI_def keeps_files_def split: if_splits)
  then show ?thesis
    using st stored_extends persisted_stored [OF wf] lifecycle.failed by fastforce
next
  case True
  let ?w1 = "(IsATty, RBool (sys_bool E w IsATty)) # w"
  let ?w2 = "(Kill (k_pid c) SIGCONT, RInt (sys_int E ?w1 (Kill (k_pid c) SIGCONT))) # ?w1"
  have st2: "stored E d r ?w1 c" "stored E d r ?w2 c" using st by (simp_all add: keeps_files_def)
  have nowait: "\<not> (sys_bool E w IsATty \<and> \<not> detached_mode (loaded r c) \<and> \<not> k_socket c)"
    using tty by (auto simp: no_terminal_def)
  have running: "OCI_STATUS_RUNNING \<noteq> OCI_STATUS_INVALID" by simp
  from run True nowait have outc:
    "if sys_int E ?w1 (Kill (k_pid c) SIGCONT) < 0 then \<not> b \<and> w' = ?w1 \<or> \<not> b \<and> w' = ?w2
     else b = write_ok E r c OCI_STATUS_RUNNING ?w2 \<and> w' = wrote E r c OCI_STATUS_RUNNING ?w2"
    by (auto simp: clr_oci_start_def start_wait_setup_def callI_def Let_def write_status [OF wf running]
        clr_run_hooks_def callB_def [of E IsATty] split: if_splits bool.splits)
  show ?thesis
  proof (cases "\<not> b")
    case True
    with outc st2 have "stored E d r w' c"
      using stored_wrote(2) by (auto split: if_splits)
    then show ?thesis using True persisted_stored [OF wf] lifecycle.failed by fastforce
  next
    case False
    with outc have "write_ok E r c OCI_STATUS_RUNNING ?w2" "w' = wrote E r c OCI_STATUS_RUNNING ?w2"
      by (auto split: if_splits)
    then have "persisted E d r w' c (Some OCI_STATUS_RUNNING)"
      using stored_wrote(1) persisted_rewritten [OF running] by metis
    then show ?thesis using False True lifecycle.start by auto
  qed
qed

subsubsection \<open>delete\<close>

lemma process_config_stop_hooks:
  "process_config_stop node (config, w) = Some s \<Longrightarrow>
     \<exists>h. s = (config\<lparr>oci := (oci config)\<lparr>hooks := h\<rparr>\<rparr>, w)"
proof -
  have same: "config\<lparr>oci := (oci config)\<lparr>hooks := hooks (oci config)\<rparr>\<rparr> = config" for config :: clr_oci_config
    by simp
  have sect: "\<exists>h. fst t = config\<lparr>oci := (oci config)\<lparr>hooks := h\<rparr>\<rparr>"
    if "foreach handle_hooks_section ns (config, None, False) = Some t" for ns t
  proof (rule foreach_invariant [where I = "\<lambda>t. \<exists>h. fst t = config\<lparr>oci := (oci config)\<lparr>hooks := h\<rparr>\<rparr>", OF that])
    show "\<exists>h. fst (config, None, False) = config\<lparr>oci := (oci config)\<lparr>hooks := h\<rparr>\<rparr>"
      using same [of config] by (metis fst_conv)
  next
    fix x s t
    assume "handle_hooks_section x s = Some t" "\<exists>h. fst s = config\<lparr>oci := (oci config)\<lparr>hooks := h\<rparr>\<rparr>"
    then show "\<exists>h. fst t = config\<lparr>oci := (oci config)\<lparr>hooks := h\<rparr>\<rparr>"
      by (cases s) (auto simp: handle_hooks_section_def bind_eq_Some_conv Let_def case_prod_beta split: if_splits option.splits)
  qed
  assume "process_config_stop node (config, w) = Some s"
  then have "s = (config, w) \<or> (\<exists>t. foreach handle_hooks_section (gchildren node) (config, None, False) = Some t
      \<and> s = (fst t, w))"
    by (auto simp: process_config_stop_def run_spec_handler_def stop_spec_handlers_def pure_handler_def
        hooks_handle_section_def bind_eq_Some_conv split: option.splits if_splits)
  then show ?thesis
  proof
    assume "s = (config, w)"
    then show ?thesis using same [of config] by metis
  next
    assume "\<exists>t. foreach handle_hooks_section (gchildren node) (config, None, False) = Some t \<and> s = (fst t, w)"
    then obtain t where t: "foreach handle_hooks_section (gchildren node) (config, None, False) = Some t"
      "s = (fst t, w)" by blast
    from sect [OF t(1)] t(2) show ?thesis by auto
  qed
qed

lemma config_stop_hooks:
  assumes "foreach process_config_stop ns (config, w) = Some s"
  shows "\<exists>h. s = (config\<lparr>oci := (oci config)\<lparr>hooks := h\<rparr>\<rparr>, w)"
proof (rule foreach_invariant [where I = "\<lambda>s. \<exists>h. s = (config\<lparr>oci := (oci config)\<lparr>hooks := h\<rparr>\<rparr>, w)", OF assms])
  show "\<exists>h. (config, w) = (config\<lparr>oci := (oci config)\<lparr>hooks := h\<rparr>\<rparr>, w)"
    by (rule exI [of _ "hooks (oci config)"]) simp
next
  fix x s t
  assume "process_config_stop x s = Some t" "\<exists>h. s = (config\<lparr>oci := (oci config)\<lparr>hooks := h\<rparr>\<rparr>, w)"
  then show "\<exists>h. t = (config\<lparr>oci := (oci config)\<lparr>hooks := h\<rparr>\<rparr>, w)"
    using process_config_stop_hooks by fastforce
qed

lemma unmounts_keep_files: "clr_oci_handle_unmounts E config w = (b, w') \<Longrightarrow> extends_by keeps_files w w'"
  by (rule unmounts_extend) (simp add: keeps_files_def)

text \<open>A stop leaves the state file as it was and fails, or removes it.\<close>

lemma cleanup_file:
  assumes "clr_oci_cleanup E config w = Some (b, w')"
  shows "file_view d w' (state_file_path (cstate config)) = None
     \<or> \<not> b \<and> extends_by keeps_files w w'
     \<or> \<not> b \<and> file_view d w' (state_file_path (cstate config)) = file_view d w (state_file_path (cstate config))"
proof -
  let ?p = "state_file_path (cstate config)"
  obtain um w1 where u: "clr_oci_handle_unmounts E config w = (um, w1)" by (cases "clr_oci_handle_unmounts E config w")
  note e1 = unmounts_keep_files [OF u]
  let ?w2 = "(Unlink ?p, RInt (sys_int E w1 (Unlink ?p))) # w1"
  have rm: "extends_by keeps_files v (snd (clr_oci_runtime_dir_delete E config v))" for v
    by (auto simp: clr_oci_runtime_dir_delete_def clr_oci_rm_rf_def callI_def Let_def keeps_files_def)
  show ?thesis
  proof (cases um)
    case False
    with assms u e1 show ?thesis by (simp add: clr_oci_cleanup_def)
  next
    case True
    show ?thesis
    proof (cases "sys_int E w1 (Unlink ?p) = 0")
      case u0: True
      with assms u True have "w' = snd (clr_oci_runtime_dir_delete E config ?w2)"
        by (auto simp: clr_oci_cleanup_def clr_oci_state_file_delete_def callI_def split: if_splits)
      then have "file_view d w' ?p = file_view d ?w2 ?p" using file_view_extends [OF rm [of ?w2]] by simp
      also have "\<dots> = None" using u0 by simp
      finally show ?thesis by simp
    next
      case False
      with assms u True have "\<not> b" "w' = ?w2"
        by (auto simp: clr_oci_cleanup_def clr_oci_state_file_delete_def callI_def split: if_splits)
      then show ?thesis using False file_view_extends [OF e1] by (simp add: file_view_unlink)
    qed
  qed
qed

lemma stop_file:
  assumes "clr_oci_stop E config state w = Some (b, w')"
  shows "file_view d w' (state_file_path (cstate config)) = None
     \<or> \<not> b \<and> file_view d w' (state_file_path (cstate config)) = file_view d w (state_file_path (cstate config))"
proof -
  let ?p = "state_file_path (cstate config)"
  obtain run w1 where r: "clr_oci_vm_running E state w = (run, w1)" by (cases "clr_oci_vm_running E state w")
  have e1: "extends_by keeps_files w w1"
    using r by (auto simp: clr_oci_vm_running_def callI_def keeps_files_def split: if_splits)
  from assms r obtain go w2 where g: "(if run then clr_oci_vm_shutdown E (s_comms_path state) (s_pid state) w1
      else Some (True, w1)) = Some (go, w2)"
    and rest: "(if \<not> go then Some (False, w2)
     else do {
       (ret, w) \<leftarrow> clr_oci_cleanup E config w2;
       let (_, w) = clr_run_hooks E (poststop (hooks (oci config))) ?p False w;
       Some (ret, w)
     }) = Some (b, w')"
    by (auto simp: clr_oci_stop_def bind_eq_Some_conv)
  have v2: "file_view d w2 ?p = file_view d w ?p"
    using g shutdown.keeps_files file_view_extends [OF e1] by (cases run) auto
  show ?thesis
  proof (cases go)
    case False
    with rest v2 show ?thesis by simp
  next
    case True
    with rest obtain ret w3 where c0: "clr_oci_cleanup E config w2 = Some (ret, w3)"
      and rest3: "(let (_, w) = clr_run_hooks E (poststop (hooks (oci config))) ?p False w3 in Some (ret, w)) = Some (b, w')"
      by (cases "clr_oci_cleanup E config w2") auto
    obtain ok w4 where h0: "clr_run_hooks E (poststop (hooks (oci config))) ?p False w3 = (ok, w4)"
      by (cases "clr_run_hooks E (poststop (hooks (oci config))) ?p False w3")
    from rest3 have c: "clr_oci_cleanup E config w2 = Some (b, w3)"
      and h: "clr_run_hooks E (poststop (hooks (oci config))) ?p False w3 = (ok, w')"
      using c0 h0 by simp_all
    have "file_view d w' ?p = file_view d w3 ?p"
      by (rule file_view_extends [OF run_hooks_keeps_files [OF h]])
    with cleanup_file [OF c, of d] v2 show ?thesis using file_view_extends by fastforce
  qed
qed


lemma exists_stored:
  assumes "faithful E d (state_path r cid)"
  shows "clr_oci_state_file_exists E ((base r)\<lparr>optarg_container_id := Some cid\<rparr>) w =
     (file_view d w (state_path r cid) \<noteq> None,
      (base r)\<lparr>optarg_container_id := Some cid,
        cstate := container_state0\<lparr>runtime_path := run_path r cid, state_file_path := state_path r cid\<rparr>\<rparr>,
      (FileExists (state_path r cid), RBool (file_view d w (state_path r cid) \<noteq> None)) # w)"
  using assms by (simp add: clr_oci_state_file_exists_def paths_of_base faithful_def callB_def)

text \<open>Looking at the file again does not change what is read.\<close>

lemma get_again:
  "clr_oci_get_config_and_state E ((base r)\<lparr>optarg_container_id := Some cid,
     cstate := container_state0\<lparr>runtime_path := run_path r cid, state_file_path := state_path r cid\<rparr>\<rparr>) w =
   clr_oci_get_config_and_state E ((base r)\<lparr>optarg_container_id := Some cid\<rparr>) w"
proof -
  have "clr_oci_runtime_path_get ((base r)\<lparr>optarg_container_id := Some cid,
     cstate := container_state0\<lparr>runtime_path := run_path r cid, state_file_path := state_path r cid\<rparr>\<rparr>) =
     (True, (base r)\<lparr>optarg_container_id := Some cid,
        cstate := container_state0\<lparr>runtime_path := run_path r cid, state_file_path := state_path r cid\<rparr>\<rparr>)"
    by (simp add: clr_oci_runtime_path_get_def run_path_def)
  moreover have "clr_oci_state_file_get ((base r)\<lparr>optarg_container_id := Some cid,
        cstate := container_state0\<lparr>runtime_path := run_path r cid, state_file_path := state_path r cid\<rparr>\<rparr>) =
     (True, (base r)\<lparr>optarg_container_id := Some cid,
        cstate := container_state0\<lparr>runtime_path := run_path r cid, state_file_path := state_path r cid\<rparr>\<rparr>)"
    by (simp add: clr_oci_state_file_get_def state_path_def)
  ultimately show ?thesis
    unfolding clr_oci_get_config_and_state_def by (simp only: paths_of_base prod.case if_True bool.case)
qed

lemma json_parse_keeps: "clr_oci_json_parse E f w = (root, w') \<Longrightarrow> extends_by keeps_files w w'"
  by (auto simp: clr_oci_json_parse_def callS_def keeps_files_def split: option.splits if_splits)

lemma print_keeps [simp]: "extends_by keeps_files w (g_print E s w)"
  by (simp add: g_print_def callB_def keeps_files_def)

lemma no_help: "wf_container c \<Longrightarrow> handle_default_usage E (k_id c # rest) cmd w = (None, w)"
  by (simp add: handle_default_usage_def is_help_def wf_container_def readable_def)

lemma got_stopping: "(got r c)\<lparr>oci := oci', cstate := cstate (got r c)\<rparr> = (got r c)\<lparr>oci := oci'\<rparr>"
  by simp

text \<open>"delete" of a container whose state file can be read.\<close>

lemma delete_unfolded:
  assumes F: "faithful E d (state_path r (k_id c))" and st: "stored E d r w c" and wf: "wf_container c"
  shows "\<exists>rep. handle_command_stop E name (base r) (k_id c # rest) w =
     (case clr_oci_json_parse E (Some (bundle_config c))
             ((FileGet (state_path r (k_id c)), rep) # (FileExists (state_path r (k_id c)), RBool True) # w) of
        (None, w) \<Rightarrow> Some (True, w)
      | (Some tree, w) \<Rightarrow> do {
          (config, w) \<leftarrow> foreach process_config_stop (gchildren tree) (got r c, w);
          (ret, w) \<leftarrow> clr_oci_stop E (config\<lparr>oci := (oci config)\<lparr>mounts := s_mounts (state_of c)\<rparr>\<rparr>)
            ((state_of c)\<lparr>s_mounts := []\<rparr>) w;
          Some (ret, if ret then g_print E (''stopped container '' @
            fmt_s (optarg_container_id config) @ [CHR 0x0A]) w else w)
        })"
proof -
  let ?w1 = "(FileExists (state_path r (k_id c)), RBool True) # w"
  have there: "file_view d w (state_path r (k_id c)) \<noteq> None" using st by (simp add: stored_def)
  have "stored E d r ?w1 c" using st by (simp add: keeps_files_def)
  from get_stored_config [OF F this wf] obtain rep where
    get: "clr_oci_get_config_and_state E ((base r)\<lparr>optarg_container_id := Some (k_id c)\<rparr>) ?w1 =
     Some (True, Some (bundle_config c), got r c, Live (state_of c), (FileGet (state_path r (k_id c)), rep) # ?w1)" by blast
  then show ?thesis
    using there
    by (intro exI [of _ rep])
      (simp add: handle_command_stop_def no_help [OF wf] exists_stored [OF F] get_again Let_def
        split: option.splits prod.splits cong: if_cong)
qed

lemma delete_refines:
  assumes F: "faithful E d (state_path r (k_id c))" and st: "stored E d r w c" and wf: "wf_container c"
    and run: "handle_command_stop E name (base r) (k_id c # rest) w = Some (b, w')"
  shows "\<exists>s. lifecycle (Some (k_status c)) CDelete b s \<and> persisted E d r w' c s"
proof -
  let ?p = "state_path r (k_id c)"
  let ?w1 = "(FileExists ?p, RBool True) # w"
  from delete_unfolded [OF F st wf, of name rest] obtain rep where
    del: "handle_command_stop E name (base r) (k_id c # rest) w =
     (case clr_oci_json_parse E (Some (bundle_config c)) ((FileGet ?p, rep) # ?w1) of
        (None, w) \<Rightarrow> Some (True, w)
      | (Some tree, w) \<Rightarrow> do {
          (config, w) \<leftarrow> foreach process_config_stop (gchildren tree) (got r c, w);
          (ret, w) \<leftarrow> clr_oci_stop E (config\<lparr>oci := (oci config)\<lparr>mounts := s_mounts (state_of c)\<rparr>\<rparr>)
            ((state_of c)\<lparr>s_mounts := []\<rparr>) w;
          Some (ret, if ret then g_print E (''stopped container '' @
            fmt_s (optarg_container_id config) @ [CHR 0x0A]) w else w)
        })" by blast
  let ?w2 = "(FileGet ?p, rep) # ?w1"
  have st2: "stored E d r ?w2 c" using st by (simp add: keeps_files_def)
  obtain root w3 where parse: "clr_oci_json_parse E (Some (bundle_config c)) ?w2 = (root, w3)"
    by (cases "clr_oci_json_parse E (Some (bundle_config c)) ?w2")
  have st3: "stored E d r w3 c" using stored_extends [OF json_parse_keeps [OF parse]] st2 by simp
  have same: "persisted E d r w3 c (Some (k_status c))" by (rule persisted_stored [OF wf st3])
  have unfolded: "(case root of None \<Rightarrow> Some (True, w3)
      | Some tree \<Rightarrow> do {
          (config, w) \<leftarrow> foreach process_config_stop (gchildren tree) (got r c, w3);
          (ret, w) \<leftarrow> clr_oci_stop E (config\<lparr>oci := (oci config)\<lparr>mounts := s_mounts (state_of c)\<rparr>\<rparr>)
            ((state_of c)\<lparr>s_mounts := []\<rparr>) w;
          Some (ret, if ret then g_print E (''stopped container '' @
            fmt_s (optarg_container_id config) @ [CHR 0x0A]) w else w)
        }) = Some (b, w')"
    using run del parse by (simp split: option.splits)
  show ?thesis
  proof (cases root)
    case None
    with unfolded have "b" "w' = w3" by simp_all
    then show ?thesis using same lifecycle.delete_skipped by auto
  next
    case (Some tree)
    with unfolded obtain config w4 ret w5 where
      fe: "foreach process_config_stop (gchildren tree) (got r c, w3) = Some (config, w4)"
      and stop: "clr_oci_stop E (config\<lparr>oci := (oci config)\<lparr>mounts := s_mounts (state_of c)\<rparr>\<rparr>)
          ((state_of c)\<lparr>s_mounts := []\<rparr>) w4 = Some (ret, w5)"
      and fin: "b = ret" "extends_by keeps_files w5 w'"
      by (auto simp: bind_eq_Some_conv split: if_splits)
    from config_stop_hooks [OF fe] have w4: "w4 = w3"
      and p: "state_file_path (cstate config) = ?p" by (auto simp: got_def)
    from stop_file [OF stop, of d] p w4
    consider "file_view d w5 ?p = None" | "\<not> b" "file_view d w5 ?p = file_view d w3 ?p"
      using fin by auto
    then show ?thesis
    proof cases
      case 1
      then have "persisted E d r w' c None"
        using file_view_extends [OF fin(2)] by (simp add: persisted_def)
      then show ?thesis using lifecycle.delete by blast
    next
      case 2
      then have "stored E d r w' c" using st3 file_view_extends [OF fin(2)] by (simp add: stored_def)
      then show ?thesis using 2 persisted_stored [OF wf] lifecycle.failed by fastforce
    qed
  qed
qed

subsection \<open>Refinement of a session\<close>

text \<open>
  Each command is a process of its own: it starts from the configuration that
  \<^verbatim>\<open>main\<close> made and knows of the others only what they left in the files.
\<close>

definition no_start_data :: start_data where
  "no_start_data = \<lparr>sd_bundle = None, sd_console = None, sd_pid_file = None, sd_detach = False,
     sd_dry_run_mode = False\<rparr>"

definition run_command :: "env \<Rightarrow> cstring \<Rightarrow> string \<Rightarrow> command \<Rightarrow> world \<Rightarrow> (bool \<times> world) option" where
  "run_command E r cid cmd w =
     (case cmd of
        CStart \<Rightarrow> handler_start E ''start'' no_start_data (base r) [cid] w
      | CKill args \<Rightarrow> handler_kill E ''kill'' (base r) (cid # args) w
      | CPause \<Rightarrow> handler_pause E ''pause'' (base r) [cid] w
      | CResume \<Rightarrow> handler_resume E ''resume'' (base r) [cid] w
      | CDelete \<Rightarrow> handle_command_stop E ''delete'' (base r) [cid] w)"

fun session_of ::
  "(command \<Rightarrow> world \<Rightarrow> (bool \<times> world) option) \<Rightarrow> command list \<Rightarrow> world \<Rightarrow> (bool list \<times> world) option" where
  "session_of run [] w = Some ([], w)"
| "session_of run (cmd # cmds) w = do {
     (b, w) \<leftarrow> run cmd w;
     (bs, w) \<leftarrow> session_of run cmds w;
     Some (b # bs, w)
   }"

definition session :: "env \<Rightarrow> cstring \<Rightarrow> string \<Rightarrow> command list \<Rightarrow> world \<Rightarrow> (bool list \<times> world) option" where
  "session E r cid = session_of (run_command E r cid)"

inductive lifecycles :: "oci_status option \<Rightarrow> (command \<times> bool) list \<Rightarrow> oci_status option \<Rightarrow> bool" where
  nil: "lifecycles s [] s"
| cons: "lifecycle s cmd b t \<Longrightarrow> lifecycles t steps u \<Longrightarrow> lifecycles s ((cmd, b) # steps) u"

inductive_cases lifecycles_consE: "lifecycles s (x # steps) u"
inductive_simps lifecycles_nil [simp]: "lifecycles s [] u"

lemma no_terminal_same: "same_container s c c' \<Longrightarrow> no_terminal E c \<Longrightarrow> no_terminal E c'"
  by (auto simp: same_container_def rewritten_def no_terminal_def)

lemma no_default_usage: "cid \<noteq> ''--help'' \<Longrightarrow> cid \<noteq> ''-h'' \<Longrightarrow> handle_default_usage E (cid # rest) cmd w = (None, w)"
  by (simp add: handle_default_usage_def is_help_def)

lemma running_refines:
  assumes F: "faithful E d (state_path r (k_id c))" and st: "stored E d r w c" and wf: "wf_container c"
    and tty: "no_terminal E c" and run: "run_command E r (k_id c) cmd w = Some (b, w')"
  shows "\<exists>s. lifecycle (Some (k_status c)) cmd b s \<and> persisted E d r w' c s"
proof -
  let ?p = "state_path r (k_id c)"
  obtain cf rep where get: "clr_oci_get_config_and_state E ((base r)\<lparr>optarg_container_id := Some (k_id c)\<rparr>) w =
     Some (True, Some cf, got r c, Live (state_of c), (FileGet ?p, rep) # w)"
    using get_stored [OF F st wf] by blast
  let ?w1 = "(FileGet ?p, rep) # w"
  have st1: "stored E d r ?w1 c" using st by (simp add: keeps_files_def)
  have nohelp: "\<not> is_help (k_id c # rest)" for rest using wf by (simp add: is_help_def wf_container_def readable_def)
  note facts = get update_stored [OF wf] no_help [OF wf]
  show ?thesis
  proof (cases cmd)
    case CStart
    with run facts obtain config where "clr_oci_start E (loaded r c) (emptied (state_of c)) None ?w1 = Some (b, config, w')"
      by (auto simp: run_command_def handler_start_def no_start_data_def bind_eq_Some_conv)
    from start_refines [OF wf st1 tty this] show ?thesis by (simp add: CStart)
  next
    case (CKill args)
    show ?thesis
    proof (cases "kill_signal (k_id c # args) < 0")
      case True
      with run CKill nohelp have "\<not> b" "w' = w" by (simp_all add: run_command_def handler_kill_def)
      then show ?thesis using persisted_stored [OF wf st] lifecycle.failed by fastforce
    next
      case False
      with run CKill nohelp facts obtain config where
        "clr_oci_kill E (loaded r c) (emptied (state_of c)) (kill_signal (k_id c # args)) ?w1 = (b, config, w')"
        by (auto simp: run_command_def handler_kill_def split: prod.splits)
      from kill_refines [OF wf st1 this, of args] show ?thesis by (simp add: CKill)
    qed
  next
    case CPause
    with run facts obtain config w2 where
      t: "clr_oci_toggle E (loaded r c) (emptied (state_of c)) True ?w1 = Some (b, config, w2)"
      and k: "extends_by keeps_files w2 w'"
      by (auto simp: run_command_def handler_pause_def handle_command_toggle_def clr_oci_state_free_def
          bind_eq_Some_conv split: if_splits)
    from toggle_refines [OF wf st1 t] k show ?thesis by (auto simp: CPause persisted_extends)
  next
    case CResume
    with run facts obtain config w2 where
      t: "clr_oci_toggle E (loaded r c) (emptied (state_of c)) False ?w1 = Some (b, config, w2)"
      and k: "extends_by keeps_files w2 w'"
      by (auto simp: run_command_def handler_resume_def handle_command_toggle_def clr_oci_state_free_def
          bind_eq_Some_conv split: if_splits)
    from toggle_refines [OF wf st1 t] k show ?thesis by (auto simp: CResume persisted_extends)
  next
    case CDelete
    with run have "handle_command_stop E ''delete'' (base r) (k_id c # []) w = Some (b, w')"
      by (simp add: run_command_def)
    from delete_refines [OF F st wf this] show ?thesis by (simp add: CDelete)
  qed
qed

lemma gone_refines:
  assumes F: "faithful E d (state_path r cid)" and none: "file_view d w (state_path r cid) = None"
    and cid: "cid \<noteq> ''--help''" "cid \<noteq> ''-h''" and run: "run_command E r cid cmd w = Some (b, w')"
  shows "lifecycle None cmd b None \<and> file_view d w' (state_path r cid) = None"
proof -
  obtain config w1 where get: "clr_oci_get_config_and_state E ((base r)\<lparr>optarg_container_id := Some cid\<rparr>) w =
     Some (False, None, config, NoState, w1)" and k: "extends_by keeps_files w w1"
    using get_missing [OF F none] by blast
  have none1: "file_view d w1 (state_path r cid) = None" using file_view_extends [OF k] none by simp
  have nohelp: "\<not> is_help (cid # rest)" for rest using cid by (simp add: is_help_def)
  note facts = get no_default_usage [OF cid] nohelp
  show ?thesis
  proof (cases cmd)
    case CDelete
    with run facts none exists_stored [OF F, of w] have "b"
      "w' = (FileExists (state_path r cid), RBool False) # w"
      by (simp_all add: run_command_def handle_command_stop_def)
    then show ?thesis using none CDelete lifecycle.delete_gone by (simp add: keeps_files_def del: file_view.simps)
  next
    case CStart
    with run facts have "\<not> b" "w' = w1" by (simp_all add: run_command_def handler_start_def)
    then show ?thesis using none1 CStart lifecycle.gone by simp
  next
    case (CKill args)
    with run facts have "\<not> b" "w' = w1 \<or> w' = w"
      by (auto simp: run_command_def handler_kill_def clr_oci_state_free_def split: if_splits)
    then show ?thesis using none none1 CKill lifecycle.gone by auto
  next
    case CPause
    with run facts have "\<not> b" "w' = w1"
      by (simp_all add: run_command_def handler_pause_def handle_command_toggle_def clr_oci_state_free_def)
    then show ?thesis using none1 CPause lifecycle.gone by simp
  next
    case CResume
    with run facts have "\<not> b" "w' = w1"
      by (simp_all add: run_command_def handler_resume_def handle_command_toggle_def clr_oci_state_free_def)
    then show ?thesis using none1 CResume lifecycle.gone by simp
  qed
qed

text \<open>
  "start" without a terminal and "kill" always come to an end: nothing they do waits for the
  hypervisor, and on a container's state file none of their checks kills the process.
\<close>

fun prompt :: "command \<Rightarrow> bool" where
  "prompt CStart = True"
| "prompt (CKill args) = True"
| "prompt _ = False"

lemma prompt_returns:
  assumes F: "faithful E d (state_path r (k_id c))" and st: "stored E d r w c" and wf: "wf_container c"
    and tty: "no_terminal E c" and prompt: "prompt cmd"
  shows "\<exists>b w'. run_command E r (k_id c) cmd w = Some (b, w')"
proof -
  obtain cf rep where get: "clr_oci_get_config_and_state E ((base r)\<lparr>optarg_container_id := Some (k_id c)\<rparr>) w =
     Some (True, Some cf, got r c, Live (state_of c), (FileGet (state_path r (k_id c)), rep) # w)"
    using get_stored [OF F st wf] by blast
  show ?thesis
  proof (cases cmd)
    case CStart
    have nowait: "use_socket_console (loaded r c) = k_socket c" by (simp add: loaded_def)
    have "\<exists>out. clr_oci_start E (loaded r c) (emptied (state_of c)) None v = Some out" for v
      using tty nowait
      by (auto simp: clr_oci_start_def start_wait_setup_def no_terminal_def Let_def callB_def [of E IsATty]
          split: prod.split bool.split)
    then obtain b config w2 where
      "clr_oci_start E (loaded r c) (emptied (state_of c)) None ((FileGet (state_path r (k_id c)), rep) # w) =
         Some (b, config, w2)" by (metis prod.exhaust)
    with CStart get update_stored [OF wf] no_help [OF wf] show ?thesis
      by (simp add: run_command_def handler_start_def no_start_data_def)
  next
    case (CKill args)
    with get update_stored [OF wf] show ?thesis
      by (auto simp: run_command_def handler_kill_def split: prod.split)
  qed (use prompt in simp_all)
qed

lemma prompt_stays: "lifecycle s cmd b t \<Longrightarrow> prompt cmd \<Longrightarrow> s \<noteq> None \<Longrightarrow> t \<noteq> None"
  by (induction rule: lifecycle.induct) simp_all

text \<open>
  Whatever runs the commands, a handler or a whole process, refines the abstract machine when
  it runs the command's handler after steps that change no file.
\<close>

locale session_runner =
  fixes run :: "env \<Rightarrow> cstring \<Rightarrow> string \<Rightarrow> command \<Rightarrow> world \<Rightarrow> (bool \<times> world) option"
    and able :: "env \<Rightarrow> cstring \<Rightarrow> string \<Rightarrow> bool"
  assumes runs_command: "able E r cid \<Longrightarrow>
    \<exists>v. extends_by keeps_files w v \<and> run E r cid cmd w = run_command E r cid cmd v"
begin

lemma gone_session:
  assumes "able E r cid" "faithful E d (state_path r cid)" "cid \<noteq> ''--help''" "cid \<noteq> ''-h''"
  shows "file_view d w (state_path r cid) = None \<Longrightarrow> session_of (run E r cid) cmds w = Some (bs, w') \<Longrightarrow>
     lifecycles None (zip cmds bs) None \<and> length bs = length cmds \<and> file_view d w' (state_path r cid) = None"
proof (induction cmds arbitrary: w bs)
  case (Cons cmd cmds)
  from Cons.prems(2) obtain b w1 bs' where run: "run E r cid cmd w = Some (b, w1)"
    and rest: "session_of (run E r cid) cmds w1 = Some (bs', w')" and bs: "bs = b # bs'"
    by (auto simp: bind_eq_Some_conv)
  obtain v where v: "extends_by keeps_files w v" "run_command E r cid cmd v = Some (b, w1)"
    using runs_command [OF assms(1)] run by metis
  have "file_view d v (state_path r cid) = None" using file_view_extends [OF v(1)] Cons.prems(1) by simp
  from gone_refines [OF assms(2) this assms(3,4) v(2)]
  have step: "lifecycle None cmd b None" and none: "file_view d w1 (state_path r cid) = None" by simp_all
  from Cons.IH [OF none rest] step show ?case by (simp add: bs lifecycles.cons)
qed simp

lemma session_simulation:
  assumes "able E r (k_id c)" and "faithful E d (state_path r (k_id c))" and "wf_container c" and "no_terminal E c"
  shows "stored E d r w c \<Longrightarrow> session_of (run E r (k_id c)) cmds w = Some (bs, w') \<Longrightarrow>
     length bs = length cmds \<and>
     (\<exists>s. lifecycles (Some (k_status c)) (zip cmds bs) s \<and> persisted E d r w' c s)"
  using assms
proof (induction cmds arbitrary: w c bs)
  case Nil
  then show ?case using persisted_stored by auto
next
  case (Cons cmd cmds)
  note able = Cons.prems(3) and F = Cons.prems(4) and wf = Cons.prems(5) and tty = Cons.prems(6)
  from Cons.prems(2) obtain b w1 bs' where run: "run E r (k_id c) cmd w = Some (b, w1)"
    and rest: "session_of (run E r (k_id c)) cmds w1 = Some (bs', w')" and bs: "bs = b # bs'"
    by (auto simp: bind_eq_Some_conv)
  obtain v where v: "extends_by keeps_files w v" "run_command E r (k_id c) cmd v = Some (b, w1)"
    using runs_command [OF able] run by metis
  have "stored E d r v c" using Cons.prems(1) stored_extends [OF v(1)] by simp
  from running_refines [OF F this wf tty v(2)] obtain s where
    step: "lifecycle (Some (k_status c)) cmd b s" and per: "persisted E d r w1 c s" by blast
  show ?case
  proof (cases s)
    case None
    with per have "file_view d w1 (state_path r (k_id c)) = None" by (simp add: persisted_def)
    from gone_session [OF able F _ _ this rest] wf None step
    show ?thesis by (auto simp: wf_container_def readable_def bs persisted_def intro: lifecycles.cons)
  next
    case (Some t)
    with per obtain c1 where c1: "same_container t c c1" "stored E d r w1 c1" by (auto simp: persisted_def)
    note ids = same_container_facts [OF c1(1)]
    have "length bs' = length cmds \<and> (\<exists>s. lifecycles (Some (k_status c1)) (zip cmds bs') s \<and> persisted E d r w' c1 s)"
      using Cons.IH [OF c1(2)] rest able F ids(1) ids(3) [OF wf] no_terminal_same [OF c1(1) tty] by simp
    then show ?thesis
      using step Some bs ids(2) persisted_trans [OF c1(1)] by (auto intro: lifecycles.cons)
  qed
qed

lemma prompt_session:
  assumes "able E r (k_id c)" and "faithful E d (state_path r (k_id c))" and "wf_container c" and "no_terminal E c"
    and "list_all prompt cmds"
  shows "stored E d r w c \<Longrightarrow> \<exists>bs w'. session_of (run E r (k_id c)) cmds w = Some (bs, w')"
  using assms
proof (induction cmds arbitrary: w c)
  case (Cons cmd cmds)
  note able = Cons.prems(2) and F = Cons.prems(3) and wf = Cons.prems(4) and tty = Cons.prems(5)
  obtain v where v: "extends_by keeps_files w v" "run E r (k_id c) cmd w = run_command E r (k_id c) cmd v"
    using runs_command [OF able] by metis
  have st: "stored E d r v c" using Cons.prems(1) stored_extends [OF v(1)] by simp
  obtain b w1 where run: "run_command E r (k_id c) cmd v = Some (b, w1)"
    using prompt_returns [OF F st wf tty, of cmd] Cons.prems(6) by fastforce
  from running_refines [OF F st wf tty run] obtain s where
    s: "lifecycle (Some (k_status c)) cmd b s" "persisted E d r w1 c s" by blast
  then obtain t where "s = Some t" using prompt_stays [OF s(1)] Cons.prems(6) by auto
  with s(2) obtain c1 where c1: "same_container t c c1" "stored E d r w1 c1" by (auto simp: persisted_def)
  note ids = same_container_facts [OF c1(1)]
  have "\<exists>bs w'. session_of (run E r (k_id c1)) cmds w1 = Some (bs, w')"
    using Cons.IH [OF c1(2)] able F ids(1) ids(3) [OF wf] no_terminal_same [OF c1(1) tty] Cons.prems(6) by simp
  then show ?case using v(2) run ids(1) by auto
qed simp

end

interpretation handlers: session_runner run_command "\<lambda>_ _ _. True"
  by unfold_locales auto

text \<open>No command brings a container back to "created".\<close>

lemma lifecycle_start: "lifecycle s cmd b t \<Longrightarrow> cmd = CStart \<and> b \<Longrightarrow>
    s = Some OCI_STATUS_CREATED \<and> t = Some OCI_STATUS_RUNNING"
  by (auto elim: lifecycle.cases)

lemma lifecycle_created: "lifecycle s cmd b (Some OCI_STATUS_CREATED) \<Longrightarrow> s = Some OCI_STATUS_CREATED"
  by (erule lifecycle_CreatedE) simp_all

lemma lifecycles_starts:
  "lifecycles s steps t \<Longrightarrow>
     length (filter (\<lambda>x. x = (CStart, True)) steps) \<le> (if s = Some OCI_STATUS_CREATED then 1 else 0)"
proof (induction rule: lifecycles.induct)
  case (cons s cmd b t steps u)
  show ?case
  proof (cases "(cmd, b) = (CStart, True)")
    case True
    then have "s = Some OCI_STATUS_CREATED" "t = Some OCI_STATUS_RUNNING"
      using lifecycle_start [OF cons.hyps(1)] by simp_all
    then show ?thesis using cons.IH by simp
  next
    case False
    then show ?thesis using cons.IH lifecycle_created cons.hyps(1) by (auto split: if_splits)
  qed
qed simp

subsection \<open>Properties\<close>

text \<open>
  Any sequence of the commands "start", "kill", "pause", "resume" and "delete" on a
  container, each a process of its own that returned, does to the status in the state file
  what the abstract machine of the lifecycle does, and reports the results the machine
  reports; the state file afterwards is the container's with the machine's status, or is gone.
  The JSON library inverts itself, files read back what was written, and "start" does not
  wait on a terminal.
\<close>

theorem session_refines_lifecycle:
  assumes "faithful E d (state_path r (k_id c))" and "wf_container c" and "no_terminal E c"
    and "stored E d r w c" and "session E r (k_id c) cmds w = Some (bs, w')"
  shows "length bs = length cmds \<and>
     (\<exists>s. lifecycles (Some (k_status c)) (zip cmds bs) s \<and> persisted E d r w' c s)"
  using assms handlers.session_simulation by (simp add: session_def)


text \<open>A container as "create" leaves it, on a disk that holds its state file.\<close>

definition web :: container where
  "web = \<lparr>k_id = ''web'', k_bundle = ''/bundle'', k_pid = 42, k_comms = ''/run/web/hypervisor.sock'',
     k_procsock = ''/run/web/process.sock'', k_created = ''2016-10-01T10:00:00Z'', k_mounts = [''/bundle/rootfs/data''],
     k_console = ''/dev/ptmx'', k_socket = False,
     k_vm = \<lparr>hypervisor_path = ''/usr/bin/qemu'', image_path = ''/img'', kernel_path = ''/kernel'',
       workload_path = ''/bundle/rootfs/.containerexec'', kernel_params = Some ''ro''\<rparr>,
     k_status = OCI_STATUS_CREATED, k_annotations = []\<rparr>"

definition web_disk :: disk where
  "web_disk p = (if p = state_path None ''web'' then Some (json_gen (disk_env (\<lambda>_. None)) True (doc_of web)) else None)"

lemma web_facts:
  "faithful (disk_env web_disk) web_disk (state_path None (k_id web))" "wf_container web"
  "no_terminal (disk_env web_disk) web" "stored (disk_env web_disk) web_disk None [] web"
  "k_status web = OCI_STATUS_CREATED"
  by (simp_all add: faithful_def disk_env_ok wf_container_def readable_def web_def vm_fits_def PATH_MAX_def no_terminal_def
      stored_def web_disk_def) (simp_all add: disk_env_def)

text \<open>A system whose disk takes every write and whose processes take every signal.\<close>

definition responsive :: "env \<Rightarrow> bool" where
  "responsive E \<longleftrightarrow> (\<forall>w. \<not> sys_bool E w IsATty) \<and> (\<forall>w p s. sys_bool E w (FileSet p s))
     \<and> (\<forall>w p sig. sig \<noteq> 0 \<longrightarrow> sys_int E w (Kill p sig) = 0)"

lemma created_starts:
  assumes F: "faithful E d (state_path r (k_id c))" and wf: "wf_container c" and st: "stored E d r w c"
    and created: "k_status c = OCI_STATUS_CREATED" and ok: "responsive E"
  shows "\<exists>w'. run_command E r (k_id c) CStart w = Some (True, w')"
proof -
  let ?p = "state_path r (k_id c)"
  obtain cf rep where get: "clr_oci_get_config_and_state E ((base r)\<lparr>optarg_container_id := Some (k_id c)\<rparr>) w =
     Some (True, Some cf, got r c, Live (state_of c), (FileGet ?p, rep) # w)"
    using get_stored [OF F st wf] by blast
  have "\<exists>config w'. clr_oci_start E (loaded r c) (emptied (state_of c)) None ((FileGet ?p, rep) # w) =
     Some (True, config, w')"
    using created ok
    by (simp add: clr_oci_start_def callI_def callB_def start_wait_setup_def write_status [OF wf]
        clr_run_hooks_def responsive_def SIGCONT_def)
  then show ?thesis
    using get update_stored [OF wf] no_help [OF wf]
    by (auto simp: run_command_def handler_start_def no_start_data_def)
qed

lemma responsive_kills:
  assumes F: "faithful E d (state_path r (k_id c))" and wf: "wf_container c" and st: "stored E d r w c"
    and ok: "responsive E"
  shows "\<exists>w'. run_command E r (k_id c) (CKill []) w = Some (True, w')"
proof -
  let ?w = "\<lambda>rep. (FileGet (state_path r (k_id c)), rep) # w"
  obtain cf rep where get: "clr_oci_get_config_and_state E ((base r)\<lparr>optarg_container_id := Some (k_id c)\<rparr>) w =
     Some (True, Some cf, got r c, Live (state_of c), ?w rep)"
    using get_stored [OF F st wf] by blast
  have sig: "kill_signal [k_id c] = SIGTERM" "SIGTERM \<noteq> 0" by (simp_all add: kill_signal_def SIGTERM_def)
  obtain config w' where "clr_oci_kill E (loaded r c) (emptied (state_of c)) SIGTERM (?w rep) = (True, config, w')"
    using kill_outcome [OF wf, of E r SIGTERM "?w rep"] ok sig(2) by (auto simp: responsive_def)
  moreover have "\<not> is_help [k_id c]" using wf by (simp add: is_help_def wf_container_def)
  ultimately show ?thesis
    using get update_stored [OF wf] sig(1) by (simp add: run_command_def handler_kill_def SIGTERM_def)
qed

lemma web_starts:
  "stored (disk_env web_disk) web_disk None w web \<Longrightarrow>
     \<exists>w'. run_command (disk_env web_disk) None (k_id web) CStart w = Some (True, w')"
  by (rule created_starts [OF web_facts(1,2) _ web_facts(5)]) (simp_all add: responsive_def disk_env_def env0_def)

lemma web_start: "\<exists>w'. session (disk_env web_disk) None (k_id web) [CStart] [] = Some ([True], w')"
  using web_starts [OF web_facts(4)] by (auto simp: session_def)

lemma session_refines_lifecycle_witness:
  "\<exists>w'. session (disk_env web_disk) None (k_id web) [CStart] [] = Some ([True], w') \<and>
     (\<exists>s. lifecycles (Some OCI_STATUS_CREATED) [(CStart, True)] s \<and> persisted (disk_env web_disk) web_disk None w' web s)"
proof -
  obtain w' where run: "session (disk_env web_disk) None (k_id web) [CStart] [] = Some ([True], w')"
    using web_start by blast
  from session_refines_lifecycle [OF web_facts(1,2,3,4) run] run web_facts(5) show ?thesis by auto
qed




end
