(* ===== verification/Create.thy ===== *)
theory Create
  imports Lifecycle
begin

text \<open>
  What a "create" that succeeds leaves: the state file of a well-formed container with the
  status "created", from which the lifecycle goes on.
\<close>

subsection \<open>What the sections of the configuration leave alone\<close>

definition frame :: "clr_oci_config \<Rightarrow> clr_oci_config" where
  "frame config = config\<lparr>oci := oci_cfg0, vm := None\<rparr>"

lemma untouched_simps [simp]:
  "frame (config\<lparr>oci := x\<rparr>) = frame config" "frame (config\<lparr>vm := v\<rparr>) = frame config"
  by (simp_all add: frame_def)

definition vm_ok :: "clr_oci_config \<Rightarrow> bool" where
  "vm_ok config \<longleftrightarrow> (case vm config of None \<Rightarrow> True | Some vmc \<Rightarrow> vm_fits vmc)"

definition loads :: "cw \<Rightarrow> cw \<Rightarrow> bool" where
  "loads s t \<longleftrightarrow> frame (fst t) = frame (fst s) \<and> extends_by keeps_files (snd s) (snd t)
     \<and> (vm_ok (fst s) \<longrightarrow> vm_ok (fst t))"

lemma loads_refl [simp, intro]: "loads s s"
  by (simp add: loads_def)

lemma loads_trans: "loads s t \<Longrightarrow> loads t u \<Longrightarrow> loads s u"
  using extends_by_trans by (fastforce simp: loads_def)

lemma loads_oci [simp]: "loads (config\<lparr>oci := x\<rparr>, w) t = loads (config, w) t" "loads (config, w) (config\<lparr>oci := x\<rparr>, w)"
  by (simp_all add: loads_def vm_ok_def)

lemma loads_call [simp]: "loads s (config, w) \<Longrightarrow> keeps_files c \<Longrightarrow> loads s (config, (c, r) # w)"
  by (simp add: loads_def)

lemma loads_foreach:
  assumes "foreach f ns s = Some t" and "\<And>n s t. f n s = Some t \<Longrightarrow> loads s t"
  shows "loads s t"
  by (rule foreach_invariant [where I = "loads s", OF assms(1)]) (use assms(2) loads_trans in blast)+

text \<open>The sections that touch only \<^verbatim>\<open>config->oci\<close>.\<close>

definition only_oci :: "clr_oci_config \<Rightarrow> clr_oci_config \<Rightarrow> bool" where
  "only_oci config config' \<longleftrightarrow> (\<exists>x. config' = config\<lparr>oci := x\<rparr>)"

lemma only_oci_refl [simp, intro]: "only_oci config config"
  unfolding only_oci_def by (rule exI [of _ "oci config"]) simp

lemma only_oci_upd [simp]: "only_oci config (config\<lparr>oci := x\<rparr>)"
  by (auto simp: only_oci_def)

lemma only_oci_trans: "only_oci c1 c2 \<Longrightarrow> only_oci c2 c3 \<Longrightarrow> only_oci c1 c3"
  by (auto simp: only_oci_def)

lemma only_oci_foreach:
  assumes "foreach f ns s = Some t" and "\<And>n s t. f n s = Some t \<Longrightarrow> only_oci s t"
  shows "only_oci s t"
  by (rule foreach_invariant [where I = "only_oci s", OF assms(1)]) (use assms(2) only_oci_trans in blast)+

lemma only_oci_annotations: "annotations_handle_section n config = Some (b, config') \<Longrightarrow> only_oci config config'"
proof -
  have "handle_annotation n s = Some t \<Longrightarrow> only_oci s t" for n s t
    by (auto simp: handle_annotation_def Let_def split: list.splits option.splits if_splits)
  then show "annotations_handle_section n config = Some (b, config') \<Longrightarrow> only_oci config config'"
    using only_oci_foreach [of handle_annotation] by (auto simp: annotations_handle_section_def bind_eq_Some_conv)
qed

lemma only_oci_platform: "platform_handle_section n config = Some (b, config') \<Longrightarrow> only_oci config config'"
proof -
  have "handle_platform_section n s = Some t \<Longrightarrow> only_oci s t" for n s t
    by (auto simp: handle_platform_section_def Let_def split: list.splits if_splits)
  then show "platform_handle_section n config = Some (b, config') \<Longrightarrow> only_oci config config'"
    using only_oci_foreach [of handle_platform_section]
    by (auto simp: platform_handle_section_def Let_def bind_eq_Some_conv)
qed

lemma only_oci_process: "process_handle_section n config = Some (b, config') \<Longrightarrow> only_oci config config'"
proof -
  have user: "handle_user_section n s = Some t \<Longrightarrow> only_oci s t" for n s t
    by (auto simp: handle_user_section_def Let_def split: if_splits)
  have "handle_process_section n s = Some t \<Longrightarrow> only_oci s t" for n s t
    using only_oci_foreach [of handle_user_section "gchildren n" s t, OF _ user]
    by (cases "gchildren n") (auto simp: handle_process_section_def Let_def simp del: foreach.simps split: if_splits)
  then show "process_handle_section n config = Some (b, config') \<Longrightarrow> only_oci config config'"
    using only_oci_foreach [of handle_process_section]
    by (auto simp: process_handle_section_def Let_def bind_eq_Some_conv)
qed

lemma only_oci_lists:
  "mounts_handle_section n config = Some (b, config') \<Longrightarrow> only_oci config config'"
  "linux_handle_section n config = Some (b, config') \<Longrightarrow> only_oci config config'"
  by (auto simp: mounts_handle_section_def linux_handle_section_def Let_def bind_eq_Some_conv
      split: if_splits prod.splits)

lemma only_oci_hooks: "hooks_handle_section n config = Some (b, config') \<Longrightarrow> only_oci config config'"
proof -
  have step: "handle_hooks_section n s = Some t \<Longrightarrow> only_oci (fst s) (fst t)" for n s t
    by (cases s) (auto simp: handle_hooks_section_def bind_eq_Some_conv Let_def case_prod_beta
        split: if_splits option.splits)
  have "foreach handle_hooks_section ns s = Some t \<Longrightarrow> only_oci (fst s) (fst t)" for ns s t
    by (rule foreach_invariant [where I = "\<lambda>t. only_oci (fst s) (fst t)"])
      (use step only_oci_trans in \<open>blast+\<close>)
  then show "hooks_handle_section n config = Some (b, config') \<Longrightarrow> only_oci config config'"
    by (fastforce simp: hooks_handle_section_def bind_eq_Some_conv)
qed

lemma only_oci_loads: "only_oci config config' \<Longrightarrow> loads (config, w) (config', w)"
  by (auto simp: only_oci_def)

subsection \<open>The sections that ask the file system\<close>

lemma resolve_keeps: "clr_oci_resolve_path E path w = (p, w') \<Longrightarrow> extends_by keeps_files w w'"
  by (auto simp: clr_oci_resolve_path_def callS_def keeps_files_def split: option.splits if_splits)

lemma loads_world: "extends_by keeps_files w w' \<Longrightarrow> loads (config, w) (config, w')"
  by (simp add: loads_def)

lemma loads_root: "root_handle_section E n (config, w) = Some (b, config', w') \<Longrightarrow> loads (config, w) (config', w')"
proof -
  have step: "handle_root_section E n s = Some t \<Longrightarrow> loads s t" for n s t
  proof (cases "gchildren n")
    case (Cons child rest)
    assume run: "handle_root_section E n s = Some t"
    obtain c v where s: "s = (c, v)" by (cases s)
    obtain p v1 where r: "clr_oci_resolve_path E (gdata child) v = (p, v1)"
      by (cases "clr_oci_resolve_path E (gdata child) v")
    have "loads (c, v) (c, v1)" by (rule loads_world [OF resolve_keeps [OF r]])
    then have "loads (c, v) (c\<lparr>oci := x\<rparr>, v1)" for x by (simp add: loads_def vm_ok_def)
    with run r s Cons \<open>loads (c, v) (c, v1)\<close> show ?thesis
      by (cases p) (auto simp add: handle_root_section_def Let_def split: if_split_asm)
  qed (simp add: handle_root_section_def split: prod.splits)
  assume run: "root_handle_section E n (config, w) = Some (b, config', w')"
  then obtain s where s: "foreach (handle_root_section E) (gchildren n) (config, w) = Some s"
    by (cases "foreach (handle_root_section E) (gchildren n) (config, w)") (simp_all add: root_handle_section_def)
  moreover obtain c v where cv: "s = (c, v)" by (cases s)
  ultimately have "config' = c" "extends_by keeps_files v w'"
    using run by (auto simp: root_handle_section_def callB_def keeps_files_def split: if_split_asm)
  then have fin: "loads (c, v) (config', w')" by (simp add: loads_world)
  have "loads (config, w) (c, v)" using loads_foreach [OF s step] cv by simp
  from loads_trans [OF this fin] show ?thesis .
qed

lemma vm_fits_path:
  "vm_fits vmc \<Longrightarrow> vm_fits (hypervisor_path_update (\<lambda>_. buf_put PATH_MAX p) vmc)"
  "vm_fits vmc \<Longrightarrow> vm_fits (image_path_update (\<lambda>_. buf_put PATH_MAX p) vmc)"
  "vm_fits vmc \<Longrightarrow> vm_fits (kernel_path_update (\<lambda>_. buf_put PATH_MAX p) vmc)"
  "vm_fits vmc \<Longrightarrow> vm_fits (workload_path_update (\<lambda>_. buf_put PATH_MAX p) vmc)"
  by (simp_all add: vm_fits_def PATH_MAX_def length_buf_put)

lemma vm_path_update_loads:
  assumes "vm_path_update E upd text s = Some t" and "\<And>vmc p. vm_fits vmc \<Longrightarrow> vm_fits (upd (\<lambda>_. buf_put PATH_MAX p) vmc)"
  shows "loads s t"
  using assms resolve_keeps
  by (cases s) (auto simp: vm_path_update_def loads_def vm_ok_def bind_eq_Some_conv split: option.splits prod.splits)

lemma vm_path_loads:
  "vm_path_update E hypervisor_path_update text s = Some t \<Longrightarrow> loads s t"
  "vm_path_update E image_path_update text s = Some t \<Longrightarrow> loads s t"
  "vm_path_update E kernel_path_update text s = Some t \<Longrightarrow> loads s t"
  by (erule vm_path_update_loads, erule vm_fits_path)+

lemma kernel_section_loads: "handle_kernel_section E n s = Some t \<Longrightarrow> loads s t"
  using vm_path_loads(3)
  by (cases "gchildren n")
    (auto simp: handle_kernel_section_def loads_def vm_ok_def vm_fits_def bind_eq_Some_conv split: if_split_asm)

lemma vm_section_loads: "handle_vm_section E n s = Some t \<Longrightarrow> loads s t"
proof -
  have kernel: "foreach (handle_kernel_section E) ns s = Some t \<Longrightarrow> loads s t" for ns
    by (rule loads_foreach [OF _ kernel_section_loads])
  assume "handle_vm_section E n s = Some t"
  then show ?thesis
    using vm_path_loads(1,2) kernel
    by (cases "gchildren n") (simp_all add: handle_vm_section_def del: foreach.simps split: if_split_asm)
qed

lemma path_exists_keeps: "path_exists E p w = (b, w') \<Longrightarrow> extends_by keeps_files w w'"
  by (auto simp: path_exists_def callB_def keeps_files_def split: if_splits)

lemma loads_vm: "vm_handle_section E root (config, w) = Some (b, config', w') \<Longrightarrow> loads (config, w) (config', w')"
proof (cases root)
  case (Some n)
  assume run: "vm_handle_section E root (config, w) = Some (b, config', w')"
  let ?c = "case vm config of None \<Rightarrow> config\<lparr>vm := Some vm_cfg0\<rparr> | Some _ \<Rightarrow> config"
  have start: "loads (config, w) (?c, w)"
    by (simp add: loads_def vm_ok_def vm_fits_def vm_cfg0_def PATH_MAX_def split: option.split)
  from run Some obtain c1 w1 vmc where fe: "foreach (handle_vm_section E) (gchildren n) (?c, w) = Some (c1, w1)"
    and vmc: "vm c1 = Some vmc"
    and fin: "(let (ret, w) = path_exists E (hypervisor_path vmc) w1;
          (ret, w) = (if ret then path_exists E (image_path vmc) w else (False, w));
          (ret, w) = (if ret then path_exists E (kernel_path vmc) w else (False, w))
        in Some (ret, if ret then c1 else c1\<lparr>vm := None\<rparr>, w)) = Some (b, config', w')"
    by (auto simp: vm_handle_section_def Let_def bind_eq_Some_conv)
  have "extends_by keeps_files w1 w'"
    using fin path_exists_keeps
    by (auto simp: Let_def split: prod.splits if_splits) (blast intro: extends_by_trans)+
  moreover have "config' = c1 \<or> config' = c1\<lparr>vm := None\<rparr>"
    using fin by (auto simp: Let_def split: prod.splits)
  ultimately have "loads (c1, w1) (config', w')" by (auto simp: loads_def vm_ok_def)
  with loads_trans [OF start loads_foreach [OF fe vm_section_loads]] show ?thesis by (rule loads_trans)
qed (simp add: vm_handle_section_def)

lemma loads_pure:
  assumes "pure_handler h n s = Some (b, t)" and "\<And>b config config'. h n config = Some (b, config') \<Longrightarrow> only_oci config config'"
  shows "loads s t"
  using assms only_oci_loads by (cases s) (auto simp: pure_handler_def)

lemma pure_loads:
  "pure_handler annotations_handle_section n s = Some (b, t) \<Longrightarrow> loads s t"
  "pure_handler hooks_handle_section n s = Some (b, t) \<Longrightarrow> loads s t"
  "pure_handler mounts_handle_section n s = Some (b, t) \<Longrightarrow> loads s t"
  "pure_handler platform_handle_section n s = Some (b, t) \<Longrightarrow> loads s t"
  "pure_handler process_handle_section n s = Some (b, t) \<Longrightarrow> loads s t"
  "pure_handler linux_handle_section n s = Some (b, t) \<Longrightarrow> loads s t"
  by (erule loads_pure, erule only_oci_annotations only_oci_hooks only_oci_lists only_oci_platform only_oci_process)+

lemma start_handlers_load: "(name, h) \<in> set (start_spec_handlers E) \<Longrightarrow> h n s = Some (b, t) \<Longrightarrow> loads s t"
proof (cases s; cases t)
  fix c w c' w'
  assume "(name, h) \<in> set (start_spec_handlers E)" "h n s = Some (b, t)" "s = (c, w)" "t = (c', w')"
  then show ?thesis
    unfolding start_spec_handlers_def list.set insert_iff prod.inject
    by (elim disjE conjE) (simp_all add: pure_loads loads_root loads_vm)
qed

lemma run_handler_loads: "run_spec_handler (start_spec_handlers E) name n s = Some t \<Longrightarrow> loads s t"
proof -
  assume run: "run_spec_handler (start_spec_handlers E) name n s = Some t"
  show ?thesis
  proof (cases "Option.bind name (map_of (start_spec_handlers E))")
    case (Some h)
    then obtain nm where "(nm, h) \<in> set (start_spec_handlers E)"
      by (auto simp: bind_eq_Some_conv dest: map_of_SomeD)
    moreover from run Some obtain b where "h n s = Some (b, t)" by (auto simp: run_spec_handler_def)
    ultimately show ?thesis by (rule start_handlers_load)
  qed (use run in \<open>simp add: run_spec_handler_def\<close>)
qed

lemma config_start_loads: "process_config_start E n s = Some t \<Longrightarrow> loads s t"
proof (cases "gdata n")
  case (Some name)
  obtain c w where s: "s = (c, w)" by (cases s)
  assume "process_config_start E n s = Some t"
  with Some s obtain u where "run_spec_handler (start_spec_handlers E) (Some name) n u = Some t"
    and "loads s u"
    by (auto simp: process_config_start_def bind_eq_Some_conv split: if_split_asm list.splits)
  then show ?thesis using run_handler_loads loads_trans by blast
qed (simp add: process_config_start_def)

lemma vm_file_loads: "get_spec_vm_from_cfg_file E (config, w) = Some (b, config', w') \<Longrightarrow> loads (config, w) (config', w')"
proof -
  assume run: "get_spec_vm_from_cfg_file E (config, w) = Some (b, config', w')"
  show ?thesis
  proof (cases "vm config = None")
    case True
    let ?p = "g_build_path [sysconfdir E, CLR_OCI_VM_CONFIG]"
    let ?w1 = "(FileExists ?p, RBool (sys_bool E w (FileExists ?p))) # w"
    obtain root w2 where parse: "clr_oci_json_parse E
        (Some (if sys_bool E w (FileExists ?p) then ?p else g_build_path [defaultsdir E, CLR_OCI_VM_CONFIG])) ?w1 = (root, w2)"
      by fastforce
    have "extends_by keeps_files w ?w1" by (simp add: keeps_files_def)
    from loads_world [OF extends_by_trans [OF this json_parse_keeps [OF parse]]]
    have "loads (config, w) (config, w2)" .
    moreover have "loads (config, w2) (config', w')"
      using run True parse loads_vm
      by (auto simp: get_spec_vm_from_cfg_file_def callB_def Let_def bind_eq_Some_conv split: option.splits)
    ultimately show ?thesis by (rule loads_trans)
  qed (use run in \<open>simp add: get_spec_vm_from_cfg_file_def\<close>)
qed

lemma config_file_loads:
  assumes "clr_oci_config_file_parse E config w = Some (b, config', w')"
  shows "loads (config, w) (config', w') \<and> (b \<longrightarrow> (\<exists>bundle. bundle_path config = Some bundle \<and> bundle \<noteq> []))"
proof (cases "bundle_path config")
  case (Some bdl)
  show ?thesis
  proof (cases "clr_oci_config_file_path (bundle_path config)")
    case None
    with assms Some show ?thesis by (simp add: clr_oci_config_file_parse_def)
  next
    case cf: (Some config_file)
    then have ne: "bdl \<noteq> []"
      using Some by (auto simp: clr_oci_config_file_path_def clr_oci_get_bundlepath_file_def)
    obtain cwd w1 where g: "callS E GetCwd w = (cwd, w1)" by (cases "callS E GetCwd w")
    obtain r w2 where c: "callI E (Chdir bdl) w1 = (r, w2)" by (cases "callI E (Chdir bdl) w1")
    obtain root w3 where p: "clr_oci_json_parse E (Some config_file) w2 = (root, w3)"
      by (cases "clr_oci_json_parse E (Some config_file) w2")
    have e1: "extends_by keeps_files w w1" and e2: "extends_by keeps_files w w2"
      using g c by (auto simp: callS_def callI_def keeps_files_def)
    note e3 = extends_by_trans [OF e2 json_parse_keeps [OF p]]
    have chdir: "loads s (config', v) \<Longrightarrow> loads s (config', snd (callI E (Chdir d) v))" for s v d
      by (simp add: callI_def keeps_files_def)
    show ?thesis
    proof (cases "cwd = None \<or> r \<noteq> 0 \<or> root = None")
      case True
      with assms Some cf g c p loads_world [OF e1] loads_world [OF e2] chdir [OF loads_world [OF e3]]
      show ?thesis by (auto simp: clr_oci_config_file_parse_def split: option.splits if_split_asm)
    next
      case False
      then obtain tree d where tree: "root = Some tree" "cwd = Some d" "r = 0" by auto
      with assms Some cf g c p obtain c1 w4 w5 where
        fe: "foreach (process_config_start E) (gchildren tree) (config, w3) = Some (c1, w4)"
        and vmf: "get_spec_vm_from_cfg_file E (c1, w4) = Some (b, config', w5)"
        and fin: "w' = snd (callI E (Chdir d) w5)"
        by (auto simp: clr_oci_config_file_parse_def bind_eq_Some_conv)
      from loads_trans [OF loads_world [OF e3] loads_trans [OF loads_foreach [OF fe config_start_loads] vm_file_loads [OF vmf]]]
      show ?thesis using fin chdir ne Some by auto
    qed
  qed
qed (use assms in \<open>simp add: clr_oci_config_file_parse_def\<close>)

subsection \<open>From the configuration to the state file\<close>

text \<open>After the mounts every recorded target fits its buffer.\<close>

lemma mounts_loop_fit:
  "handle_mounts_loop E r dry_run l w = Some (True, l', w') \<Longrightarrow> list_all (\<lambda>d. length d < PATH_MAX) (recorded l')"
proof (induction l arbitrary: w l' w')
  case (Cons m l)
  show ?case
  proof (cases "mnt_dir m \<in> Some ` set ignored_dirs")
    case True
    with Cons show ?thesis by (auto simp: mount_ignore_iff bind_eq_Some_conv)
  next
    case False
    then have "clr_oci_mount_ignore m = (False, m)" by (auto simp: mount_ignore_iff)
    with Cons.prems obtain m1 w1 l2 where one: "mount_one E r dry_run m w = Some (True, m1, w1)"
      and rest: "handle_mounts_loop E r dry_run l w1 = Some (True, l2, w')" "l' = m1 # l2"
      by (auto simp: bind_eq_Some_conv split: if_split_asm)
    from mount_one_facts [OF one] have "length (mnt_dest m1) < PATH_MAX"
      by (simp add: PATH_MAX_def length_buf_put)
    with Cons.IH [OF rest(1)] rest(2) show ?thesis by simp
  qed
qed simp

text \<open>The launch names a console and a positive process id, and leaves the rest.\<close>

definition launched :: "env \<Rightarrow> clr_oci_config \<Rightarrow> clr_oci_config \<Rightarrow> bool" where
  "launched E config config' \<longleftrightarrow> (\<exists>con sock pid v dir args. 0 < pid \<and> pid = sys_int E v (Spawn dir args) \<and>
     config' = config\<lparr>console := Some con, use_socket_console := sock,
       cstate := (cstate config)\<lparr>workload_pid := pid\<rparr>\<rparr>)"

lemma console_setup_console:
  "console_setup config = (config', dev) \<Longrightarrow>
     \<exists>con sock. config' = config\<lparr>console := Some con, use_socket_console := sock\<rparr>"
proof -
  assume run: "console_setup config = (config', dev)"
  have same: "config = config\<lparr>console := console config, use_socket_console := use_socket_console config\<rparr>" by simp
  show ?thesis
  proof (cases "\<exists>c. console config = Some c \<and> g_utf8_strlen c \<noteq> 0")
    case True
    then obtain c where "console config = Some c" "config' = config"
      using run by (auto simp: console_setup_def Let_def)
    with same show ?thesis by metis
  next
    case False
    with run show ?thesis by (auto simp: console_setup_def Let_def split: option.splits)
  qed
qed

lemma expand_cmdline_config:
  "clr_oci_expand_cmdline E config args w = (True, config', args', w') \<Longrightarrow> config' = fst (console_setup config)"
  by (simp add: clr_oci_expand_cmdline_def Let_def case_prod_beta split: option.split_asm bool.split_asm)

lemma args_get_console:
  assumes "clr_oci_vm_args_get E config w = (True, config', args, w')"
  shows "args \<noteq> None \<and> (\<exists>con sock. config' = config\<lparr>console := Some con, use_socket_console := sock\<rparr>)"
proof -
  obtain f w1 where f: "clr_oci_vm_args_file_path E config w = (f, w1)"
    by (cases "clr_oci_vm_args_file_path E config w")
  obtain a w2 where a: "clr_oci_file_to_strv E f w1 = (a, w2)" by (cases "clr_oci_file_to_strv E f w1")
  from assms f a obtain l l' where l: "a = Some l" "args = Some l'"
    "clr_oci_expand_cmdline E config l w2 = (True, config', l', w')"
    by (auto simp: clr_oci_vm_args_get_def split: option.splits prod.splits)
  have "console_setup config = (config', snd (console_setup config))"
    using expand_cmdline_config [OF l(3)] by simp
  from console_setup_console [OF this] l(2) show ?thesis by simp
qed

lemma vm_launch_launched:
  assumes "clr_oci_vm_launch E config w = (True, config', w')"
  shows "launched E config config'"
proof -
  obtain ret c1 args w1 where a: "clr_oci_vm_args_get E config w = (ret, c1, args, w1)"
    by (cases "clr_oci_vm_args_get E config w")
  show ?thesis
  proof (cases "ret \<and> args \<noteq> None")
    case True
    then obtain argv where argv: "args = Some argv" ret by auto
    let ?spawn = "Spawn (rootfs_path (rootfs (oci c1))) argv"
    let ?pid = "sys_int E w1 ?spawn"
    from args_get_console [of E config w c1 args w1] a argv obtain con sock where
      c1: "c1 = config\<lparr>console := Some con, use_socket_console := sock\<rparr>" by auto
    from assms a argv have "0 < ?pid" "config' = c1\<lparr>cstate := (cstate c1)\<lparr>workload_pid := ?pid\<rparr>\<rparr>"
      by (auto simp: clr_oci_vm_launch_def callI_def Let_def split: if_split_asm option.splits prod.splits)
    with c1 show ?thesis unfolding launched_def by fastforce
  next
    case False
    with assms a args_get_console [of E config w c1 args w1] show ?thesis
      by (auto simp: clr_oci_vm_launch_def split: option.splits bool.splits)
  qed
qed

lemma frame_fields:
  assumes "frame config' = frame config"
  shows "cstate config' = cstate config" "bundle_path config' = bundle_path config"
    "root_dir config' = root_dir config" "optarg_container_id config' = optarg_container_id config"
    "dry_run_mode config' = dry_run_mode config"
  using assms by (cases config; cases config'; simp add: frame_def)+

text \<open>The configuration when everything before the launch is done.\<close>

definition prepared :: "cstring \<Rightarrow> string \<Rightarrow> clr_oci_config \<Rightarrow> bool" where
  "prepared r cid config \<longleftrightarrow> root_dir config = r \<and> optarg_container_id config = Some cid
     \<and> (\<exists>bundle. bundle_path config = Some bundle \<and> bundle \<noteq> [])
     \<and> runtime_path (cstate config) = run_path r cid \<and> state_file_path (cstate config) = []
     \<and> comms_path (cstate config) = buf_path (run_path r cid) CLR_OCI_HYPERVISOR_SOCKET
     \<and> procsock_path (cstate config) = buf_path (run_path r cid) CLR_OCI_PROCESS_SOCKET
     \<and> vm_ok config \<and> list_all (\<lambda>d. length d < PATH_MAX) (recorded (mounts (oci config)))"

lemma buf_path_length: "length (buf_path d f) < PATH_MAX"
  by (simp add: buf_path_def length_buf_put PATH_MAX_def)

lemma runtime_dir_setup_paths:
  assumes "clr_oci_runtime_dir_setup E config w = (True, config', w')"
    and "cstate config = container_state0" and "optarg_container_id config = Some cid"
  shows "config' = config\<lparr>cstate := container_state0\<lparr>runtime_path := run_path (root_dir config) cid,
     comms_path := buf_path (run_path (root_dir config) cid) CLR_OCI_HYPERVISOR_SOCKET,
     procsock_path := buf_path (run_path (root_dir config) cid) CLR_OCI_PROCESS_SOCKET\<rparr>\<rparr>"
  using assms
  by (auto simp: clr_oci_runtime_dir_setup_def clr_oci_runtime_path_get_def run_path_def Let_def case_prod_beta)

lemma workload_keeps:
  assumes "clr_oci_create_container_workload E config w = Some (b, config', w')"
  shows "config' = config \<or> (\<exists>v args. config' = config\<lparr>vm := Some v,
       oci := (oci config)\<lparr>oci_process := (oci_process (oci config))\<lparr>proc_args := args\<rparr>\<rparr>\<rparr>
     \<and> (vm_ok config \<longrightarrow> vm_fits v))"
proof -
  from assms obtain args where args: "proc_args (oci_process (oci config)) = Some args"
    by (auto simp: clr_oci_create_container_workload_def bind_eq_Some_conv)
  obtain ok w1 where e: "workload_env E config w = (ok, w1)" by (cases "workload_env E config w")
  show ?thesis
  proof (cases "vm config")
    case (Some v)
    let ?v = "v\<lparr>workload_path := buf_put PATH_MAX (g_build_path [rootfs_path (rootfs (oci config)), CLR_OCI_WORKLOAD_FILE])\<rparr>"
    from assms args e Some have "config' = config \<or> config' = config\<lparr>vm := Some ?v,
       oci := (oci config)\<lparr>oci_process := (oci_process (oci config))\<lparr>proc_args := Some (map g_shell_quote args)\<rparr>\<rparr>\<rparr>"
      by (auto simp: clr_oci_create_container_workload_def callB_def callI_def Let_def split: if_split_asm bool.split_asm)
    moreover have "vm_ok config \<longrightarrow> vm_fits ?v" using Some vm_fits_path(4) by (simp add: vm_ok_def)
    ultimately show ?thesis by blast
  qed (use assms args in \<open>simp add: clr_oci_create_container_workload_def\<close>)
qed

lemma prepare_prepared:
  assumes run: "create_prepare E config w = Some (True, config', w')"
    and start: "cstate config = container_state0" "vm_ok config" "optarg_container_id config = Some cid"
  shows "prepared (root_dir config) cid config' \<and> dry_run_mode config' = dry_run_mode config"
proof -
  from run obtain c1 w1 where parse: "clr_oci_config_file_parse E config w = Some (True, c1, w1)"
    by (auto simp: create_prepare_def bind_eq_Some_conv split: if_split_asm)
  from config_file_loads [OF this] obtain b where
    l: "loads (config, w) (c1, w1)" and b: "bundle_path config = Some b" "b \<noteq> []" by auto
  from l have f1: "frame c1 = frame config" and v1: "vm_ok c1" using start(2) by (simp_all add: loads_def)
  note fields = frame_fields [OF f1]
  obtain ok c2 w2 where rds: "clr_oci_runtime_dir_setup E c1 w1 = (ok, c2, w2)"
    by (cases "clr_oci_runtime_dir_setup E c1 w1")
  from run parse rds have ok by (auto simp: create_prepare_def bind_eq_Some_conv split: if_split_asm bool.split_asm)
  with run parse rds obtain c3 w3 where
    m: "clr_oci_handle_mounts E c2 w2 = Some (True, c3, w3)"
    and wl: "clr_oci_create_container_workload E c3 w3 = Some (True, config', w')"
    by (auto simp: create_prepare_def bind_eq_Some_conv split: if_split_asm)
  have c2: "c2 = c1\<lparr>cstate := container_state0\<lparr>runtime_path := run_path (root_dir config) cid,
     comms_path := buf_path (run_path (root_dir config) cid) CLR_OCI_HYPERVISOR_SOCKET,
     procsock_path := buf_path (run_path (root_dir config) cid) CLR_OCI_PROCESS_SOCKET\<rparr>\<rparr>"
    using runtime_dir_setup_paths [of E c1 w1 c2 w2 cid] rds \<open>ok\<close> fields start by simp
  from m obtain l' where "c3 = c2\<lparr>oci := (oci c2)\<lparr>mounts := l'\<rparr>\<rparr>" "list_all (\<lambda>d. length d < PATH_MAX) (recorded l')"
    using mounts_loop_fit by (auto simp: clr_oci_handle_mounts_def bind_eq_Some_conv)
  then have p3: "prepared (root_dir config) cid c3 \<and> dry_run_mode c3 = dry_run_mode config"
    using fields start b v1 by (simp add: prepared_def c2 vm_ok_def)
  from workload_keeps [OF wl] consider "config' = c3"
    | v args where "config' = c3\<lparr>vm := Some v,
       oci := (oci c3)\<lparr>oci_process := (oci_process (oci c3))\<lparr>proc_args := args\<rparr>\<rparr>\<rparr>" "vm_fits v"
    using p3 by (auto simp: prepared_def)
  then show ?thesis
  proof cases
    case 2
    with p3 show ?thesis by (simp add: prepared_def vm_ok_def)
  qed (use p3 in simp)
qed

subsection \<open>The created container\<close>

text \<open>
  Annotations with the same key are written to one member of the document: the first one's place,
  the last one's value.
\<close>

fun put_annotation :: "oci_cfg_annotation \<Rightarrow> oci_cfg_annotation list \<Rightarrow> oci_cfg_annotation list" where
  "put_annotation a [] = [a]"
| "put_annotation a (b # bs) = (if ann_key b = ann_key a then a # bs else b # put_annotation a bs)"

abbreviation member_of :: "oci_cfg_annotation \<Rightarrow> string \<times> json" where
  "member_of a \<equiv> (ann_key a, jstring (ann_value a))"

abbreviation merged :: "oci_cfg_annotation list \<Rightarrow> oci_cfg_annotation list" where
  "merged as \<equiv> fold put_annotation as []"

lemma put_annotation_keys: "set (map ann_key (put_annotation a bs)) = insert (ann_key a) (set (map ann_key bs))"
  by (induction a bs rule: put_annotation.induct) auto

lemma put_annotation_distinct: "distinct (map ann_key bs) \<Longrightarrow> distinct (map ann_key (put_annotation a bs))"
  by (induction a bs rule: put_annotation.induct) (use put_annotation_keys in auto)

lemma merged_distinct: "distinct (map ann_key bs) \<Longrightarrow> distinct (map ann_key (fold put_annotation as bs))"
  by (induction as arbitrary: bs) (simp_all add: put_annotation_distinct)

lemma put_annotation_member:
  "set_member (ann_key a) (jstring (ann_value a)) (map member_of bs) = map member_of (put_annotation a bs)"
  by (induction a bs rule: put_annotation.induct) simp_all

lemma merged_members:
  "fold (\<lambda>a. set_member (ann_key a) (jstring (ann_value a))) as (map member_of bs) = map member_of (fold put_annotation as bs)"
  by (induction as arbitrary: bs) (simp_all add: put_annotation_member)

lemma merged_empty: "fold put_annotation as bs = [] \<longleftrightarrow> as = [] \<and> bs = []"
proof (induction as arbitrary: bs)
  case (Cons a as)
  have "put_annotation a bs \<noteq> []" by (cases bs) simp_all
  with Cons show ?case by simp
qed simp

lemma merged_document:
  "clr_oci_annotations_to_json (config\<lparr>oci := (oci config)\<lparr>annotations := merged as\<rparr>\<rparr>) =
     clr_oci_annotations_to_json (config\<lparr>oci := (oci config)\<lparr>annotations := as\<rparr>\<rparr>)"
  using merged_members [of as "[]"] fold_set_member [of "merged as" "[]"] merged_distinct [of "[]" as]
  by (simp add: clr_oci_annotations_to_json_def)

definition container_of :: "clr_oci_config \<Rightarrow> string \<Rightarrow> string \<Rightarrow> string \<Rightarrow> string \<Rightarrow> clr_oci_vm_cfg \<Rightarrow> container" where
  "container_of config cid bundle created con vmc =
     \<lparr>k_id = cid, k_bundle = bundle, k_pid = workload_pid (cstate config),
      k_comms = comms_path (cstate config), k_procsock = procsock_path (cstate config), k_created = created,
      k_mounts = recorded (mounts (oci config)), k_console = con, k_socket = use_socket_console config,
      k_vm = vmc\<lparr>kernel_params := Some (case kernel_params vmc of Some p \<Rightarrow> p | None \<Rightarrow> [])\<rparr>,
      k_status = OCI_STATUS_CREATED, k_annotations = merged (annotations (oci config))\<rparr>"

lemma doc_of_container:
  assumes "list_all (\<lambda>d. length d < PATH_MAX) (recorded (mounts (oci config)))" and "console config = Some con"
  shows "doc_of (container_of config cid bundle created con vmc) =
     state_document config cid bundle (fmt_s (clr_oci_status_to_str OCI_STATUS_CREATED)) created vmc"
  using assms recorded_mount_of_dest [OF assms(1)] merged_document [where config = config and as = "annotations (oci config)"]
  by (simp add: doc_of_def container_of_def config_of_def state_document_def mounts_to_json_recorded jstring_def
      clr_oci_annotations_to_json_def merged_empty)

lemma create_launch_stores:
  assumes "create_launch E config w = (True, config', w')" and "prepared r cid config"
  shows "\<exists>c. stored E d r w' c \<and> k_id c = cid \<and> k_status c = OCI_STATUS_CREATED \<and> 0 < k_pid c
     \<and> (\<exists>v dir args. k_pid c = sys_int E v (Spawn dir args))
     \<and> (cid \<noteq> [] \<and> cid \<noteq> ''--help'' \<and> cid \<noteq> ''-h'' \<and> k_pid c < 2 ^ 31 \<longrightarrow> wf_container c)"
proof -
  let ?c0 = "set_status OCI_STATUS_CREATED config"
  obtain ts w1 where now: "clr_oci_get_iso8601_timestamp E w = (ts, w1)"
    by (cases "clr_oci_get_iso8601_timestamp E w")
  obtain ok c1 w2 where launch: "clr_oci_vm_launch E ?c0 w1 = (ok, c1, w2)"
    by (cases "clr_oci_vm_launch E ?c0 w1")
  obtain ok2 c2 w3 where create: "clr_oci_state_file_create E c1 ts w2 = (ok2, c2, w3)"
    by (cases "clr_oci_state_file_create E c1 ts w2")
  from assms(1) now launch create have "ok" "ok2" "config' = c2"
    and hooks: "w' = snd (clr_run_hooks E (prestart (hooks (oci c2))) (state_file_path (cstate c2)) True w3)"
    by (auto simp: create_launch_def Let_def case_prod_beta split: option.splits bool.splits)
  from vm_launch_launched [of E ?c0 w1 c1 w2] launch \<open>ok\<close> obtain con sock pid v dir args where
    pid: "0 < pid" "pid = sys_int E v (Spawn dir args)" and c1: "c1 = ?c0\<lparr>console := Some con, use_socket_console := sock,
       cstate := (cstate ?c0)\<lparr>workload_pid := pid\<rparr>\<rparr>"
    by (auto simp: launched_def)
  from state_file_create_True [of E c1 ts w2 c2 w3] create \<open>ok2\<close> assms(2) obtain t b vmc where
    parts: "ts = Some t" "bundle_path config = Some b" "vm config = Some vmc"
    and c2: "c2 = c1\<lparr>cstate := (cstate c1)\<lparr>state_file_path := state_path r cid\<rparr>\<rparr>"
    and w3: "w3 = (FileSet (state_path r cid) (json_gen E True (state_document c2 cid b
         (fmt_s (clr_oci_status_to_str OCI_STATUS_CREATED)) t vmc)), RBool True) # w2"
    by (auto simp: c1 prepared_def state_path_def)
  define c where "c = container_of c2 cid b t con vmc"
  have fit: "list_all (\<lambda>d. length d < PATH_MAX) (recorded (mounts (oci c2)))"
    using assms(2) by (simp add: c2 c1 prepared_def)
  have doc: "doc_of c = state_document c2 cid b (fmt_s (clr_oci_status_to_str OCI_STATUS_CREATED)) t vmc"
    unfolding c_def by (rule doc_of_container [OF fit]) (simp add: c2 c1)
  have "k_id c = cid" by (simp add: c_def container_of_def)
  then have "stored E d r w3 c"
    by (simp add: stored_def doc w3 file_view_set del: file_view.simps)
  moreover have "extends_by keeps_files w3 w'"
    using run_hooks_keeps_files [OF prod.collapse [symmetric]] hooks by simp
  ultimately have "stored E d r w' c" by (simp add: stored_extends)
  moreover have "wf_container c" if "cid \<noteq> []" "cid \<noteq> ''--help''" "cid \<noteq> ''-h''" "k_pid c < 2 ^ 31"
    using that assms(2) pid(1) fit parts merged_distinct [of "[]"]
    by (auto simp: wf_container_def readable_def c_def container_of_def c2 c1 prepared_def buf_path_length vm_ok_def vm_fits_def)
  ultimately show ?thesis
    using pid by (intro exI [of _ c]) (auto simp: c_def container_of_def c2 c1)
qed

lemma setup_config:
  assumes "handle_command_setup E name sd (base r) argv w = (True, config, w1)" and "\<not> is_help argv"
  shows "\<exists>cid rest. argv = cid # rest \<and> root_dir config = r \<and> optarg_container_id config = Some cid
     \<and> cstate config = container_state0 \<and> vm_ok config \<and> dry_run_mode config = sd_dry_run_mode sd
     \<and> cid \<noteq> ''--help'' \<and> cid \<noteq> ''-h''"
proof (cases argv)
  case (Cons cid rest)
  with assms show ?thesis
    by (auto simp: handle_command_setup_def handle_default_usage_def Let_def is_help_def vm_ok_def case_prod_beta
        split: option.splits if_split_asm)
qed (use assms in \<open>simp add: handle_command_setup_def handle_default_usage_def\<close>)

lemma setup_help: "is_help argv \<Longrightarrow>
    handle_command_setup E name sd config argv w = (True, config, g_print E (usage_line name) w)"
  by (auto simp: handle_command_setup_def handle_default_usage_def is_help_def)

lemma create_no_bundle: "bundle_path config = None \<Longrightarrow> clr_oci_create E config w = Some (False, config, w)"
  by (simp add: clr_oci_create_def create_prepare_def clr_oci_config_file_parse_def)

lemma create_stores:
  assumes run: "clr_oci_create E config w = Some (True, config', w')"
    and start: "cstate config = container_state0" "vm_ok config" "optarg_container_id config = Some cid"
    and real: "\<not> dry_run_mode config"
  shows "\<exists>c. stored E d (root_dir config) w' c \<and> k_id c = cid \<and> k_status c = OCI_STATUS_CREATED \<and> 0 < k_pid c
     \<and> (\<exists>v dir args. k_pid c = sys_int E v (Spawn dir args))
     \<and> (cid \<noteq> [] \<and> cid \<noteq> ''--help'' \<and> cid \<noteq> ''-h'' \<and> k_pid c < 2 ^ 31 \<longrightarrow> wf_container c)"
proof -
  from run obtain ok c1 w1 where p: "create_prepare E config w = Some (ok, c1, w1)"
    by (auto simp: clr_oci_create_def bind_eq_Some_conv)
  with run have ok by (auto simp: clr_oci_create_def split: if_split_asm)
  with p prepare_prepared [OF _ start] have pr: "prepared (root_dir config) cid c1" "\<not> dry_run_mode c1"
    using real by auto
  with run p \<open>ok\<close> have "create_launch E c1 w1 = (True, config', w')" by (simp add: clr_oci_create_def)
  from create_launch_stores [OF this pr(1), of d] show ?thesis by auto
qed

lemma handler_create_stores:
  assumes "handler_create E name sd (base r) (cid # rest) w = Some (True, w')" and "\<not> sd_dry_run_mode sd"
  shows "\<exists>c. stored E d r w' c \<and> k_id c = cid \<and> k_status c = OCI_STATUS_CREATED \<and> 0 < k_pid c
     \<and> (\<exists>v dir args. k_pid c = sys_int E v (Spawn dir args))
     \<and> (cid \<noteq> [] \<and> k_pid c < 2 ^ 31 \<longrightarrow> wf_container c)"
proof (cases "is_help (cid # rest)")
  case True
  with assms(1) setup_help [OF True, of E name sd "base r" w] show ?thesis
    by (simp add: handler_create_def create_no_bundle config0_def)
next
  case False
  obtain ok config w1 where s: "handle_command_setup E name sd (base r) (cid # rest) w = (ok, config, w1)"
    by (cases "handle_command_setup E name sd (base r) (cid # rest) w")
  with assms(1) obtain config' w2 where c: "clr_oci_create E config w1 = Some (True, config', w2)" and ok
    and k: "extends_by keeps_files w2 w'"
    by (auto simp: handler_create_def bind_eq_Some_conv split: if_split_asm bool.split_asm)
  from setup_config [of E name sd r "cid # rest" w config w1] s \<open>ok\<close> False have f:
    "root_dir config = r" "optarg_container_id config = Some cid" "cstate config = container_state0" "vm_ok config"
    "dry_run_mode config = sd_dry_run_mode sd" "cid \<noteq> ''--help''" "cid \<noteq> ''-h''" by auto
  from create_stores [OF c f(3,4,2), of d] assms(2) f obtain cc where
    "stored E d r w2 cc" "k_id cc = cid" "k_status cc = OCI_STATUS_CREATED" "0 < k_pid cc"
    "\<exists>v dir args. k_pid cc = sys_int E v (Spawn dir args)" "cid \<noteq> [] \<and> k_pid cc < 2 ^ 31 \<longrightarrow> wf_container cc" by auto
  then show ?thesis using stored_extends [OF k] by (intro exI [of _ cc]) simp
qed

subsection \<open>Properties\<close>


text \<open>
  C30. Whatever \<^verbatim>\<open>config.json\<close> holds, parsing it for "create" writes no file, leaves every
  part of the configuration but the OCI sections and the VM as it was, and the paths of the VM it
  ends with fit the fixed buffers they were copied to.
\<close>

theorem config_parse_keeps_types:
  assumes "clr_oci_config_file_parse E config w = Some (b, config', w')" and "vm config = None"
  shows "config' = config\<lparr>oci := oci config', vm := vm config'\<rparr> \<and> extends_by keeps_files w w'
     \<and> (case vm config' of None \<Rightarrow> True | Some vmc \<Rightarrow>
          length (hypervisor_path vmc) < PATH_MAX \<and> length (image_path vmc) < PATH_MAX
          \<and> length (kernel_path vmc) < PATH_MAX \<and> length (workload_path vmc) < PATH_MAX)"
proof -
  have l: "loads (config, w) (config', w')" using config_file_loads [OF assms(1)] by simp
  then have f: "frame config' = frame config" by (simp add: loads_def)
  have "config' = (frame config')\<lparr>oci := oci config', vm := vm config'\<rparr>" by (simp add: frame_def)
  also have "\<dots> = config\<lparr>oci := oci config', vm := vm config'\<rparr>" unfolding f by (simp add: frame_def)
  finally show ?thesis
    using l assms(2) by (auto simp: loads_def vm_ok_def vm_fits_def split: option.split)
qed

text \<open>
  C38. "run" in dry-run mode never succeeds: no state file was made, and its empty path is read.
\<close>

theorem dry_run_never_succeeds:
  assumes "sd_dry_run_mode sd" and "handler_run E name sd (base r) (cid # rest) w = Some (b, w')"
  shows "\<not> b"
proof (cases "is_help (cid # rest)")
  case True
  with assms(2) setup_help [OF True, of E name sd "base r" w] show ?thesis
    by (simp add: handler_run_def clr_oci_run_def create_no_bundle config0_def)
next
  case False
  show ?thesis
  proof
    assume b
    obtain ok config w1 where s: "handle_command_setup E name sd (base r) (cid # rest) w = (ok, config, w1)"
      by (cases "handle_command_setup E name sd (base r) (cid # rest) w")
    with assms(2) \<open>b\<close> obtain config' where r: "clr_oci_run E config w1 = Some (True, config', w')" and ok
      by (auto simp: handler_run_def bind_eq_Some_conv split: bool.split_asm)
    from setup_config [of E name sd r "cid # rest" w config w1] s \<open>ok\<close> False have f:
      "optarg_container_id config = Some cid" "cstate config = container_state0" "vm_ok config"
      "dry_run_mode config = sd_dry_run_mode sd" by auto
    from r obtain c1 w2 where c: "clr_oci_create E config w1 = Some (True, c1, w2)"
      by (auto simp: clr_oci_run_def bind_eq_Some_conv split: if_split_asm)
    then obtain ok2 c0 w0 where p: "create_prepare E config w1 = Some (ok2, c0, w0)"
      by (auto simp: clr_oci_create_def bind_eq_Some_conv)
    with c have ok2 by (auto simp: clr_oci_create_def split: if_split_asm)
    with p prepare_prepared [OF _ f(2,3,1)] f(4) assms(1) have
      "prepared (root_dir config) cid c0" "dry_run_mode c0" by auto
    with c p \<open>ok2\<close> have "state_file_path (cstate c1) = []" by (auto simp: clr_oci_create_def prepared_def)
    with r c show False
      by (simp add: clr_oci_run_def clr_oci_state_file_read_def clr_oci_json_parse_def)
  qed
qed

subsection \<open>A run of "create"\<close>

definition sh_document :: json where
  "sh_document = JObj [(''ociVersion'', JString ''1.0.0-rc1''),
     (''process'', JObj [(''cwd'', JString ''/''), (''args'', JArr [JString ''sh''])]),
     (''root'', JObj [(''path'', JString ''/r'')]),
     (''vm'', JObj [(''path'', JString ''/q''), (''image'', JString ''/i''),
                    (''kernel'', JObj [(''path'', JString ''/k'')])])]"

text \<open>
  An empty disk but for the bundle's configuration and the command line of the hypervisor; the
  state file is where the program leaves it.
\<close>

definition create_path :: string where
  "create_path = state_path None ''web''"

definition create_env :: env where
  "create_env = env0\<lparr>
     sys_bool := \<lambda>w c. (case c of FileExists p \<Rightarrow> p = create_path \<longrightarrow> file_view (\<lambda>_. None) w p \<noteq> None
        | IsATty \<Rightarrow> False | _ \<Rightarrow> True),
     sys_str := \<lambda>w c. (case c of
          FileGet p \<Rightarrow>
            if p = create_path then file_view (\<lambda>_. None) w p
            else if p = ''/b/config.json'' then Some (replicate (to_nat sh_document) (CHR ''j''))
            else Some ''/bin/qemu''
        | Realpath p \<Rightarrow> Some p | GetCwd \<Rightarrow> Some ''/''
        | Iso8601 t \<Rightarrow> Some ''2016'' | RandomUuid \<Rightarrow> Some ''0123456789abcdef'' | _ \<Rightarrow> None),
     sys_int := \<lambda>w c. (case c of Spawn d a \<Rightarrow> 7 | Waitpid p \<Rightarrow> 7 | WaitStopSignal p \<Rightarrow> 5 | _ \<Rightarrow> 0),
     json_parse := \<lambda>s. Some (from_nat (length s)),
     json_gen := \<lambda>p j. replicate (to_nat j) (CHR ''j'')\<rparr>"

definition create_config :: "bool \<Rightarrow> clr_oci_config" where
  "create_config dry = config0\<lparr>optarg_container_id := Some ''web'', bundle_path := Some ''/b'', dry_run_mode := dry\<rparr>"

definition parsed_config :: "bool \<Rightarrow> clr_oci_config" where
  "parsed_config dry = (create_config dry)\<lparr>
     vm := Some (vm_cfg0\<lparr>hypervisor_path := ''/q'', image_path := ''/i'', kernel_path := ''/k''\<rparr>),
     oci := oci_cfg0\<lparr>oci_version := Some ''1.0.0-rc1'', rootfs := \<lparr>rootfs_path = ''/r'', read_only = False\<rparr>,
       oci_process := (oci_process oci_cfg0)\<lparr>proc_cwd := ''/'', proc_args := Some [''sh'']\<rparr>\<rparr>\<rparr>"

lemma create_path: "create_path = ''/run/opencontainer/containers/web/state.json''"
  by (simp add: create_path_def state_path_def run_path_def buf_path_def CLR_OCI_RUNTIME_DIR_PREFIX_def
      CLR_OCI_STATE_FILE_def PATH_MAX_def)

lemma create_env_simps [simp]:
  "(\<forall>p. c \<noteq> FileExists p) \<and> c \<noteq> IsATty \<Longrightarrow> sys_bool create_env w c" "\<not> sys_bool create_env w IsATty"
  "p \<noteq> create_path \<Longrightarrow> sys_bool create_env w (FileExists p)"
  "sys_str create_env w (FileGet ''/b/config.json'') = Some (replicate (to_nat sh_document) (CHR ''j''))"
  "p \<noteq> create_path \<Longrightarrow> p \<noteq> ''/b/config.json'' \<Longrightarrow> sys_str create_env w (FileGet p) = Some ''/bin/qemu''"
  "sys_str create_env w (Realpath p) = Some p" "sys_str create_env w GetCwd = Some ''/''"
  "sys_str create_env w (Iso8601 t) = Some ''2016''" "sys_int create_env w Now = 0" "sys_str create_env w RandomUuid = Some ''0123456789abcdef''"
  "sys_int create_env w (Spawn d a) = 7" "sys_int create_env w (Waitpid q) = 7"
  "sys_int create_env w (WaitStopSignal q) = 5" "sys_int create_env w (PtraceDetach q s) = 0"
  "sys_int create_env w (Chdir p) = 0" "sys_int create_env w (MkdirParents p m) = 0"
  "sys_int create_env w (Mkdir p m) = 0" "sys_int create_env w (Chmod p m) = 0" "sys_int create_env w (StatSize p) = 0"
  "sys_int create_env w Getuid = 0"
  "json_parse create_env (replicate (to_nat (j :: json)) (CHR ''j'')) = Some j"
  by (simp_all add: create_env_def env0_def create_path split: call.split)

lemma create_parse:
  "\<exists>w'. clr_oci_config_file_parse create_env (create_config dry) w = Some (True, parsed_config dry, w')"
  by (simp add: clr_oci_config_file_parse_def create_config_def clr_oci_config_file_path_def
      clr_oci_get_bundlepath_file_def CLR_OCI_CONFIG_FILE_def callS_def callI_def callB_def clr_oci_json_parse_def
      g_build_path_def strip_slashes_def sh_document_def process_config_start_def run_spec_handler_def
      start_spec_handlers_def pure_handler_def process_handle_section_def handle_process_section_def
      root_handle_section_def handle_root_section_def vm_handle_section_def handle_vm_section_def
      handle_kernel_section_def vm_path_update_def clr_oci_resolve_path_def path_exists_def
      get_spec_vm_from_cfg_file_def Let_def parsed_config_def zeroed PATH_MAX_def node_to_strv_def)

lemma config_parse_keeps_types_witness:
  "\<exists>w'. clr_oci_config_file_parse create_env (create_config False) [] = Some (True, parsed_config False, w')
     \<and> extends_by keeps_files [] w'"
proof -
  have "vm (create_config False) = None" by (simp add: create_config_def config0_def)
  moreover obtain w' where "clr_oci_config_file_parse create_env (create_config False) [] = Some (True, parsed_config False, w')"
    using create_parse by blast
  ultimately show ?thesis using config_parse_keeps_types by blast
qed

lemma create_check: "clr_oci_config_check (parsed_config dry) = Some True"
proof -
  have "clr_oci_semver_cmp ''1.0.0-rc1'' ''1.0.0-rc1'' = Some 0" by code_simp
  then show ?thesis by (simp add: clr_oci_config_check_def parsed_config_def CLR_OCI_SUPPORTED_SPEC_VERSION_def)
qed

lemma parsed_fields [simp]:
  "mounts (oci (parsed_config dry)) = []" "rootfs_path (rootfs (oci (parsed_config dry))) = ''/r''"
  "proc_args (oci_process (oci (parsed_config dry))) = Some [''sh'']" "proc_env (oci_process (oci (parsed_config dry))) = None"
  "hooks (oci (parsed_config dry)) = \<lparr>prestart = [], poststart = [], poststop = []\<rparr>"
  "console (parsed_config dry) = None" "pid_file (parsed_config dry) = None"
  "cstate (parsed_config dry) = container_state0" "optarg_container_id (parsed_config dry) = Some ''web''"
  "bundle_path (parsed_config dry) = Some ''/b''" "dry_run_mode (parsed_config dry) = dry"
  "vm (parsed_config dry) = Some (vm_cfg0\<lparr>hypervisor_path := ''/q'', image_path := ''/i'', kernel_path := ''/k''\<rparr>)"
  by (simp_all add: parsed_config_def create_config_def zeroed)

definition ready :: "clr_oci_config \<Rightarrow> bool" where
  "ready config \<longleftrightarrow> console config = None \<and> rootfs_path (rootfs (oci config)) = ''/r'' \<and> pid_file config = None
     \<and> hooks (oci config) = \<lparr>prestart = [], poststart = [], poststop = []\<rparr> \<and> bundle_path config = Some ''/b''
     \<and> (\<exists>vmc. vm config = Some vmc \<and> image_path vmc = ''/i'' \<and> kernel_path vmc = ''/k'')"

lemma create_prepares:
  "\<exists>config w'. create_prepare create_env (create_config dry) w = Some (True, config, w')
     \<and> ready config \<and> dry_run_mode config = dry"
proof -
  obtain w1 where p: "clr_oci_config_file_parse create_env (create_config dry) w = Some (True, parsed_config dry, w1)"
    using create_parse by blast
  obtain c2 w2 where s: "clr_oci_runtime_dir_setup create_env (parsed_config dry) w1 = (True, c2, w2)"
    and c2: "\<exists>cs. c2 = (parsed_config dry)\<lparr>cstate := cs\<rparr>"
    by (simp add: clr_oci_runtime_dir_setup_def clr_oci_runtime_path_get_def callI_def Let_def) blast
  from c2 show ?thesis
    by (auto simp: create_prepare_def p create_check s clr_oci_handle_mounts_def ready_def
        clr_oci_create_container_workload_def workload_env_def callB_def callI_def Let_def)
qed

lemma create_args:
  assumes "ready config"
  shows "\<exists>config' w'. clr_oci_vm_args_get create_env config w = (True, config', Some [''/bin/qemu''], w')
     \<and> config' = fst (console_setup config)"
  using assms qemu_arg
  by (auto simp add: ready_def clr_oci_vm_args_get_def clr_oci_vm_args_file_path_def clr_oci_get_bundlepath_file_def
      callB_def callS_def callI_def CLR_OCI_HYPERVISOR_CMDLINE_FILE_def clr_oci_file_to_strv_def g_build_path_def
      strip_slashes_def cstr_at_def NUL_def g_strsplit_def clr_oci_expand_cmdline_def nonempty_and_def
      expand_args_def find_command_def case_prod_beta create_path Let_def)

lemma create_launches:
  assumes "ready config" and "prepared r ''web'' config"
  shows "\<exists>config' w'. create_launch create_env config w = (True, config', w')"
proof -
  let ?c = "set_status OCI_STATUS_CREATED config"
  define ts where "ts = clr_oci_get_iso8601_timestamp create_env w"
  let ?w = "snd ts"
  have ts: "clr_oci_get_iso8601_timestamp create_env w = (Some ''2016'', ?w)"
    by (simp add: ts_def clr_oci_get_iso8601_timestamp_def g_date_time_add_hours_def call_defs)
  have "ready ?c" using assms(1) by (simp add: ready_def)
  from create_args [OF this] obtain c1 w1 where
    a: "clr_oci_vm_args_get create_env ?c ?w = (True, c1, Some [''/bin/qemu''], w1)"
    and c1: "c1 = fst (console_setup ?c)" by blast
  have "pid_file c1 = None" using assms(1) by (simp add: c1 console_setup_def ready_def Let_def)
  with a have l: "\<exists>w2. clr_oci_vm_launch create_env ?c ?w =
      (True, c1\<lparr>cstate := (cstate c1)\<lparr>workload_pid := 7\<rparr>\<rparr>, w2)"
    by (simp add: clr_oci_vm_launch_def callI_def Let_def SIGTRAP_def)
  obtain vmc where vmc: "vm config = Some vmc" using assms(1) by (auto simp: ready_def)
  have "console_setup ?c = (c1, snd (console_setup ?c))" by (simp add: c1)
  from console_setup_console [OF this] obtain con sock where
    c1': "c1 = ?c\<lparr>console := Some con, use_socket_console := sock\<rparr>" by blast
  have "clr_oci_status_to_str OCI_STATUS_CREATED = Some ''created''"
    by (simp add: clr_oci_status_to_str_def oci_status_map_def)
  then show ?thesis
    using l [unfolded c1'] assms vmc
    by (auto simp: create_launch_def ts Let_def clr_oci_state_file_create_def callS_def prepared_def clr_oci_state_file_get_def
        clr_oci_status_get_def callB_def clr_run_hooks_def ready_def)
qed

lemma create_runs: "\<exists>config w'. clr_oci_create create_env (create_config False) w = Some (True, config, w')"
proof -
  obtain c1 w1 where p: "create_prepare create_env (create_config False) w = Some (True, c1, w1)"
    and rd: "ready c1" "\<not> dry_run_mode c1" using create_prepares [of False w] by blast
  have "prepared None ''web'' c1"
    using prepare_prepared [OF p, of "''web''"]
    by (simp add: create_config_def config0_def vm_ok_def)
  from create_launches [OF rd(1) this, of w1] p rd show ?thesis by (simp add: clr_oci_create_def)
qed

lemma setup_web:
  "handle_command_setup create_env name (no_start_data\<lparr>sd_dry_run_mode := dry\<rparr>) (base None) [''web'', ''/b''] w =
     (True, create_config dry, (Realpath ''/b'', RStr (Some ''/b'')) # w)"
  by (simp add: handle_command_setup_def handle_default_usage_def is_help_def no_start_data_def create_config_def
      clr_oci_resolve_path_def callS_def config0_def)

lemma create_handler_runs:
  "\<exists>w'. handler_create create_env ''create'' no_start_data (base None) [''web'', ''/b''] w = Some (True, w')"
proof -
  have sd: "no_start_data\<lparr>sd_dry_run_mode := False\<rparr> = no_start_data" by (simp add: no_start_data_def)
  show ?thesis
    using create_runs [of "(Realpath ''/b'', RStr (Some ''/b'')) # w"] setup_web [of "''create''" False w, unfolded sd]
    by (auto simp: handler_create_def)
qed


lemma dry_run_never_succeeds_witness:
  "\<exists>w'. handler_run create_env ''run'' (no_start_data\<lparr>sd_dry_run_mode := True\<rparr>) (base None) [''web'', ''/b''] [] =
     Some (False, w')"
proof -
  let ?w = "[(Realpath ''/b'', RStr (Some ''/b''))]"
  obtain c1 w1 where p: "create_prepare create_env (create_config True) ?w = Some (True, c1, w1)"
    and d: "dry_run_mode c1" using create_prepares [of True ?w] by blast
  then have "clr_oci_create create_env (create_config True) ?w = Some (True, c1, w1)" by (simp add: clr_oci_create_def)
  then obtain b w' where run: "handler_run create_env ''run'' (no_start_data\<lparr>sd_dry_run_mode := True\<rparr>) (base None)
      [''web'', ''/b''] [] = Some (b, w')"
    using setup_web [of "''run''" True "[]"] prepare_prepared [OF p, of "''web''"]
    by (auto simp: handler_run_def clr_oci_run_def clr_oci_state_file_read_def clr_oci_json_parse_def prepared_def
        create_config_def config0_def vm_ok_def)
  from dry_run_never_succeeds [OF _ run] run show ?thesis by simp
qed

end
