(* ===== verification/Command_Errors.thy ===== *)
theory Command_Errors
  imports Create
begin

text \<open>
  What the commands do on their error paths: a container without bundle, the help option of the
  commands that make a container, and the two commands that never look at their argument.
\<close>

subsection \<open>A state file without bundle\<close>

text \<open>The container of \<^term>\<open>web\<close>, its bundle path empty: the writer refuses to write it, the reader reads it.\<close>

definition bare :: container where
  "bare = web\<lparr>k_bundle := []\<rparr>"

definition bare_disk :: disk where
  "bare_disk p = (if p = state_path None (k_id bare) then Some (json_gen (disk_env (\<lambda>_. None)) True (doc_of bare)) else None)"

lemma get_no_bundle:
  assumes "clr_oci_state_file_read E (Some (state_path r cid)) w = Some (Some state, w1)"
    and "s_bundle_path state = Some []" and "s_comms_path state = Some comms"
  shows "\<exists>config. clr_oci_get_config_and_state E ((base r)\<lparr>optarg_container_id := Some cid\<rparr>) w =
     Some (False, None, config, Dangling, w1)"
  using assms
  by (simp add: clr_oci_get_config_and_state_def paths_of_base clr_oci_config_file_path_def
      clr_oci_get_bundlepath_file_def)

text \<open>
  C24. When the state file holds an empty bundle path, the commands that read it free the state twice:
  "pause", "resume", "kill" and "exec" end in a crash.
\<close>

theorem empty_bundle_crashes_commands:
  assumes "clr_oci_state_file_read E (Some (state_path r cid)) w = Some (Some state, w1)"
    and "s_bundle_path state = Some []" and "s_comms_path state = Some comms"
    and "cid \<noteq> ''--help''" and "cid \<noteq> ''-h''"
  shows "handler_pause E name (base r) (cid # rest) w = None
     \<and> handler_resume E name (base r) (cid # rest) w = None
     \<and> handler_kill E name (base r) [cid] w = None
     \<and> handler_exec E name (base r) (cid # cmd # rest) w = None"
proof -
  obtain config where get: "clr_oci_get_config_and_state E ((base r)\<lparr>optarg_container_id := Some cid\<rparr>) w =
     Some (False, None, config, Dangling, w1)"
    using get_no_bundle [OF assms(1,2,3)] by blast
  have "handle_command_toggle E name (base r) (cid # rest) p w = None" for p
    using get no_default_usage [OF assms(4,5)] by (simp add: handle_command_toggle_def clr_oci_state_free_def)
  moreover have "\<not> is_help (cid # xs)" for xs using assms(4,5) by (simp add: is_help_def)
  ultimately show ?thesis
    using get by (simp add: handler_pause_def handler_resume_def handler_kill_def handler_exec_def
        kill_signal_def SIGTERM_def clr_oci_state_free_def)
qed

lemma empty_bundle_crashes_commands_witness:
  "handler_pause (disk_env bare_disk) ''pause'' (base None) [''web''] [] = None"
proof -
  have f: "faithful (disk_env bare_disk) bare_disk (state_path None (k_id bare))"
    "stored (disk_env bare_disk) bare_disk None [] bare" "readable bare" "k_id bare = ''web''"
    "s_bundle_path (state_of bare) = Some []" "s_comms_path (state_of bare) = Some (k_comms web)"
    by (simp_all add: faithful_def disk_env_ok stored_def bare_disk_def readable_def bare_def web_def vm_fits_def
        PATH_MAX_def state_of_def) (simp_all add: disk_env_def)
  obtain rep where "clr_oci_state_file_read (disk_env bare_disk) (Some (state_path None ''web'')) [] =
     Some (Some (state_of bare), [(FileGet (state_path None ''web''), rep)])"
    using read_stored [OF f(1,2,3)] f(4) by auto
  from empty_bundle_crashes_commands [OF this f(5,6)] show ?thesis by simp
qed

subsection \<open>Help\<close>

text \<open>
  "create --help" and "run --help" print the usage and go on without a bundle: they report
  failure, and nothing but the message is done.
\<close>

theorem create_help_fails:
  "handler_create E name sd (base r) (''--help'' # rest) w = Some (False, g_print E (usage_line name) w)
   \<and> handler_run E name sd (base r) (''--help'' # rest) w = Some (False, g_print E (usage_line name) w)"
  by (simp add: handler_create_def handler_run_def clr_oci_run_def setup_help is_help_def create_no_bundle config0_def)

subsection \<open>Commands without an id\<close>

text \<open>
  "checkpoint" and "restore" look for a state file before a container id is known: on every
  container they fail, and do not even look.
\<close>

theorem checkpoint_restore_never_find:
  assumes "cid \<noteq> ''--help''" and "cid \<noteq> ''-h''"
  shows "handler_checkpoint E name (base r) (cid # rest) w = Some (False, w)
     \<and> handler_restore E name (base r) (cid # rest) w = Some (False, w)"
  using no_default_usage [OF assms]
  by (simp add: handler_checkpoint_def handler_restore_def clr_oci_state_file_exists_def
      clr_oci_runtime_path_get_def config0_def)

lemma checkpoint_restore_never_find_witness:
  "handler_checkpoint (disk_env web_disk) ''checkpoint'' (base None) [k_id web] [] = Some (False, [])
     \<and> handler_restore (disk_env web_disk) ''restore'' (base None) [k_id web] [] = Some (False, [])"
  using checkpoint_restore_never_find [of "k_id web" "disk_env web_disk" _ None "[]" "[]"] by (simp add: web_def)

end
