(* ===== verification/Listing.thy ===== *)
theory Listing
  imports Command_Errors
begin

text \<open>
  The command "list": \<^verbatim>\<open>clr_oci_list\<close> of \<^verbatim>\<open>src/oci.c\<close> and
  \<^verbatim>\<open>src/commands/list.c\<close>. A table is printed with \<^verbatim>\<open>printf\<close> field widths, which are
  computed while the state files are read; the JSON form is one array of objects.
\<close>

subsection \<open>Field widths\<close>

text \<open>\<^verbatim>\<open>%-*s\<close>: left-justified; a negative width is the flag and its absolute value.\<close>

definition pad :: "int \<Rightarrow> string \<Rightarrow> string" where
  "pad width s = s @ replicate (nat \<bar>width\<bar> - length s) (CHR 0x20)"

text \<open>
  \<^verbatim>\<open>%-*.*s\<close>: a precision that is not negative bounds the characters taken;
  \<^verbatim>\<open>%-*.u\<close>: with precision 0 the value 0 has no digits at all.
\<close>

definition pad_prec :: "int \<Rightarrow> int \<Rightarrow> string \<Rightarrow> string" where
  "pad_prec width prec s = pad width (if prec < 0 then s else take (nat prec) s)"

definition pad_unsigned :: "int \<Rightarrow> int \<Rightarrow> string" where
  "pad_unsigned width n = pad width (if n = 0 then [] else dec_of_int n)"

record format_options =
  use_json :: bool
  json_array :: "json list"
  show_all :: bool
  id_width :: int
  pid_width :: int
  status_width :: int
  bundle_width :: int
  created_width :: int
  hypervisor_width :: int
  image_width :: int
  kernel_width :: int

definition format_options0 :: format_options where
  "format_options0 = \<lparr>use_json = False, json_array = [], show_all = False, id_width = 0, pid_width = 0,
     status_width = 0, bundle_width = 0, created_width = 0, hypervisor_width = 0, image_width = 0,
     kernel_width = 0\<rparr>"

text \<open>
  The widths grow with each state. \<^verbatim>\<open>g_string_assign\<close> of NULL leaves the string as it is.
  A state without a VM fails the assertion. The first column that is set once only is the
  status column: \<open>status_max\<close> is the function's static variable.
\<close>

definition g_string_assign :: "string \<Rightarrow> cstring \<Rightarrow> string" where
  "g_string_assign str val = (case val of None \<Rightarrow> str | Some v \<Rightarrow> v)"

definition str_len :: "string \<Rightarrow> int" where
  "str_len str = to_int32 (int (length str))"

definition clr_oci_update_options ::
  "oci_state \<Rightarrow> format_options \<times> int \<Rightarrow> (format_options \<times> int) option" where
  "clr_oci_update_options state s =
     (case (s, s_vm state) of
        (_, None) \<Rightarrow> None
      | ((opt, status_max), Some vmc) \<Rightarrow>
          let (opt, status_max) =
                (if status_max = 0 then (opt\<lparr>status_width := int clr_oci_status_length\<rparr>, int clr_oci_status_length)
                 else (opt, status_max));
              str = g_string_assign [] (s_id state);
              opt = opt\<lparr>id_width := max (id_width opt) (str_len str)\<rparr>;
              str = dec_of_int (to_uint32 (s_pid state));
              opt = opt\<lparr>pid_width := max (pid_width opt) (str_len str)\<rparr>;
              opt = opt\<lparr>pid_width := max (pid_width opt) 3\<rparr>;
              str = g_string_assign str (s_bundle_path state);
              opt = opt\<lparr>bundle_width := max (bundle_width opt) (str_len str)\<rparr>;
              str = g_string_assign str (s_create_time state);
              opt = opt\<lparr>created_width := max (created_width opt) (str_len str)\<rparr>;
              str = hypervisor_path vmc;
              opt = opt\<lparr>hypervisor_width := max (hypervisor_width opt) (str_len str)\<rparr>;
              str = image_path vmc;
              opt = opt\<lparr>image_width := max (image_width opt) (str_len str)\<rparr>;
              str = kernel_path vmc;
              opt = opt\<lparr>kernel_width := max (kernel_width opt) (str_len str)\<rparr>
          in Some (opt, status_max))"

subsection \<open>One container\<close>

text \<open>The five \<^verbatim>\<open>g_print\<close> calls of a row, and the JSON object of a container.\<close>

definition list_row :: "oci_state \<Rightarrow> cstring \<Rightarrow> format_options \<Rightarrow> string" where
  "list_row state st opt =
     pad (id_width opt) (fmt_s (s_id state)) @ '' '' @
     (if s_pid state = 0 then pad_prec (pid_width opt) (pid_width opt) ''0'' @ '' ''
      else pad_unsigned (pid_width opt) (to_uint32 (s_pid state)) @ '' '') @
     pad (status_width opt) (fmt_s st) @ '' '' @
     pad (bundle_width opt) (fmt_s (s_bundle_path state)) @ '' '' @
     pad (created_width opt) (fmt_s (s_create_time state)) @
     (if show_all opt then '' '' else [CHR 0x0A])"

definition list_row_vm :: "clr_oci_vm_cfg \<Rightarrow> format_options \<Rightarrow> string" where
  "list_row_vm vmc opt =
     pad (hypervisor_width opt) (hypervisor_path vmc) @ '' '' @
     pad (kernel_width opt) (kernel_path vmc) @ '' '' @
     pad (image_width opt) (image_path vmc) @ [CHR 0x0A]"

definition list_members :: "oci_state \<Rightarrow> cstring \<Rightarrow> (string \<times> json) list" where
  "list_members state st =
     [(''id'', jstring (s_id state)), (''pid'', JInt (s_pid state)), (''status'', jstring st),
      (''bundle'', jstring (s_bundle_path state)), (''created'', jstring (s_create_time state))]"

definition list_members_vm :: "clr_oci_vm_cfg \<Rightarrow> (string \<times> json) list" where
  "list_members_vm vmc =
     [(''hypervisor'', JString (hypervisor_path vmc)), (''kernel'', JString (kernel_path vmc)),
      (''image'', JString (image_path vmc))]"

definition clr_oci_list_vm ::
  "env \<Rightarrow> oci_state \<Rightarrow> format_options \<times> world \<Rightarrow> (format_options \<times> world) option" where
  "clr_oci_list_vm E state s =
     (case s of (opt, w) \<Rightarrow>
        (case clr_oci_vm_running E state w of (running, w) \<Rightarrow>
           let st = clr_oci_status_to_str (if running then s_status state else OCI_STATUS_STOPPED) in
           if \<not> use_json opt then
             let w = g_print E (list_row state st opt) w in
             if show_all opt then do {
               vmc \<leftarrow> s_vm state;
               Some (opt, g_print E (list_row_vm vmc opt) w)
             }
             else Some (opt, w)
           else if show_all opt then do {
             vmc \<leftarrow> s_vm state;
             Some (opt\<lparr>json_array := json_array opt @ [JObj (list_members state st @ list_members_vm vmc)]\<rparr>, w)
           }
           else Some (opt\<lparr>json_array := json_array opt @ [JObj (list_members state st)]\<rparr>, w)))"

subsection \<open>All containers\<close>

definition clr_oci_vm_get_state :: "env \<Rightarrow> string \<Rightarrow> cstring \<Rightarrow> world \<Rightarrow> (oci_state option \<times> world) option" where
  "clr_oci_vm_get_state E name dir w =
     (case clr_oci_runtime_path_get (config0\<lparr>root_dir := dir, optarg_container_id := Some name\<rparr>) of
        (False, config) \<Rightarrow> Some (None, w)
      | (True, config) \<Rightarrow>
          (case clr_oci_state_file_get config of
             (False, config) \<Rightarrow> Some (None, w)
           | (True, config) \<Rightarrow> clr_oci_state_file_read E (Some (state_file_path (cstate config))) w))"

text \<open>
  The walk over the runtime directory: what is not a directory, or has no readable state
  file, is passed over.
\<close>

definition list_entry ::
  "env \<Rightarrow> string \<Rightarrow> string \<Rightarrow> oci_state list \<times> (format_options \<times> int) \<times> world
   \<Rightarrow> (oci_state list \<times> (format_options \<times> int) \<times> world) option" where
  "list_entry E dirname name s =
     (case s of (vms, opts, w) \<Rightarrow>
        (case callB E (FileIsDir (g_build_path [dirname, name])) w of
           (False, w) \<Rightarrow> Some (vms, opts, w)
         | (True, w) \<Rightarrow> do {
             (st, w) \<leftarrow> clr_oci_vm_get_state E name (Some dirname) w;
             case st of
               None \<Rightarrow> Some (vms, opts, w)
             | Some state \<Rightarrow> do {
                 opts \<leftarrow> (if use_json (fst opts) then Some opts else clr_oci_update_options state opts);
                 Some (vms @ [state], opts, w)
               }
           }))"

definition list_header :: "format_options \<Rightarrow> string" where
  "list_header opt =
     pad (id_width opt) ''ID'' @ '' '' @ pad (pid_width opt) ''PID'' @ '' '' @
     pad (status_width opt) ''STATUS'' @ '' '' @ pad (bundle_width opt) ''BUNDLE'' @ '' '' @
     pad (created_width opt) ''CREATED'' @ (if show_all opt then '' '' else [CHR 0x0A])"

definition list_header_vm :: "format_options \<Rightarrow> string" where
  "list_header_vm opt =
     pad (hypervisor_width opt) ''HYPERVISOR'' @ '' '' @ pad (kernel_width opt) ''KERNEL'' @ '' '' @
     pad (image_width opt) ''IMAGE'' @ [CHR 0x0A]"

definition list_print :: "env \<Rightarrow> oci_state list \<Rightarrow> format_options \<Rightarrow> world \<Rightarrow> (bool \<times> world) option" where
  "list_print E vms opt w =
     (if use_json opt \<and> vms = [] then Some (True, g_print E ''null'' w)
      else do {
        let w = (if use_json opt then w
                 else (let w = g_print E (list_header opt) w in
                       if show_all opt then g_print E (list_header_vm opt) w else w));
        (opt, w) \<leftarrow> foreach (clr_oci_list_vm E) vms (opt, w);
        Some (True, if use_json opt then g_print E (json_gen E False (JArr (json_array opt)) @ [CHR 0x0A]) w
                    else w)
      })"

definition clr_oci_list :: "env \<Rightarrow> clr_oci_config \<Rightarrow> cstring \<Rightarrow> bool \<Rightarrow> world \<Rightarrow> (bool \<times> world) option" where
  "clr_oci_list E config format all w =
     (case format of
        None \<Rightarrow> Some (False, w)
      | Some f \<Rightarrow>
          if f = [] then Some (False, w)
          else
            let dirname = (case root_dir config of Some d \<Rightarrow> d | None \<Rightarrow> CLR_OCI_RUNTIME_DIR_PREFIX) in
            if f \<noteq> ''json'' \<and> f \<noteq> ''table'' then Some (False, w)
            else
              let opt = format_options0\<lparr>use_json := (f = ''json''), show_all := all\<rparr> in
              (case callB E (DirOpen dirname) w of
                 (False, w) \<Rightarrow> list_print E [] opt w
               | (True, w) \<Rightarrow> do {
                   (vms, opts, w) \<leftarrow> foreach (list_entry E dirname) (sys_dir E w dirname) ([], (opt, 0), w);
                   (ret, w) \<leftarrow> list_print E vms (fst opts) w;
                   Some (ret, snd (callB E (CloseDir dirname) w))
                 }))"

definition handler_list :: "env \<Rightarrow> cstring \<Rightarrow> bool \<Rightarrow> clr_oci_config \<Rightarrow> world \<Rightarrow> (bool \<times> world) option" where
  "handler_list E format all config w =
     clr_oci_list E config (case format of Some f \<Rightarrow> Some f | None \<Rightarrow> Some ''table'') all w"

subsection \<open>Lemmas\<close>

text \<open>A runtime directory whose entries are the state directories of the containers \<open>cs\<close>.\<close>

definition listed :: "env \<Rightarrow> disk \<Rightarrow> string \<Rightarrow> world \<Rightarrow> container list \<Rightarrow> bool" where
  "listed E d dir w cs \<longleftrightarrow> (\<forall>v. sys_bool E v (DirOpen dir)) \<and> (\<forall>v. sys_dir E v dir = map k_id cs)
     \<and> (\<forall>c \<in> set cs. (\<forall>v. sys_bool E v (FileIsDir (g_build_path [dir, k_id c])))
          \<and> faithful E d (state_path (Some dir) (k_id c)) \<and> stored E d (Some dir) w c \<and> readable c)"

text \<open>The status a container is shown with, when \<open>alive\<close> tells which processes exist.\<close>

definition shown :: "(int \<Rightarrow> bool) \<Rightarrow> container \<Rightarrow> oci_status" where
  "shown alive c = (if k_pid c \<noteq> 0 \<and> alive (k_pid c) then k_status c else OCI_STATUS_STOPPED)"

definition summary :: "(int \<Rightarrow> bool) \<Rightarrow> container \<Rightarrow> json" where
  "summary alive c = JObj [(''id'', JString (k_id c)), (''pid'', JInt (k_pid c)),
     (''status'', jstring (clr_oci_status_to_str (shown alive c))),
     (''bundle'', JString (k_bundle c)), (''created'', JString (k_created c))]"

lemma get_state_stored:
  assumes "listed E d dir w cs" and "c \<in> set cs"
  shows "\<exists>rep. clr_oci_vm_get_state E (k_id c) (Some dir) w =
     Some (Some (state_of c), (FileGet (state_path (Some dir) (k_id c)), rep) # w)"
  using assms read_stored [of E d "Some dir" c w] paths_of_base [where r = "Some dir" and cid = "k_id c"]
  by (auto simp: listed_def clr_oci_vm_get_state_def)

lemma listed_keeps [simp]: "keeps_files x \<Longrightarrow> listed E d dir ((x, rep) # w) cs = listed E d dir w cs"
  by (simp add: listed_def)

lemma listed_prints [simp]: "listed E d dir (g_print E s w) cs = listed E d dir w cs"
  by (simp add: g_print_def callB_def keeps_files_def)

lemma running_stored:
  assumes "\<And>v p. sys_int E v (Kill p 0) = 0 \<longleftrightarrow> alive p"
  shows "\<exists>running w'. clr_oci_vm_running E (state_of c) w = (running, w') \<and> prints w' = prints w
     \<and> extends_by keeps_files w w' \<and> (if running then k_status c else OCI_STATUS_STOPPED) = shown alive c"
  using assms by (auto simp: clr_oci_vm_running_def shown_def state_of_def callI_def keeps_files_def)

text \<open>The walk reads the states in the order of the directory, and changes and prints nothing.\<close>

fun widened :: "container list \<Rightarrow> format_options \<times> int \<Rightarrow> (format_options \<times> int) option" where
  "widened [] opts = Some opts"
| "widened (c # cs) opts =
     do { opts \<leftarrow> (if use_json (fst opts) then Some opts else clr_oci_update_options (state_of c) opts);
          widened cs opts }"

lemma walk_listed:
  assumes "listed E d dir w cs" and "set xs \<subseteq> set cs" and "widened xs opts = Some opts'"
  shows "\<exists>w'. foreach (list_entry E dir) (map k_id xs) (vms, opts, w) = Some (vms @ map state_of xs, opts', w')
     \<and> extends_by keeps_files w w' \<and> prints w' = prints w"
  using assms
proof (induction xs arbitrary: vms opts w)
  case (Cons c xs)
  let ?w1 = "(FileIsDir (g_build_path [dir, k_id c]), RBool True) # w"
  have c: "c \<in> set cs" and dir: "\<And>v. sys_bool E v (FileIsDir (g_build_path [dir, k_id c]))"
    using Cons.prems(1,2) by (auto simp: listed_def)
  have l1: "listed E d dir ?w1 cs" using Cons.prems(1) by (simp add: keeps_files_def)
  obtain rep where get: "clr_oci_vm_get_state E (k_id c) (Some dir) ?w1 =
     Some (Some (state_of c), (FileGet (state_path (Some dir) (k_id c)), rep) # ?w1)" (is "_ = Some (_, ?w2)")
    using get_state_stored [OF l1 c] by blast
  obtain opts1 where o: "(if use_json (fst opts) then Some opts else clr_oci_update_options (state_of c) opts) = Some opts1"
    "widened xs opts1 = Some opts'" using Cons.prems(3) by (auto simp: bind_eq_Some_conv)
  have "listed E d dir ?w2 cs" using l1 by (simp add: keeps_files_def)
  then obtain w' where "foreach (list_entry E dir) (map k_id xs) (vms @ [state_of c], opts1, ?w2) =
       Some ((vms @ [state_of c]) @ map state_of xs, opts', w')"
     "extends_by keeps_files ?w2 w'" "prints w' = prints ?w2"
    using Cons.IH [of ?w2 opts1 "vms @ [state_of c]"] Cons.prems(2) o(2) by auto
  moreover have "list_entry E dir (k_id c) (vms, opts, w) = Some (vms @ [state_of c], opts1, ?w2)"
    using dir get o(1) by (simp add: list_entry_def callB_def)
  moreover have "extends_by keeps_files w ?w2" by (simp add: keeps_files_def)
  ultimately show ?case by (auto intro: extends_by_trans)
qed simp

lemma widened_json: "use_json (fst opts) \<Longrightarrow> widened cs opts = Some opts"
  by (induction cs) simp_all

lemma list_walk:
  assumes "listed E d dir w cs" and "widened cs (opt, 0) = Some opts"
    and "opt = format_options0\<lparr>use_json := (f = ''json''), show_all := all\<rparr>" and "f = ''json'' \<or> f = ''table''"
  shows "\<exists>w1. clr_oci_list E (base (Some dir)) (Some f) all w =
       do { (ret, w) \<leftarrow> list_print E (map state_of cs) (fst opts) w1; Some (ret, snd (callB E (CloseDir dir) w)) }
     \<and> prints w1 = prints w \<and> extends_by keeps_files w w1"
proof -
  let ?w = "(DirOpen dir, RBool True) # w"
  have "listed E d dir ?w cs" using assms(1) by (simp add: keeps_files_def)
  from walk_listed [OF this subset_refl assms(2), of "[]"] obtain w1 where
    "foreach (list_entry E dir) (map k_id cs) ([], (opt, 0), ?w) = Some (map state_of cs, opts, w1)"
    "extends_by keeps_files ?w w1" "prints w1 = prints ?w" by auto
  then show ?thesis
    using assms(1,3,4)
    by (intro exI [of _ w1])
      (auto simp: clr_oci_list_def callB_def listed_def keeps_files_def intro: extends_by_step)
qed

subsection \<open>The JSON form\<close>

lemma list_json_rows:
  assumes "\<And>v p. sys_int E v (Kill p 0) = 0 \<longleftrightarrow> alive p" and "use_json opt" and "\<not> show_all opt"
  shows "\<exists>w'. foreach (clr_oci_list_vm E) (map state_of cs) (opt, w) =
       Some (opt\<lparr>json_array := json_array opt @ map (summary alive) cs\<rparr>, w')
     \<and> prints w' = prints w \<and> extends_by keeps_files w w'"
  using assms(2,3)
proof (induction cs arbitrary: opt w)
  case (Cons c cs)
  obtain running w1 where r: "clr_oci_vm_running E (state_of c) w = (running, w1)" "prints w1 = prints w"
    "extends_by keeps_files w w1" "(if running then k_status c else OCI_STATUS_STOPPED) = shown alive c"
    using running_stored [of E alive, OF assms(1)] by blast
  let ?opt = "opt\<lparr>json_array := json_array opt @ [summary alive c]\<rparr>"
  have fields: "s_id (state_of c) = Some (k_id c)" "s_pid (state_of c) = k_pid c"
    "s_bundle_path (state_of c) = Some (k_bundle c)" "s_create_time (state_of c) = Some (k_created c)"
    "s_status (state_of c) = k_status c"
    by (simp_all add: state_of_def)
  have "clr_oci_list_vm E (state_of c) (opt, w) = Some (?opt, w1)"
    using r(1,4) Cons.prems
    by (cases running) (simp_all add: clr_oci_list_vm_def fields list_members_def summary_def jstring_def Let_def)
  moreover obtain w' where "foreach (clr_oci_list_vm E) (map state_of cs) (?opt, w1) =
       Some (?opt\<lparr>json_array := json_array ?opt @ map (summary alive) cs\<rparr>, w')"
     "prints w' = prints w1" "extends_by keeps_files w1 w'"
    using Cons.IH [of ?opt w1] Cons.prems by auto
  ultimately show ?case using r(2,3) by (auto intro: extends_by_trans)
qed simp

text \<open>
  C26. "list" in JSON form prints one document, the array of the containers of the runtime directory
  in its order, each with its id, process id, bundle and time of creation, and with the status of
  its state file when its process exists and "stopped" otherwise; without containers it prints
  "null". It changes no file and succeeds.
\<close>

theorem list_json_reports:
  assumes "listed E d dir w cs" and "\<And>v p. sys_int E v (Kill p 0) = 0 \<longleftrightarrow> alive p"
  shows "\<exists>w'. handler_list E (Some ''json'') False (base (Some dir)) w = Some (True, w')
     \<and> extends_by keeps_files w w'
     \<and> prints w' = prints w @ [if cs = [] then ''null'' else json_gen E False (JArr (map (summary alive) cs)) @ [CHR 0x0A]]"
proof -
  let ?opt = "format_options0\<lparr>use_json := True\<rparr>"
  have opt: "use_json ?opt" "\<not> show_all ?opt" "json_array ?opt = []" by (simp_all add: format_options0_def)
  have "widened cs (?opt, 0) = Some (?opt, 0)" using opt by (simp add: widened_json)
  from list_walk [OF assms(1) this, where f = "''json''" and all = False] opt obtain w1 where l:
    "clr_oci_list E (base (Some dir)) (Some ''json'') False w =
       do { (ret, w) \<leftarrow> list_print E (map state_of cs) ?opt w1; Some (ret, snd (callB E (CloseDir dir) w)) }"
    "prints w1 = prints w" "extends_by keeps_files w w1" by auto
  obtain w2 where "foreach (clr_oci_list_vm E) (map state_of cs) (?opt, w1) =
       Some (?opt\<lparr>json_array := map (summary alive) cs\<rparr>, w2)" "prints w2 = prints w1" "extends_by keeps_files w1 w2"
    using list_json_rows [of E alive ?opt cs w1, OF assms(2) opt(1,2)] opt(3) by auto
  with l opt show ?thesis
    by (auto simp: handler_list_def list_print_def callB_def g_print_def keeps_files_def prints_def
        intro: extends_by_trans)
qed

subsection \<open>The table\<close>

definition list_cells :: "oci_state \<Rightarrow> cstring \<Rightarrow> format_options \<Rightarrow> string list" where
  "list_cells state st opt =
     [pad (id_width opt) (fmt_s (s_id state)),
      (if s_pid state = 0 then pad_prec (pid_width opt) (pid_width opt) ''0''
       else pad_unsigned (pid_width opt) (to_uint32 (s_pid state))),
      pad (status_width opt) (fmt_s st), pad (bundle_width opt) (fmt_s (s_bundle_path state)),
      pad (created_width opt) (fmt_s (s_create_time state))]"

definition column_widths :: "format_options \<Rightarrow> nat list" where
  "column_widths opt =
     map nat [id_width opt, pid_width opt, status_width opt, bundle_width opt, created_width opt]"

lemma list_row_cells:
  "\<not> show_all opt \<Longrightarrow> list_row state st opt = g_strjoinv '' '' (list_cells state st opt) @ [CHR 0x0A]"
  by (simp add: list_row_def list_cells_def)

lemma length_pad: "int (length s) \<le> width \<Longrightarrow> length (pad width s) = nat width"
  by (simp add: pad_def)

text \<open>The columns are wide enough for a container.\<close>

definition fits :: "container \<Rightarrow> format_options \<Rightarrow> bool" where
  "fits c opt \<longleftrightarrow> int (length (k_id c)) \<le> id_width opt
     \<and> int (length (dec_of_int (to_uint32 (k_pid c)))) \<le> pid_width opt \<and> 3 \<le> pid_width opt
     \<and> status_width opt = int clr_oci_status_length
     \<and> int (length (k_bundle c)) \<le> bundle_width opt \<and> int (length (k_created c)) \<le> created_width opt"

definition short :: "container \<Rightarrow> bool" where
  "short c \<longleftrightarrow> length (k_id c) < 2 ^ 31 \<and> length (k_bundle c) < 2 ^ 31 \<and> length (k_created c) < 2 ^ 31"

lemma status_length: "clr_oci_status_length = 8"
  by code_simp

lemma status_fits: "s \<noteq> OCI_STATUS_INVALID \<Longrightarrow> int (length (fmt_s (clr_oci_status_to_str s))) \<le> int clr_oci_status_length"
  unfolding status_length by (cases s) (simp_all add: clr_oci_status_to_str_def oci_status_map_def)

lemma str_len: "length s < 2 ^ 31 \<Longrightarrow> str_len s = int (length s)"
  unfolding str_len_def by (rule to_int32_id) simp_all

lemma pid_short: "length (dec_of_int (to_uint32 n)) < 2 ^ 31"
proof -
  have "\<bar>to_uint32 n\<bar> < 10 ^ 20" using to_uint32_bounds [of n] by simp
  then show ?thesis using length_dec_of_int [of "to_uint32 n"] by (simp add: NODE_BUF_SIZE_def)
qed

lemma update_fits:
  assumes "short c" and "m \<noteq> 0 \<longrightarrow> status_width opt = int clr_oci_status_length"
  shows "\<exists>opt'. clr_oci_update_options (state_of c) (opt, m) = Some (opt', if m = 0 then 8 else m) \<and> fits c opt'
     \<and> (\<forall>x. fits x opt \<longrightarrow> fits x opt') \<and> use_json opt' = use_json opt \<and> show_all opt' = show_all opt
     \<and> status_width opt' = int clr_oci_status_length"
proof -
  have len: "str_len (k_id c) = int (length (k_id c))" "str_len (k_bundle c) = int (length (k_bundle c))"
    "str_len (k_created c) = int (length (k_created c))"
    "str_len (dec_of_int (to_uint32 (k_pid c))) = int (length (dec_of_int (to_uint32 (k_pid c))))"
    using assms(1) pid_short by (simp_all add: short_def str_len)
  show ?thesis
    using assms(2)
    by (auto simp: clr_oci_update_options_def state_of_def g_string_assign_def fits_def len status_length Let_def)
qed

lemma widened_fits:
  assumes "\<forall>c \<in> set cs. short c" and "\<not> use_json opt" and "m \<noteq> 0 \<longrightarrow> status_width opt = int clr_oci_status_length"
  shows "\<exists>opt' m'. widened cs (opt, m) = Some (opt', m') \<and> (\<forall>c \<in> set cs. fits c opt')
     \<and> (\<forall>x. fits x opt \<longrightarrow> fits x opt') \<and> \<not> use_json opt' \<and> show_all opt' = show_all opt"
  using assms
proof (induction cs arbitrary: opt m)
  case (Cons c cs)
  obtain opt1 where u: "clr_oci_update_options (state_of c) (opt, m) = Some (opt1, if m = 0 then 8 else m)"
    "fits c opt1" "\<forall>x. fits x opt \<longrightarrow> fits x opt1" "use_json opt1 = use_json opt" "show_all opt1 = show_all opt"
    "status_width opt1 = int clr_oci_status_length"
    using update_fits [of c m opt] Cons.prems by auto
  with Cons.IH [of opt1 "if m = 0 then 8 else m"] Cons.prems show ?case by fastforce
qed simp

lemma cells_fit:
  assumes "fits c opt" and "s \<noteq> OCI_STATUS_INVALID"
  shows "map length (list_cells (state_of c) (clr_oci_status_to_str s) opt) = column_widths opt"
proof -
  have "length (pad_prec (pid_width opt) (pid_width opt) ''0'') = nat (pid_width opt)"
    "length (pad_unsigned (pid_width opt) (to_uint32 (k_pid c))) = nat (pid_width opt)"
    using assms(1) by (auto simp: pad_prec_def pad_unsigned_def fits_def intro!: length_pad)
  then show ?thesis
    using assms status_fits [of s]
    by (simp add: list_cells_def column_widths_def state_of_def fits_def length_pad)
qed

lemma list_table_rows:
  assumes "\<And>v p. sys_int E v (Kill p 0) = 0 \<longleftrightarrow> alive p" and "\<not> use_json opt" and "\<not> show_all opt"
  shows "\<exists>w'. foreach (clr_oci_list_vm E) (map state_of cs) (opt, w) = Some (opt, w')
     \<and> prints w' = prints w @ map (\<lambda>c. list_row (state_of c) (clr_oci_status_to_str (shown alive c)) opt) cs
     \<and> extends_by keeps_files w w'"
proof (induction cs arbitrary: w)
  case (Cons c cs)
  obtain running w1 where r: "clr_oci_vm_running E (state_of c) w = (running, w1)" "prints w1 = prints w"
    "extends_by keeps_files w w1" "(if running then k_status c else OCI_STATUS_STOPPED) = shown alive c"
    using running_stored [of E alive, OF assms(1)] by blast
  let ?w = "g_print E (list_row (state_of c) (clr_oci_status_to_str (shown alive c)) opt) w1"
  have st: "s_status (state_of c) = k_status c" by (simp add: state_of_def)
  have "clr_oci_list_vm E (state_of c) (opt, w) = Some (opt, ?w)"
    using r(1,4) assms(2,3) by (cases running) (simp_all add: clr_oci_list_vm_def st Let_def)
  moreover have "extends_by keeps_files w ?w"
    using r(3) print_keeps by (rule extends_by_trans)
  ultimately show ?case using Cons.IH [of ?w] r(2) by (auto intro: extends_by_trans)
qed simp

text \<open>
  C27. "list" in table form prints a heading and one row for each container of the runtime directory;
  in every row each cell has exactly the width of its column, so that the columns of all rows
  start at the same places. The status is that of the state file when the process exists, and
  "stopped" otherwise.
\<close>

theorem list_table_columns_line_up:
  assumes "listed E d dir w cs" and "\<And>v p. sys_int E v (Kill p 0) = 0 \<longleftrightarrow> alive p"
    and "\<forall>c \<in> set cs. short c"
  shows "\<exists>opt rows w'. handler_list E None False (base (Some dir)) w = Some (True, w')
     \<and> extends_by keeps_files w w' \<and> prints w' = prints w @ list_header opt # rows
     \<and> list_all2 (\<lambda>c row. \<exists>cells. row = g_strjoinv '' '' cells @ [CHR 0x0A] \<and> map length cells = column_widths opt
          \<and> cells = list_cells (state_of c) (clr_oci_status_to_str (shown alive c)) opt) cs rows"
proof -
  let ?opt = "format_options0\<lparr>use_json := False\<rparr>"
  have "\<not> use_json ?opt" "\<not> show_all ?opt" by (simp_all add: format_options0_def)
  with widened_fits [OF assms(3), of ?opt 0] obtain opt m where
    o: "widened cs (?opt, 0) = Some (opt, m)" "\<forall>c \<in> set cs. fits c opt" "\<not> use_json opt" "\<not> show_all opt" by auto
  have "?opt = format_options0\<lparr>use_json := (''table'' = ''json''), show_all := False\<rparr>"
    by (simp add: format_options0_def)
  from list_walk [OF assms(1) o(1) this] obtain w1 where l:
    "clr_oci_list E (base (Some dir)) (Some ''table'') False w =
       do { (ret, w) \<leftarrow> list_print E (map state_of cs) opt w1; Some (ret, snd (callB E (CloseDir dir) w)) }"
    "prints w1 = prints w" "extends_by keeps_files w w1" by auto
  let ?w1 = "g_print E (list_header opt) w1"
  let ?row = "\<lambda>c. list_row (state_of c) (clr_oci_status_to_str (shown alive c)) opt"
  obtain w2 where r: "foreach (clr_oci_list_vm E) (map state_of cs) (opt, ?w1) = Some (opt, w2)"
    "prints w2 = prints ?w1 @ map ?row cs" "extends_by keeps_files ?w1 w2"
    using list_table_rows [of E alive opt cs ?w1, OF assms(2) o(3,4)] by auto
  have k: "extends_by keeps_files w w2"
    using extends_by_trans [OF l(3) extends_by_trans [OF print_keeps r(3)]] .
  have inv: "\<forall>c \<in> set cs. shown alive c \<noteq> OCI_STATUS_INVALID"
    using assms(1) by (auto simp: listed_def shown_def readable_def)
  have "list_all2 (\<lambda>c row. \<exists>cells. row = g_strjoinv '' '' cells @ [CHR 0x0A] \<and> map length cells = column_widths opt
          \<and> cells = list_cells (state_of c) (clr_oci_status_to_str (shown alive c)) opt) cs (map ?row cs)"
    using o(2,4) inv by (auto simp: list_all2_map2 list.rel_refl_strong list_row_cells cells_fit intro!: list.rel_refl_strong)
  then show ?thesis
    using l(1,2) o(3,4) r(1,2) k
    by (intro exI [of _ opt] exI [of _ "map ?row cs"])
      (auto simp: handler_list_def list_print_def callB_def keeps_files_def)
qed

text \<open>The runtime directory that holds the container \<^term>\<open>web\<close>.\<close>

definition list_env :: env where
  "list_env = (disk_env web_disk)\<lparr>sys_dir := \<lambda>w p. [''web'']\<rparr>"

lemma web_listed: "listed list_env web_disk CLR_OCI_RUNTIME_DIR_PREFIX [] [web]"
proof -
  have p: "state_path (Some CLR_OCI_RUNTIME_DIR_PREFIX) (k_id web) = state_path None (k_id web)"
    by (simp add: state_path_def run_path_def)
  have "codec list_env" "reads_back list_env web_disk q" for q
    using disk_env_ok(1) [of web_disk] disk_env_ok(2) [of web_disk q] by (simp_all add: codec_def reads_back_def list_env_def)
  then show ?thesis
    using web_facts(1,2,4)
    by (simp add: listed_def faithful_def stored_def wf_container_def p)
      (simp add: list_env_def disk_env_def env0_def web_def)
qed

lemma web_short: "short web" "k_id web = ''web''"
  by (simp_all add: short_def web_def)

lemma list_json_reports_witness:
  "\<exists>w'. handler_list list_env (Some ''json'') False (base (Some CLR_OCI_RUNTIME_DIR_PREFIX)) [] = Some (True, w')
     \<and> prints w' = [json_gen list_env False (JArr [summary (\<lambda>_. True) web]) @ [CHR 0x0A]]"
proof -
  have "sys_int list_env v (Kill p 0) = 0" for v p by (simp add: list_env_def disk_env_def env0_def)
  then show ?thesis using list_json_reports [where alive = "\<lambda>_. True", OF web_listed] by auto
qed

lemma list_table_columns_line_up_witness:
  "\<exists>opt row w'. handler_list list_env None False (base (Some CLR_OCI_RUNTIME_DIR_PREFIX)) [] = Some (True, w')
     \<and> prints w' = [list_header opt, row]"
proof -
  have "sys_int list_env v (Kill p 0) = 0" for v p by (simp add: list_env_def disk_env_def env0_def)
  then show ?thesis
    using list_table_columns_line_up [where alive = "\<lambda>_. True", OF web_listed] web_short
    by (auto simp: list_all2_Cons1)
qed

end
