(* ===== verification/Delete.thy ===== *)
theory Delete
  imports Lifecycle
begin

text \<open>
  What a "delete" does when the hypervisor is gone and the kernel refuses nothing: the
  refinement of the lifecycle says what "delete" cannot do, this says what it does.
\<close>

subsection \<open>Lemmas\<close>

text \<open>A configuration without hooks changes nothing.\<close>

lemma no_hooks_stop:
  assumes "''hooks'' \<notin> fst ` set ms"
  shows "foreach process_config_stop (clr_oci_json_parse_aux (JObj ms) b) s = Some s"
proof -
  have "foreach process_config_stop (parse_members ms) s = Some s"
    using assms
  proof (induction ms)
    case (Cons m ms)
    then show ?case
      by (cases m) (auto simp: process_config_stop_def run_spec_handler_def stop_spec_handlers_def)
  qed simp
  then show ?thesis by (simp add: process_config_stop_def run_spec_handler_def)
qed

lemma bundle_config_nonempty: "bundle_config c \<noteq> []"
proof -
  have "CLR_OCI_CONFIG_FILE \<noteq> []" "strip_slashes CLR_OCI_CONFIG_FILE \<noteq> []"
    by (simp_all add: CLR_OCI_CONFIG_FILE_def strip_slashes_def)
  then show ?thesis
    by (cases "k_bundle c = []"; cases "strip_slashes (k_bundle c) = []")
      (simp_all add: bundle_config_def g_build_path_def)
qed

lemma unmounts_all:
  assumes "\<And>v p. sys_int E v (Umount p) = 0" and "list_all (\<lambda>p. length p < PATH_MAX) ds"
  shows "\<exists>w'. handle_unmounts_loop E (map mount_of_dest ds) w = (True, w') \<and> calls w' = calls w @ map Umount ds
     \<and> extends_by keeps_files w w'"
  using assms(2)
proof (induction ds arbitrary: w)
  case (Cons p ds)
  let ?w = "(Umount p, RInt 0) # w"
  have step: "clr_oci_perform_unmount E (mount_of_dest p) w = (True, ?w)" "\<not> ignore_mount (mount_of_dest p)"
    using Cons.prems assms(1) by (simp_all add: clr_oci_perform_unmount_def callI_def mount_of_dest_def mount0_def)
  obtain w' where w': "handle_unmounts_loop E (map mount_of_dest ds) ?w = (True, w')"
    "calls w' = calls ?w @ map Umount ds" "extends_by keeps_files ?w w'"
    using Cons.IH [of ?w] Cons.prems by auto
  have "extends_by keeps_files w w'"
    using extends_by_trans [OF _ w'(3)] by (simp add: keeps_files_def)
  with step w' show ?case by auto
qed simp

text \<open>The kernel and the shell do what "delete" asks of them.\<close>

definition teardown_works :: "env \<Rightarrow> bool" where
  "teardown_works E \<longleftrightarrow> (\<forall>v p. sys_int E v (Umount p) = 0) \<and> (\<forall>v p. sys_int E v (Unlink p) = 0)
     \<and> (\<forall>v s. sys_int E v (System s) = 0)"

lemma delete_removes:
  assumes "faithful E d (state_path r (k_id c))" and "wf_container c" and "stored E d r w c"
    and "\<And>v. sys_str E v (FileGet (bundle_config c)) = Some contents" and "json_parse E contents = Some (JObj ms)"
    and "''hooks'' \<notin> fst ` set ms" and "k_pid c \<noteq> 0" and "\<And>v. sys_int E v (Kill (k_pid c) 0) \<noteq> 0"
    and "teardown_works E" and "hd (run_path r (k_id c)) = slash"
  shows "\<exists>w'. handle_command_stop E name (base r) (k_id c # rest) w = Some (True, w')
     \<and> file_view d w' (state_path r (k_id c)) = None
     \<and> calls w' = calls w @ [FileExists (state_path r (k_id c)), FileGet (state_path r (k_id c)),
           FileGet (bundle_config c), Kill (k_pid c) 0]
         @ map Umount (k_mounts c)
         @ [Unlink (state_path r (k_id c)), System (rm_rf_command (run_path r (k_id c))),
            Print (''stopped container '' @ k_id c @ [CHR 0x0A])]"
proof -
  let ?p = "state_path r (k_id c)" and ?rt = "run_path r (k_id c)"
  let ?config = "(got r c)\<lparr>oci := (oci (got r c))\<lparr>mounts := s_mounts (state_of c)\<rparr>\<rparr>"
  from delete_unfolded [OF assms(1,3,2), of name rest] obtain rep where
    del: "handle_command_stop E name (base r) (k_id c # rest) w =
     (case clr_oci_json_parse E (Some (bundle_config c)) ((FileGet ?p, rep) # (FileExists ?p, RBool True) # w) of
        (None, w) \<Rightarrow> Some (True, w)
      | (Some tree, w) \<Rightarrow> do {
          (config, w) \<leftarrow> foreach process_config_stop (gchildren tree) (got r c, w);
          (ret, w) \<leftarrow> clr_oci_stop E (config\<lparr>oci := (oci config)\<lparr>mounts := s_mounts (state_of c)\<rparr>\<rparr>)
            ((state_of c)\<lparr>s_mounts := []\<rparr>) w;
          Some (ret, if ret then g_print E (''stopped container '' @
            fmt_s (optarg_container_id config) @ [CHR 0x0A]) w else w)
        })" by blast
  let ?w3 = "(FileGet (bundle_config c), RStr (Some contents)) # (FileGet ?p, rep) # (FileExists ?p, RBool True) # w"
  let ?w4 = "(Kill (k_pid c) 0, RInt (sys_int E ?w3 (Kill (k_pid c) 0))) # ?w3"
  have running: "clr_oci_vm_running E ((state_of c)\<lparr>s_mounts := []\<rparr>) ?w3 = (False, ?w4)"
    using assms(7,8) by (simp add: clr_oci_vm_running_def state_of_def callI_def)
  have fit: "list_all (\<lambda>p. length p < PATH_MAX) (k_mounts c)" using assms(2) by (simp add: wf_container_def readable_def)
  have "\<And>v p. sys_int E v (Umount p) = 0" using assms(9) by (simp add: teardown_works_def)
  from unmounts_all [OF this fit, of ?w4] obtain w5 where
    um: "handle_unmounts_loop E (map mount_of_dest (k_mounts c)) ?w4 = (True, w5)"
      "calls w5 = calls ?w4 @ map Umount (k_mounts c)" by blast
  define w6 where "w6 = (System (rm_rf_command ?rt), RInt 0) # (Unlink ?p, RInt 0) # w5"
  have fields: "oci ?config = oci_cfg0\<lparr>mounts := map mount_of_dest (k_mounts c)\<rparr>"
    "state_file_path (cstate (got r c)) = ?p" "runtime_path (cstate (got r c)) = ?rt"
    "optarg_container_id (got r c) = Some (k_id c)"
    by (simp_all add: got_def state_of_def config0_def)
  have "clr_oci_cleanup E ?config ?w4 = Some (True, w6)"
    using um(1) assms(9,10)
    by (simp add: clr_oci_cleanup_def clr_oci_handle_unmounts_def fields clr_oci_state_file_delete_def
        clr_oci_runtime_dir_delete_def clr_oci_rm_rf_def callI_def teardown_works_def w6_def Let_def)
  then have "clr_oci_stop E ?config ((state_of c)\<lparr>s_mounts := []\<rparr>) ?w3 = Some (True, w6)"
    using running by (simp add: clr_oci_stop_def clr_run_hooks_def fields oci_cfg0_def)
  moreover have "clr_oci_json_parse E (Some (bundle_config c)) ((FileGet ?p, rep) # (FileExists ?p, RBool True) # w) =
      (Some (GNode (Some (bundle_config c)) (clr_oci_json_parse_aux (JObj ms) False)), ?w3)"
    using assms(4,5) bundle_config_nonempty by (simp add: clr_oci_json_parse_def callS_def)
  ultimately have "handle_command_stop E name (base r) (k_id c # rest) w =
      Some (True, g_print E (''stopped container '' @ k_id c @ [CHR 0x0A]) w6)"
    using no_hooks_stop [OF assms(6), of False "(got r c, ?w3)"]
    by (simp add: del fields(4) fmt_s_def del: foreach.simps clr_oci_json_parse_aux.simps)
  moreover have "file_view d w6 ?p = None" by (simp add: w6_def keeps_files_def file_view_unlink del: file_view.simps)
  ultimately show ?thesis
    using um(2) by (simp add: w6_def g_print_def callB_def keeps_files_def del: file_view.simps)
qed

text \<open>A container's whole life: on a well-behaved system every command succeeds.\<close>

lemma kept_by_session:
  assumes "same_container s c c'"
  shows "k_mounts c' = k_mounts c" "bundle_config c' = bundle_config c" "k_pid c' = k_pid c"
  using assms by (auto simp: same_container_def rewritten_def bundle_config_def)

context session_runner
begin

text \<open>One command that is bound to succeed.\<close>

lemma step_succeeds:
  assumes "able E r (k_id c)" and "faithful E d (state_path r (k_id c))" and "wf_container c" and "no_terminal E c"
    and "stored E d r w c"
    and succ: "\<And>v. stored E d r v c \<Longrightarrow> \<exists>w'. run_command E r (k_id c) cmd v = Some (True, w')"
  shows "\<exists>w' s. run E r (k_id c) cmd w = Some (True, w') \<and> lifecycle (Some (k_status c)) cmd True s
     \<and> persisted E d r w' c s"
proof -
  obtain v where v: "extends_by keeps_files w v" "run E r (k_id c) cmd w = run_command E r (k_id c) cmd v"
    using runs_command [OF assms(1)] by metis
  have "stored E d r v c" using assms(5) stored_extends [OF v(1)] by simp
  with succ running_refines [OF assms(2) _ assms(3,4)] v(2) show ?thesis by metis
qed

lemma life_succeeds:
  assumes able: "able E r (k_id c)" and F: "faithful E d (state_path r (k_id c))" and wf: "wf_container c"
    and st: "stored E d r w c" and created: "k_status c = OCI_STATUS_CREATED" and ok: "responsive E"
    and cfg: "\<And>v. sys_str E v (FileGet (bundle_config c)) = Some contents" "json_parse E contents = Some (JObj ms)"
      "''hooks'' \<notin> fst ` set ms"
    and dead: "k_pid c \<noteq> 0" "\<And>v. sys_int E v (Kill (k_pid c) 0) \<noteq> 0"
    and works: "teardown_works E" "hd (run_path r (k_id c)) = slash"
  shows "\<exists>w'. session_of (run E r (k_id c)) [CStart, CKill [], CDelete] w = Some ([True, True, True], w')
     \<and> file_view d w' (state_path r (k_id c)) = None"
proof -
  have tty: "no_terminal E c" using ok by (simp add: no_terminal_def responsive_def)
  from step_succeeds [OF able F wf tty st created_starts [OF F wf _ created ok]] obtain w1 s1 where
    r1: "run E r (k_id c) CStart w = Some (True, w1)" "lifecycle (Some (k_status c)) CStart True s1" "persisted E d r w1 c s1"
    by blast
  moreover from r1(2) have "s1 = Some OCI_STATUS_RUNNING" by (rule lifecycle_startE)
  ultimately obtain c1 where c1: "same_container OCI_STATUS_RUNNING c c1" "stored E d r w1 c1"
    by (auto simp: persisted_def)
  note id1 = same_container_facts [OF c1(1)]
  have F1: "faithful E d (state_path r (k_id c1))" and wf1: "wf_container c1" and tty1: "no_terminal E c1"
    and able1: "able E r (k_id c1)"
    using able F id1(1) id1(3) [OF wf] no_terminal_same [OF c1(1) tty] by simp_all
  from step_succeeds [OF able1 F1 wf1 tty1 c1(2) responsive_kills [OF F1 wf1 _ ok]] obtain w2 s2 where
    r2: "run E r (k_id c1) (CKill []) w1 = Some (True, w2)" "lifecycle (Some (k_status c1)) (CKill []) True s2"
      "persisted E d r w2 c1 s2" by blast
  moreover from prompt_stays [OF r2(2)] obtain t where "s2 = Some t" by auto
  ultimately obtain c2 where c2: "same_container t c1 c2" "stored E d r w2 c2" by (auto simp: persisted_def)
  note id2 = same_container_facts [OF c2(1)] and kept = kept_by_session [OF same_container_trans [OF c1(1) c2(1)]]
  have id: "k_id c2 = k_id c" using id1(1) id2(1) by simp
  obtain v where v: "extends_by keeps_files w2 v" "run E r (k_id c) CDelete w2 = run_command E r (k_id c) CDelete v"
    using runs_command [OF able] by metis
  have "stored E d r v c2" using c2(2) stored_extends [OF v(1)] by simp
  then have "\<exists>w3. handle_command_stop E ''delete'' (base r) [k_id c2] v = Some (True, w3)
      \<and> file_view d w3 (state_path r (k_id c2)) = None"
    using delete_removes [OF _ id2(3) [OF wf1], of E d r v contents ms "''delete''" "[]"] F cfg dead works kept id
    by auto
  then show ?thesis using r1(1) r2(1) id1(1) v(2) id by (auto simp: run_command_def)
qed

end

subsection \<open>Properties\<close>


text \<open>The container \<^term>\<open>web\<close>, its process gone, with an empty configuration.\<close>

definition gone_env :: env where
  "gone_env = (disk_env web_disk)\<lparr>
     sys_int := \<lambda>w c. (case c of Kill p sig \<Rightarrow> - 1 | _ \<Rightarrow> 0),
     sys_str := \<lambda>w c. (case c of
         FileGet p \<Rightarrow> if p = bundle_config web then Some (replicate (to_nat (JObj [])) (CHR ''j'')) else file_view web_disk w p
       | _ \<Rightarrow> None)\<rparr>"

lemma web_paths:
  "run_path None (k_id web) = ''/run/opencontainer/containers/web''"
  "state_path None (k_id web) = ''/run/opencontainer/containers/web/state.json''"
  "bundle_config web = ''/bundle/config.json''"
  by (simp_all add: web_def state_path_def run_path_def buf_path_def CLR_OCI_RUNTIME_DIR_PREFIX_def
      CLR_OCI_STATE_FILE_def PATH_MAX_def bundle_config_def CLR_OCI_CONFIG_FILE_def g_build_path_def strip_slashes_def)

lemma gone_facts:
  "faithful gone_env web_disk (state_path None (k_id web))" "stored gone_env web_disk None [] web"
  "sys_str gone_env v (FileGet (bundle_config web)) = Some (replicate (to_nat (JObj [])) (CHR ''j''))"
  "json_parse gone_env (replicate (to_nat (JObj [])) (CHR ''j'')) = Some (JObj [])"
  "hd (run_path None (k_id web)) = slash"
proof -
  have "codec gone_env" using disk_env_ok(1) [of web_disk] by (simp add: codec_def gone_env_def)
  then show "faithful gone_env web_disk (state_path None (k_id web))"
    by (simp add: faithful_def reads_back_def gone_env_def web_paths disk_env_def)
  show "stored gone_env web_disk None [] web" using web_facts(4) by (simp add: stored_def gone_env_def)
qed (simp_all add: gone_env_def disk_env_def web_paths)


end
