(* ===== verification/Events.thy ===== *)
theory Events
  imports Lifecycle
begin

text \<open>
  The command "events": \<^verbatim>\<open>src/events.c\<close> and \<^verbatim>\<open>src/commands/events.c\<close>. The
  statistics are empty objects; with an interval they are printed at every tick of a timer until
  the process socket of the container is deleted.
\<close>

definition get_container_stats :: "env \<Rightarrow> clr_oci_config \<Rightarrow> oci_state \<Rightarrow> cstring" where
  "get_container_stats E config state =
     (if status (cstate config) \<noteq> OCI_STATUS_RUNNING then None
      else
        let resources = JObj [(''cpu_stats'', JObj []), (''memory_stats'', JObj [])];
            data = JObj [(''CgroupStats'', resources)];
            root = set_member ''type'' (JString ''stats'') [];
            root = set_member ''id'' (jstring (optarg_container_id config)) root;
            root = set_member ''id'' (jstring (optarg_container_id config)) root;
            root = set_member ''data'' data root
        in Some (json_gen E False (JObj root)))"

text \<open>The callback of the timer; false removes the timer.\<close>

definition show_interval_stats :: "env \<Rightarrow> clr_oci_config \<Rightarrow> oci_state \<Rightarrow> world \<Rightarrow> bool \<times> world" where
  "show_interval_stats E config state w =
     (case get_container_stats E config state of
        None \<Rightarrow> (False, w)
      | Some stats_str \<Rightarrow> (True, g_print E stats_str w))"

text \<open>The callback of the directory watch: whether it quits the loop.\<close>

definition watcher_destroyed_vm :: "loop_event \<Rightarrow> bool" where
  "watcher_destroyed_vm event =
     (case event of
        DirDeleted path \<Rightarrow> CLR_OCI_PROCESS_SOCKET = g_path_get_basename path
      | _ \<Rightarrow> False)"

fun stats_loop ::
  "env \<Rightarrow> clr_oci_config \<Rightarrow> oci_state \<Rightarrow> loop_event list \<Rightarrow> bool \<Rightarrow> world \<Rightarrow> world option" where
  "stats_loop E config state [] timer w = None"
| "stats_loop E config state (ev # evs) timer w =
     (if watcher_destroyed_vm ev then Some w
      else if ev = TimerTick \<and> timer then
        (case show_interval_stats E config state w of
           (timer, w) \<Rightarrow> stats_loop E config state evs timer w)
      else stats_loop E config state evs timer w)"

definition show_container_stats ::
  "env \<Rightarrow> clr_oci_config \<Rightarrow> oci_state \<Rightarrow> int \<Rightarrow> world \<Rightarrow> (bool \<times> world) option" where
  "show_container_stats E config state interval w =
     (if interval \<noteq> 0 then
        (case callB E LoopNew w of
           (False, w) \<Rightarrow> Some (False, w)
         | (True, w) \<Rightarrow>
             (case callB E (MonitorDir (runtime_path (cstate config))) w of
                (False, w) \<Rightarrow> Some (False, w)
              | (True, w) \<Rightarrow> do {
                  w \<leftarrow> stats_loop E config state (sys_events E w) True w;
                  Some (True, w)
                }))
      else
        (case get_container_stats E config state of
           None \<Rightarrow> Some (False, w)
         | Some stats_str \<Rightarrow> Some (True, g_print E stats_str w)))"

definition DEFAULT_INTERVAL :: int where "DEFAULT_INTERVAL = 5"

text \<open>\<open>run_once\<close> and \<open>interval\<close> are the options of the command.\<close>

definition handler_events ::
  "env \<Rightarrow> string \<Rightarrow> bool \<Rightarrow> int \<Rightarrow> clr_oci_config \<Rightarrow> string list \<Rightarrow> world \<Rightarrow> (bool \<times> world) option" where
  "handler_events E name run_once interval config argv w =
     (case handle_default_usage E argv name w of
        (Some ret, w) \<Rightarrow> Some (ret, w)
      | (None, w) \<Rightarrow>
          if interval \<le> 0 then Some (False, w)
          else do {
            (ret, config_file, config, ptr, w) \<leftarrow>
              clr_oci_get_config_and_state E (config\<lparr>optarg_container_id := Some (hd argv)\<rparr>) w;
            case (ret, ptr) of
              (True, Live state) \<Rightarrow>
                show_container_stats E config state (if run_once then 0 else interval) w
            | _ \<Rightarrow> do { _ \<leftarrow> clr_oci_state_free ptr; Some (False, w) }
          })"

subsection \<open>Lemmas\<close>

text \<open>The statistics of a running container.\<close>

definition stats_text :: "env \<Rightarrow> string \<Rightarrow> string" where
  "stats_text E cid = json_gen E False (JObj [(''type'', JString ''stats''), (''id'', JString cid),
     (''data'', JObj [(''CgroupStats'', JObj [(''cpu_stats'', JObj []), (''memory_stats'', JObj [])])])])"

lemma got_stats: "get_container_stats E (got r c) state =
    (if k_status c = OCI_STATUS_RUNNING then Some (stats_text E (k_id c)) else None)"
  by (simp add: get_container_stats_def got_def stats_text_def jstring_def Let_def)

text \<open>What is to end the loop: the process socket is deleted.\<close>

definition socket_deleted :: "loop_event \<Rightarrow> bool" where
  "socket_deleted ev \<longleftrightarrow> (\<exists>path. ev = DirDeleted path \<and> g_path_get_basename path = CLR_OCI_PROCESS_SOCKET)"

lemma watcher_destroyed [simp]: "watcher_destroyed_vm ev = socket_deleted ev"
  by (auto simp: watcher_destroyed_vm_def socket_deleted_def split: loop_event.split)

lemma stats_loop_returns:
  "stats_loop E config state evs timer w = None \<longleftrightarrow> (\<forall>ev \<in> set evs. \<not> socket_deleted ev)"
proof (induction evs arbitrary: timer w)
  case (Cons ev evs)
  then show ?case by (cases "show_interval_stats E config state w") auto
qed simp

text \<open>The ticks before the socket is deleted.\<close>

definition ticks :: "loop_event list \<Rightarrow> nat" where
  "ticks evs = length (filter (\<lambda>ev. ev = TimerTick) (takeWhile (\<lambda>ev. \<not> socket_deleted ev) evs))"

lemma tick_not_deleted [simp]: "\<not> socket_deleted TimerTick"
  by (simp add: socket_deleted_def)

lemma stats_loop_prints:
  assumes "get_container_stats E config state = Some s"
  shows "stats_loop E config state evs True w = Some w' \<Longrightarrow>
    prints w' = prints w @ replicate (ticks evs) s \<and> extends_by keeps_files w w'"
proof (induction evs arbitrary: w)
  case (Cons ev evs)
  show ?case
  proof (cases "socket_deleted ev")
    case True
    with Cons.prems show ?thesis by (simp add: ticks_def)
  next
    case False
    show ?thesis
    proof (cases "ev = TimerTick")
      case True
      with Cons.prems False assms have "stats_loop E config state evs True (g_print E s w) = Some w'"
        by (simp add: show_interval_stats_def)
      from Cons.IH [OF this] True show ?thesis
        by (auto simp: ticks_def intro: extends_by_trans [OF print_keeps])
    next
      case f: False
      with Cons.prems False have "stats_loop E config state evs True w = Some w'" by simp
      from Cons.IH [OF this] f False show ?thesis by (simp add: ticks_def)
    qed
  qed
qed simp

lemma stats_loop_silent:
  assumes "get_container_stats E config state = None"
  shows "stats_loop E config state evs timer w = Some w' \<Longrightarrow> w' = w"
proof (induction evs arbitrary: timer w)
  case (Cons ev evs)
  then show ?case using assms by (auto simp: show_interval_stats_def split: if_splits)
qed simp

text \<open>
  C28. "events" with an interval goes on until the process socket of the container is deleted, and
  for ever when it never is; then it reports success. A running container had its statistics
  printed once for each tick of the timer before that, any other container nothing at all.
\<close>

theorem events_until_destroyed:
  assumes "faithful E d (state_path r (k_id c))" and "stored E d r w c" and "wf_container c"
    and "0 < interval" and "\<And>v. sys_bool E v LoopNew" and "\<And>v p. sys_bool E v (MonitorDir p)"
    and "\<And>v. sys_events E v = evs"
  shows "if \<exists>ev \<in> set evs. socket_deleted ev
     then \<exists>w'. handler_events E name False interval (base r) [k_id c] w = Some (True, w')
       \<and> prints w' = prints w @
           (if k_status c = OCI_STATUS_RUNNING then replicate (ticks evs) (stats_text E (k_id c)) else [])
     else handler_events E name False interval (base r) [k_id c] w = None"
proof -
  obtain cf rep where get: "clr_oci_get_config_and_state E ((base r)\<lparr>optarg_container_id := Some (k_id c)\<rparr>) w =
     Some (True, Some cf, got r c, Live (state_of c), (FileGet (state_path r (k_id c)), rep) # w)"
    using get_stored [OF assms(1,2,3)] by blast
  let ?w = "(MonitorDir (runtime_path (cstate (got r c))), RBool True) # (LoopNew, RBool True)
    # (FileGet (state_path r (k_id c)), rep) # w"
  have run: "handler_events E name False interval (base r) [k_id c] w =
     do { w \<leftarrow> stats_loop E (got r c) (state_of c) evs True ?w; Some (True, w) }"
    using get no_help [OF assms(3)] assms(4-7)
    by (simp add: handler_events_def show_container_stats_def callB_def)
  show ?thesis
  proof (cases "stats_loop E (got r c) (state_of c) evs True ?w")
    case None
    with run show ?thesis by (simp add: stats_loop_returns)
  next
    case (Some w')
    then have "\<exists>ev \<in> set evs. socket_deleted ev"
      using stats_loop_returns [of E "got r c" "state_of c" evs True ?w] by auto
    moreover have "prints w' = prints w @
        (if k_status c = OCI_STATUS_RUNNING then replicate (ticks evs) (stats_text E (k_id c)) else [])"
      using stats_loop_prints [OF _ Some] stats_loop_silent [OF _ Some] got_stats [of E r c "state_of c"] by auto
    ultimately show ?thesis using run Some by auto
  qed
qed

text \<open>The container \<^term>\<open>web\<close>, running, its socket deleted after two ticks.\<close>

definition watched :: container where
  "watched = web\<lparr>k_status := OCI_STATUS_RUNNING\<rparr>"

definition watched_disk :: disk where
  "watched_disk p = (if p = state_path None ''web'' then Some (json_gen (disk_env (\<lambda>_. None)) True (doc_of watched)) else None)"

definition events_env :: env where
  "events_env = (disk_env watched_disk)\<lparr>sys_events := \<lambda>w. [TimerTick, DirOther, TimerTick, DirDeleted CLR_OCI_PROCESS_SOCKET]\<rparr>"

lemma events_until_destroyed_witness:
  "\<exists>w'. handler_events events_env ''events'' False DEFAULT_INTERVAL (base None) [k_id watched] [] = Some (True, w')
     \<and> prints w' = [stats_text events_env (k_id watched), stats_text events_env (k_id watched)]"
proof -
  have f: "faithful events_env watched_disk (state_path None (k_id watched))" "wf_container watched"
    "stored events_env watched_disk None [] watched"
    using web_facts(2) disk_env_ok(1) [of watched_disk] disk_env_ok(2) [of watched_disk]
    by (simp_all add: faithful_def codec_def reads_back_def events_env_def wf_container_def readable_def stored_def
        watched_def watched_disk_def) (simp_all add: disk_env_def web_def)
  have b: "0 < DEFAULT_INTERVAL" "sys_bool events_env v LoopNew" "sys_bool events_env v (MonitorDir p)"
    "sys_events events_env v = [TimerTick, DirOther, TimerTick, DirDeleted CLR_OCI_PROCESS_SOCKET]"
    "k_status watched = OCI_STATUS_RUNNING" for v p
    by (simp_all add: DEFAULT_INTERVAL_def events_env_def disk_env_def env0_def watched_def)
  have "g_path_get_basename CLR_OCI_PROCESS_SOCKET = CLR_OCI_PROCESS_SOCKET" by code_simp
  then have e: "socket_deleted (DirDeleted CLR_OCI_PROCESS_SOCKET)" "\<not> socket_deleted DirOther"
    by (simp_all add: socket_deleted_def)
  show ?thesis
    using events_until_destroyed [OF f(1,3,2) b(1) b(2) b(3) b(4), of "''events''"] b(5) e
    by (auto simp: ticks_def numeral_2_eq_2)
qed

end
