(* ===== verification/Attach.thy ===== *)
theory Attach
  imports Lifecycle
begin

text \<open>
  The command "attach": \<^verbatim>\<open>clr_oci_attach\<close> of \<^verbatim>\<open>src/oci.c\<close> with its three
  watchers, and \<^verbatim>\<open>src/commands/attach.c\<close>. Lines of the standard input are queued and
  written to the socket of the console when it can take them; what the socket delivers is
  printed. The loop is left when a watcher of the input or of the socket finds the VM dead.
\<close>

subsection \<open>Writing to the console\<close>

text \<open>
  The write is repeated, always with the whole buffer, while the channel takes it only in part;
  a negative count stands for a status that is not normal.
\<close>

partial_function (option) send_loop :: "env \<Rightarrow> string \<Rightarrow> world \<Rightarrow> world option" where
  "send_loop E buffer w =
     (case callI E (ChannelSend buffer) w of (bytes_written, w) \<Rightarrow>
        if 0 \<le> bytes_written \<and> bytes_written \<noteq> int (length buffer) then send_loop E buffer w
        else Some w)"

definition watcher_socket_stdin :: "env \<Rightarrow> bool \<Rightarrow> string \<Rightarrow> world \<Rightarrow> world option" where
  "watcher_socket_stdin E hup buffer w = (if hup then Some w else send_loop E buffer w)"

subsection \<open>Reading from the console\<close>

text \<open>What a watcher asks of the loop.\<close>

datatype watch = Keep | Remove | Quit

definition watch_end :: "env \<Rightarrow> oci_state \<Rightarrow> watch \<Rightarrow> world \<Rightarrow> watch \<times> world" where
  "watch_end E state ret w =
     (case clr_oci_vm_running E state w of
        (running, w) \<Rightarrow> (if running then ret else Quit, w))"

text \<open>
  The buffer holds \<^const>\<open>LINE_MAX\<close> bytes, and a NUL is stored after what was read only when
  it fits. A full buffer without a NUL is printed past its end, which is undefined.
\<close>

definition printed_buffer :: "string \<Rightarrow> string option" where
  "printed_buffer chunk =
     (if length chunk < LINE_MAX \<or> NUL \<in> set chunk then Some (cstr_at chunk 0) else None)"

partial_function (option) recv_loop :: "env \<Rightarrow> world \<Rightarrow> world option" where
  "recv_loop E w =
     (case callS E (ChannelRecv LINE_MAX) w of
        (None, w) \<Rightarrow> Some w
      | (Some chunk, w) \<Rightarrow> do {
          s \<leftarrow> printed_buffer chunk;
          recv_loop E (g_print E s w)
        })"

definition watcher_socket_stdout :: "env \<Rightarrow> oci_state \<Rightarrow> bool \<Rightarrow> world \<Rightarrow> (watch \<times> world) option" where
  "watcher_socket_stdout E state hup w =
     (if hup then Some (watch_end E state Remove w)
      else do {
        w \<leftarrow> recv_loop E w;
        Some (watch_end E state Keep w)
      })"

definition watcher_stdin :: "env \<Rightarrow> oci_state \<Rightarrow> bool \<Rightarrow> string list \<Rightarrow> world \<Rightarrow> watch \<times> string list \<times> world" where
  "watcher_stdin E state hup queue w =
     (if hup then (case watch_end E state Remove w of (a, w) \<Rightarrow> (a, queue, w))
      else
        (case callS E ReadLine w of
           (None, w) \<Rightarrow> (case watch_end E state Keep w of (a, w) \<Rightarrow> (a, queue, w))
         | (Some line, w) \<Rightarrow> (case watch_end E state Keep w of (a, w) \<Rightarrow> (a, queue @ [line], w))))"

subsection \<open>The loop\<close>

text \<open>
  Which of the two watchers are still there, and the buffers that wait, each with a watcher of
  its own, to be written.
\<close>

record socket_watcher_data =
  stdin_on :: bool
  socket_on :: bool
  out_queue :: "string list"

fun attach_loop ::
  "env \<Rightarrow> oci_state \<Rightarrow> loop_event list \<Rightarrow> socket_watcher_data \<Rightarrow> world \<Rightarrow> world option" where
  "attach_loop E state [] data w = None"
| "attach_loop E state (ev # evs) data w =
     (case ev of
        StdinEvent hup \<Rightarrow>
          if stdin_on data then
            (case watcher_stdin E state hup (out_queue data) w of
               (Quit, queue, w) \<Rightarrow> Some w
             | (a, queue, w) \<Rightarrow>
                 attach_loop E state evs (data\<lparr>stdin_on := (a = Keep), out_queue := queue\<rparr>) w)
          else attach_loop E state evs data w
      | SocketEvent hup \<Rightarrow>
          if socket_on data then do {
            (a, w) \<leftarrow> watcher_socket_stdout E state hup w;
            if a = Quit then Some w
            else attach_loop E state evs (data\<lparr>socket_on := (a = Keep)\<rparr>) w
          }
          else attach_loop E state evs data w
      | SocketOutEvent hup \<Rightarrow>
          (case out_queue data of
             [] \<Rightarrow> attach_loop E state evs data w
           | buffer # queue \<Rightarrow> do {
               w \<leftarrow> watcher_socket_stdin E hup buffer w;
               attach_loop E state evs (data\<lparr>out_queue := queue\<rparr>) w
             })
      | _ \<Rightarrow> attach_loop E state evs data w)"

definition attached :: socket_watcher_data where
  "attached = \<lparr>stdin_on = True, socket_on = True, out_queue = []\<rparr>"

definition clr_oci_attach :: "env \<Rightarrow> clr_oci_config \<Rightarrow> oci_state \<Rightarrow> world \<Rightarrow> (bool \<times> world) option" where
  "clr_oci_attach E config state w =
     (case callB E LoopNew w of
        (False, w) \<Rightarrow> Some (False, w)
      | (True, w) \<Rightarrow>
          (case callB E SockNew w of
             (False, w) \<Rightarrow> Some (False, w)
           | (True, w) \<Rightarrow> do {
               path \<leftarrow> s_console state;
               case callB E (SockConnect path) w of
                 (False, w) \<Rightarrow> Some (False, w)
               | (True, w) \<Rightarrow>
                   (case callI E SockFd w of (socket_fd, w) \<Rightarrow>
                      (case callB E (ChannelNew socket_fd) w of
                         (False, w) \<Rightarrow> Some (False, w)
                       | (True, w) \<Rightarrow>
                           (case callB E (ChannelNew 0) w of
                              (False, w) \<Rightarrow> Some (False, snd (callB E ChannelShutdown w))
                            | (True, w) \<Rightarrow> do {
                                w \<leftarrow> attach_loop E state (sys_events E w) attached w;
                                Some (True, snd (callB E ChannelShutdown w))
                              })))
             }))"

definition handler_attach ::
  "env \<Rightarrow> string \<Rightarrow> clr_oci_config \<Rightarrow> string list \<Rightarrow> world \<Rightarrow> (bool \<times> world) option" where
  "handler_attach E name config argv w =
     (case handle_default_usage E argv name w of
        (Some ret, w) \<Rightarrow> Some (ret, w)
      | (None, w) \<Rightarrow> do {
          (ret, config_file, config, ptr, w) \<leftarrow>
            clr_oci_get_config_and_state E (config\<lparr>optarg_container_id := Some (hd argv)\<rparr>) w;
          case (ret, ptr) of
            (True, Live state) \<Rightarrow> clr_oci_attach E config state w
          | _ \<Rightarrow> do { _ \<leftarrow> clr_oci_state_free ptr; Some (False, w) }
        })"

subsection \<open>Lemmas\<close>

text \<open>The VM was found dead by the last call.\<close>

definition found_dead :: "oci_state \<Rightarrow> world \<Rightarrow> bool" where
  "found_dead state w \<longleftrightarrow>
     s_pid state = 0 \<or> (\<exists>r v. r \<noteq> 0 \<and> w = (Kill (s_pid state) 0, RInt r) # v)"

lemma watch_end_quit: "watch_end E state ret w = (Quit, w') \<Longrightarrow> ret \<noteq> Quit \<Longrightarrow> found_dead state w'"
  by (auto simp: watch_end_def clr_oci_vm_running_def callI_def found_dead_def split: if_splits)

lemma watcher_stdin_quit: "watcher_stdin E state hup queue w = (Quit, queue', w') \<Longrightarrow> found_dead state w'"
  by (auto simp: watcher_stdin_def dest: watch_end_quit split: if_splits prod.splits option.splits)

lemma watcher_socket_quit: "watcher_socket_stdout E state hup w = Some (Quit, w') \<Longrightarrow> found_dead state w'"
  by (auto simp: watcher_socket_stdout_def bind_eq_Some_conv dest: watch_end_quit split: if_splits)

lemma attach_loop_dead: "attach_loop E state evs data w = Some w' \<Longrightarrow> found_dead state w'"
proof (induction evs arbitrary: data w)
  case (Cons ev evs)
  then show ?case
    by (auto simp: bind_eq_Some_conv dest: watcher_stdin_quit watcher_socket_quit
        split: loop_event.splits if_splits prod.splits watch.splits list.splits)
qed simp

lemma attach_loop_silent:
  "\<not> stdin_on data \<Longrightarrow> \<not> socket_on data \<Longrightarrow> attach_loop E state evs data w = None"
proof (induction evs arbitrary: data w)
  case (Cons ev evs)
  then show ?case by (auto split: loop_event.split list.split bind_split)
qed simp

text \<open>The bytes that the channel took, oldest first.\<close>

fun channel_bytes :: "world \<Rightarrow> string" where
  "channel_bytes [] = []"
| "channel_bytes (x # w) =
     channel_bytes w @ (case x of (ChannelSend s, RInt n) \<Rightarrow> if 0 \<le> n then take (nat n) s else [] | _ \<Rightarrow> [])"

text \<open>A history in which the channel took these many bytes of a line, one attempt after another.\<close>

fun attempts :: "string \<Rightarrow> nat list \<Rightarrow> world \<Rightarrow> world" where
  "attempts line [] w = w"
| "attempts line (k # ks) w = attempts line ks ((ChannelSend line, RInt (int k)) # w)"

lemma attempts_bytes: "channel_bytes (attempts line ks w) = channel_bytes w @ concat (map (\<lambda>k. take k line) ks)"
  by (induction ks arbitrary: w) simp_all

lemma send_loop_attempts:
  assumes "\<And>i. i < length ks \<Longrightarrow>
      sys_int E (attempts line (take i ks) w) (ChannelSend line) = int (ks ! i) \<and> ks ! i < length line"
    and "sys_int E (attempts line ks w) (ChannelSend line) = int (length line)"
  shows "send_loop E line w = Some ((ChannelSend line, RInt (int (length line))) # attempts line ks w)"
  using assms
proof (induction ks arbitrary: w)
  case Nil
  then show ?case by (simp add: send_loop.simps [of E line w] callI_def)
next
  case (Cons k ks)
  let ?w = "(ChannelSend line, RInt (int k)) # w"
  have k: "sys_int E w (ChannelSend line) = int k" "k < length line" using Cons.prems(1) [of 0] by simp_all
  have "send_loop E line ?w = Some ((ChannelSend line, RInt (int (length line))) # attempts line ks ?w)"
    using Cons.prems(1) [of "Suc i" for i] Cons.prems(2) by (intro Cons.IH) auto
  with k show ?case by (simp add: send_loop.simps [of E line w] callI_def)
qed

subsection \<open>Properties\<close>



text \<open>
  Short writes repeat input: each time the channel takes only the first bytes of a line the whole
  line is sent again, so the console receives every one of these beginnings before the line.
\<close>

theorem short_write_repeats_input:
  assumes "\<And>i. i < length ks \<Longrightarrow>
      sys_int E (attempts line (take i ks) w) (ChannelSend line) = int (ks ! i) \<and> ks ! i < length line"
    and "sys_int E (attempts line ks w) (ChannelSend line) = int (length line)"
  shows "\<exists>w'. watcher_socket_stdin E False line w = Some w'
     \<and> channel_bytes w' = channel_bytes w @ concat (map (\<lambda>k. take k line) ks) @ line"
  using send_loop_attempts [OF assms] by (simp add: watcher_socket_stdin_def attempts_bytes)

lemma short_write_repeats_input_witness:
  "\<exists>w'. watcher_socket_stdin (env0\<lparr>sys_int := \<lambda>w c. if length w < 2 then 2 else 4\<rparr>) False ''exit'' [] = Some w'
     \<and> channel_bytes w' = ''exexexit''"
proof -
  let ?E = "env0\<lparr>sys_int := \<lambda>w c. if length w < 2 then 2 else 4\<rparr>"
  have "sys_int ?E (attempts ''exit'' (take i [2, 2]) []) (ChannelSend ''exit'') = int ([2, 2] ! i)
      \<and> [2, 2] ! i < length ''exit''" if "i < length [2, 2::nat]" for i
    using that by (auto simp: less_Suc_eq)
  moreover have "sys_int ?E (attempts ''exit'' [2, 2] []) (ChannelSend ''exit'') = int (length ''exit'')"
    by simp
  ultimately have "\<exists>w'. watcher_socket_stdin ?E False ''exit'' [] = Some w'
      \<and> channel_bytes w' = channel_bytes [] @ concat (map (\<lambda>k. take k ''exit'') [2, 2]) @ ''exit''"
    by (rule short_write_repeats_input)
  then show ?thesis by simp
qed



end
