(* ===== verification/Logging.thy ===== *)
theory Logging
  imports Command
begin

text \<open>
  \<^verbatim>\<open>src/logging.c\<close>: the handler that GLib calls for every log message, the two files it
  appends to, and the fallback to the system log. The rest of the model leaves log messages out;
  here the handler is modelled by itself.
\<close>

definition G_LOG_LEVEL_ERROR :: nat where "G_LOG_LEVEL_ERROR = 4"
definition G_LOG_LEVEL_CRITICAL :: nat where "G_LOG_LEVEL_CRITICAL = 8"
definition G_LOG_LEVEL_WARNING :: nat where "G_LOG_LEVEL_WARNING = 16"
definition G_LOG_LEVEL_MESSAGE :: nat where "G_LOG_LEVEL_MESSAGE = 32"
definition G_LOG_LEVEL_INFO :: nat where "G_LOG_LEVEL_INFO = 64"
definition G_LOG_LEVEL_DEBUG :: nat where "G_LOG_LEVEL_DEBUG = 128"

lemmas log_levels = G_LOG_LEVEL_ERROR_def G_LOG_LEVEL_CRITICAL_def G_LOG_LEVEL_WARNING_def
  G_LOG_LEVEL_MESSAGE_def G_LOG_LEVEL_INFO_def G_LOG_LEVEL_DEBUG_def

definition CLR_OCI_LOG_BUFSIZE :: nat where "CLR_OCI_LOG_BUFSIZE = 1024"
definition CLR_OCI_LOGFILE_MODE :: nat where "CLR_OCI_LOGFILE_MODE = 416"

record clr_log_options =
  filename :: cstring
  global_logfile :: cstring
  log_use_json :: bool

subsection \<open>The fallback\<close>

text \<open>
  \<^verbatim>\<open>g_vsnprintf\<close> into a buffer of a given size: at most one byte less is written, then a
  NUL; what was in the buffer behind it stays.
\<close>

definition snprintf_into :: "string \<Rightarrow> nat \<Rightarrow> string \<Rightarrow> string" where
  "snprintf_into buffer n text =
     take (n - 1) text @ [NUL] @ drop (length (take (n - 1) text) + 1) buffer"

text \<open>
  \<open>stack\<close> is what the buffer holds before, \<open>text\<close> the formatted message,
  \<^term>\<open>None\<close> when the formatting fails. The code asks its last byte whether the message
  was too long.
\<close>

definition clr_oci_error ::
  "env \<Rightarrow> string \<Rightarrow> string \<Rightarrow> int \<Rightarrow> string \<Rightarrow> string \<Rightarrow> cstring \<Rightarrow> world \<Rightarrow> world" where
  "clr_oci_error E stack file line_number func fmt text w =
     (let buffer = stack[CLR_OCI_LOG_BUFSIZE - 1 := NUL];
          buffer = (case text of None \<Rightarrow> buffer | Some t \<Rightarrow> snprintf_into buffer CLR_OCI_LOG_BUFSIZE t);
          place = file @ '': '' @ dec_of_int line_number @ '': '' @ func @ '': '';
          w = snd (callB E (Syslog
                (if text = None then
                   ''ERROR: '' @ place @ ''failed to prepare log buffer (fmt='' @ [CHR 0x22] @ fmt @ [CHR 0x22] @ '')'' @ [CHR 0x0A]
                 else if buffer ! (CLR_OCI_LOG_BUFSIZE - 1) \<noteq> NUL then
                   ''BUG: '' @ place @ ''buffer is too small ('' @ dec_of_int (int CLR_OCI_LOG_BUFSIZE) @ '') (fmt='' @
                   [CHR 0x22] @ fmt @ [CHR 0x22] @ '')'' @ [CHR 0x0A]
                 else
                   file @ '':'' @ dec_of_int line_number @ '':'' @ func @ '':'' @ cstr_at buffer 0)) w)
      in snd (callB E CloseLog w))"

text \<open>
  The macro \<^verbatim>\<open>CLR_OCI_ERROR\<close> at a line of a function of the file, with the error's text
  behind the format; the buffer holds what \<^verbatim>\<open>sys_str\<close> leaves on the stack.
\<close>

definition CLR_OCI_ERROR :: "env \<Rightarrow> int \<Rightarrow> string \<Rightarrow> string \<Rightarrow> string \<Rightarrow> world \<Rightarrow> world" where
  "CLR_OCI_ERROR E line func fmt text w =
     clr_oci_error E (replicate CLR_OCI_LOG_BUFSIZE NUL) ''src/logging.c'' line func fmt (Some text) w"

subsection \<open>Formatting\<close>

definition clr_oci_log_to_json :: "env \<Rightarrow> string \<Rightarrow> string \<Rightarrow> string \<Rightarrow> string" where
  "clr_oci_log_to_json E timestamp level message =
     (let obj = set_member ''level'' (JString level) [];
          obj = set_member ''mesg'' (JString message) obj;
          obj = set_member ''time'' (JString timestamp) obj
      in json_gen E False (JObj obj))"

definition clr_oci_msg_fmt ::
  "env \<Rightarrow> cstring \<Rightarrow> string \<Rightarrow> string \<Rightarrow> string \<Rightarrow> bool \<Rightarrow> world \<Rightarrow> string \<times> world" where
  "clr_oci_msg_fmt E log_domain log_level message timestamp json w =
     (if json then (clr_oci_log_to_json E timestamp log_level message @ [CHR 0x0A], w)
      else
        (case callI E Getpid w of
           (pid, w) \<Rightarrow> (timestamp @ '':'' @ dec_of_int (to_uint32 pid) @ '':'' @
              (case log_domain of Some d \<Rightarrow> d | None \<Rightarrow> []) @ '':'' @ log_level @ '':'' @ message @ [CHR 0x0A], w)))"

subsection \<open>Writing\<close>

text \<open>
  The descriptor is closed at the end of every path on which it was opened, also after
  \<^verbatim>\<open>g_io_channel_shutdown\<close> has closed it.
\<close>

definition clr_oci_log_msg_write :: "env \<Rightarrow> string \<Rightarrow> string \<Rightarrow> world \<Rightarrow> bool \<times> world" where
  "clr_oci_log_msg_write E file message w =
     (let func = ''clr_oci_log_msg_write'';
          failed = (\<lambda>line fmt w. case callS E ErrorText w of
             (err, w) \<Rightarrow> CLR_OCI_ERROR E line func (fmt @ ''%s'') (fmt @ fmt_s err) w);
          close_fd = (\<lambda>fd w. snd (callI E (Close fd) w)) in
      case callI E (OpenAppend file CLR_OCI_LOGFILE_MODE) w of
        (fd, w) \<Rightarrow>
          if fd < 0 then
            (False, (case callS E ErrorText w of
               (err, w) \<Rightarrow> CLR_OCI_ERROR E 234 func ''failed to open logfile %s for writing: %s''
                 (''failed to open logfile '' @ file @ '' for writing: '' @ fmt_s err) w))
          else
            (case callB E (ChannelNew fd) w of
               (False, w) \<Rightarrow>
                 (False, close_fd fd (CLR_OCI_ERROR E 242 func ''failed to create I/O channel''
                                        ''failed to create I/O channel'' w))
             | (True, w) \<Rightarrow>
                 (case callB E (ChannelWrite message) w of
                    (False, w) \<Rightarrow> (False, close_fd fd (failed 254 ''failed to write to I/O channel: '' w))
                  | (True, w) \<Rightarrow>
                      (case callB E ChannelShutdown w of
                         (False, w) \<Rightarrow> (False, close_fd fd (failed 264 ''failed to close I/O channel: '' w))
                       | (True, w) \<Rightarrow> (True, close_fd fd w)))))"

subsection \<open>The handler\<close>

definition log_level_name :: "nat \<Rightarrow> string" where
  "log_level_name log_level =
     (if log_level = G_LOG_LEVEL_ERROR then ''error''
      else if log_level = G_LOG_LEVEL_CRITICAL then ''critical''
      else if log_level = G_LOG_LEVEL_WARNING then ''warning''
      else if log_level = G_LOG_LEVEL_MESSAGE then ''message''
      else if log_level = G_LOG_LEVEL_INFO then ''info''
      else if log_level = G_LOG_LEVEL_DEBUG then ''debug''
      else ''error'')"

text \<open>The label \<^verbatim>\<open>update_global_log\<close>: the message goes in ASCII form to the global log.\<close>

definition update_global_log ::
  "env \<Rightarrow> cstring \<Rightarrow> string \<Rightarrow> string \<Rightarrow> string \<Rightarrow> string \<Rightarrow> clr_log_options \<Rightarrow> world \<Rightarrow> world" where
  "update_global_log E log_domain level message timestamp final opts w =
     (case global_logfile opts of
        None \<Rightarrow> w
      | Some g \<Rightarrow>
          (case (if log_use_json opts then clr_oci_msg_fmt E log_domain level message timestamp False w
                 else (final, w)) of
             (final, w) \<Rightarrow> snd (clr_oci_log_msg_write E g final w)))"

text \<open>What is done with a formatted message.\<close>

definition log_final ::
  "env \<Rightarrow> bool \<Rightarrow> cstring \<Rightarrow> nat \<Rightarrow> string \<Rightarrow> string \<Rightarrow> string \<Rightarrow> clr_log_options \<Rightarrow> world \<Rightarrow> world" where
  "log_final E enable_debug log_domain log_level message timestamp final opts w =
     (let w = (if log_level = G_LOG_LEVEL_ERROR \<or> log_level = G_LOG_LEVEL_CRITICAL
               then snd (callB E (PrintErr (final @ [CHR 0x0A])) w) else w);
          global = update_global_log E log_domain (log_level_name log_level) message timestamp final opts
      in if log_level = G_LOG_LEVEL_DEBUG \<and> \<not> enable_debug then global w
         else
           (case filename opts of
              None \<Rightarrow> global w
            | Some f \<Rightarrow>
                (case clr_oci_log_msg_write E f final w of
                   (False, w) \<Rightarrow> w
                 | (True, w) \<Rightarrow> global w)))"

text \<open>
  \<open>initialised\<close> is the static variable of the function, \<open>enable_debug\<close> the global
  one of the program.
\<close>

definition clr_oci_log_handler ::
  "env \<Rightarrow> bool \<Rightarrow> cstring \<Rightarrow> nat \<Rightarrow> string \<Rightarrow> clr_log_options \<Rightarrow> bool \<times> world \<Rightarrow> bool \<times> world" where
  "clr_oci_log_handler E enable_debug log_domain log_level message opts s =
     (case s of (initialised, w) \<Rightarrow>
        if filename opts = None \<and> global_logfile opts = None then (initialised, w)
        else if log_level = G_LOG_LEVEL_DEBUG \<and> \<not> enable_debug \<and> global_logfile opts = None then
          (initialised, w)
        else
          let w = (if initialised then w else snd (callB E OpenLog w))
          in (True,
              case clr_oci_get_iso8601_timestamp E w of
                (None, w) \<Rightarrow> w
              | (Some timestamp, w) \<Rightarrow>
                  (case clr_oci_msg_fmt E log_domain (log_level_name log_level) message timestamp
                          (log_use_json opts) w of
                     (final, w) \<Rightarrow>
                       log_final E enable_debug log_domain log_level message timestamp final opts w)))"

definition clr_oci_log_init :: "env \<Rightarrow> clr_log_options \<Rightarrow> world \<Rightarrow> bool \<times> world" where
  "clr_oci_log_init E opts w =
     (case global_logfile opts of
        None \<Rightarrow> (True, w)
      | Some g \<Rightarrow>
          (case callI E (MkdirParents (g_path_get_dirname g) CLR_OCI_DIR_MODE) w of
             (r, w) \<Rightarrow> (r = 0, w)))"

subsection \<open>Lemmas\<close>

text \<open>What was appended to which file, oldest first.\<close>

fun last_opened :: "world \<Rightarrow> string" where
  "last_opened [] = []"
| "last_opened (x # w) = (case x of (OpenAppend f m, r) \<Rightarrow> f | _ \<Rightarrow> last_opened w)"

fun appended :: "world \<Rightarrow> (string \<times> string) list" where
  "appended [] = []"
| "appended (x # w) =
     appended w @ (case x of (ChannelWrite s, RBool True) \<Rightarrow> [(last_opened w, s)] | _ \<Rightarrow> [])"

text \<open>Log files can be written.\<close>

definition log_files_work :: "env \<Rightarrow> bool" where
  "log_files_work E \<longleftrightarrow> (\<forall>v f m. 0 \<le> sys_int E v (OpenAppend f m)) \<and> (\<forall>v n. sys_bool E v (ChannelNew n))
     \<and> (\<forall>v s. sys_bool E v (ChannelWrite s)) \<and> (\<forall>v. sys_bool E v ChannelShutdown)"

lemma log_write_appends:
  assumes "log_files_work E"
  shows "\<exists>w'. clr_oci_log_msg_write E f s w = (True, w') \<and> appended w' = appended w @ [(f, s)]"
proof -
  have "\<not> sys_int E v (OpenAppend f m) < 0" for v m using assms by (simp add: log_files_work_def not_less)
  then show ?thesis
    using assms by (simp add: clr_oci_log_msg_write_def log_files_work_def call_defs)
qed

text \<open>The two forms of an entry, and which files get which.\<close>

definition ascii_entry :: "cstring \<Rightarrow> string \<Rightarrow> string \<Rightarrow> string \<Rightarrow> int \<Rightarrow> string" where
  "ascii_entry dmn level message timestamp pid =
     timestamp @ '':'' @ dec_of_int (to_uint32 pid) @ '':'' @ (case dmn of Some d \<Rightarrow> d | None \<Rightarrow> []) @ '':'' @
     level @ '':'' @ message @ [CHR 0x0A]"

definition json_entry :: "env \<Rightarrow> string \<Rightarrow> string \<Rightarrow> string \<Rightarrow> string" where
  "json_entry E level message timestamp =
     json_gen E False (JObj [(''level'', JString level), (''mesg'', JString message), (''time'', JString timestamp)])
     @ [CHR 0x0A]"

definition log_entries ::
  "env \<Rightarrow> bool \<Rightarrow> cstring \<Rightarrow> nat \<Rightarrow> string \<Rightarrow> string \<Rightarrow> int \<Rightarrow> clr_log_options \<Rightarrow> (string \<times> string) list" where
  "log_entries E enable_debug dmn log_level message timestamp pid opts =
     (let level = log_level_name log_level in
      (case filename opts of
         Some f \<Rightarrow>
           if log_level = G_LOG_LEVEL_DEBUG \<and> \<not> enable_debug then []
           else [(f, if log_use_json opts then json_entry E level message timestamp
                     else ascii_entry dmn level message timestamp pid)]
       | None \<Rightarrow> []) @
      (case global_logfile opts of
         Some g \<Rightarrow> [(g, ascii_entry dmn level message timestamp pid)]
       | None \<Rightarrow> []))"

lemma msg_fmt:
  assumes "\<And>v. sys_int E v Getpid = pid"
  shows "\<exists>w'. clr_oci_msg_fmt E dmn level message timestamp json w =
     (if json then json_entry E level message timestamp else ascii_entry dmn level message timestamp pid, w')
     \<and> appended w' = appended w"
  using assms
  by (simp add: clr_oci_msg_fmt_def clr_oci_log_to_json_def json_entry_def ascii_entry_def callI_def)

lemma update_global:
  assumes "log_files_work E" and "\<And>v. sys_int E v Getpid = pid"
    and "log_use_json opts \<or> final = ascii_entry dmn level message timestamp pid"
  shows "appended (update_global_log E dmn level message timestamp final opts w) = appended w @
     (case global_logfile opts of Some g \<Rightarrow> [(g, ascii_entry dmn level message timestamp pid)] | None \<Rightarrow> [])"
proof (cases "global_logfile opts")
  case (Some g)
  let ?s = "ascii_entry dmn level message timestamp pid"
  obtain w1 where "(if log_use_json opts then clr_oci_msg_fmt E dmn level message timestamp False w else (final, w)) = (?s, w1)"
    "appended w1 = appended w"
    using msg_fmt [OF assms(2), of dmn level message timestamp False w] assms(3)
    by (cases "log_use_json opts") auto
  moreover obtain w2 where "clr_oci_log_msg_write E g ?s w1 = (True, w2)" "appended w2 = appended w1 @ [(g, ?s)]"
    using log_write_appends [OF assms(1)] by blast
  ultimately show ?thesis using Some by (simp add: update_global_log_def)
qed (simp add: update_global_log_def)

lemma log_final_appends:
  assumes "log_files_work E" and "\<And>v. sys_int E v Getpid = pid"
    and "final = (if log_use_json opts then json_entry E (log_level_name log_level) message timestamp
                  else ascii_entry dmn (log_level_name log_level) message timestamp pid)"
  shows "appended (log_final E enable_debug dmn log_level message timestamp final opts w) =
     appended w @ log_entries E enable_debug dmn log_level message timestamp pid opts"
proof -
  define w1 where "w1 = (if log_level = G_LOG_LEVEL_ERROR \<or> log_level = G_LOG_LEVEL_CRITICAL
      then snd (callB E (PrintErr (final @ [CHR 0x0A])) w) else w)"
  have w1: "appended w1 = appended w" by (simp add: w1_def callB_def)
  let ?global = "update_global_log E dmn (log_level_name log_level) message timestamp final opts"
  have run: "log_final E enable_debug dmn log_level message timestamp final opts w =
      (if log_level = G_LOG_LEVEL_DEBUG \<and> \<not> enable_debug then ?global w1
       else case filename opts of None \<Rightarrow> ?global w1
            | Some f \<Rightarrow> (case clr_oci_log_msg_write E f final w1 of (False, w) \<Rightarrow> w | (True, w) \<Rightarrow> ?global w))"
    unfolding log_final_def w1_def Let_def by (rule refl)
  have global: "appended (update_global_log E dmn (log_level_name log_level) message timestamp final opts v) =
      appended v @ (case global_logfile opts of
        Some g \<Rightarrow> [(g, ascii_entry dmn (log_level_name log_level) message timestamp pid)] | None \<Rightarrow> [])" for v
    using assms(3) by (intro update_global [OF assms(1,2)]) auto
  show ?thesis
  proof (cases "(log_level = G_LOG_LEVEL_DEBUG \<and> \<not> enable_debug) \<or> filename opts = None")
    case True
    then show ?thesis using global [of w1] w1 run
      by (auto simp: log_entries_def Let_def split: option.split)
  next
    case False
    then obtain f where f: "filename opts = Some f" by auto
    obtain w2 where "clr_oci_log_msg_write E f final w1 = (True, w2)" "appended w2 = appended w1 @ [(f, final)]"
      using log_write_appends [OF assms(1)] by blast
    with f False global [of w2] w1 run show ?thesis
      by (auto simp: log_entries_def Let_def assms(3))
  qed
qed

subsection \<open>Properties\<close>

text \<open>
  The fallback never notices that a message is too long: the byte it asks about is always NUL,
  so the message goes to the system log cut to \<^const>\<open>CLR_OCI_LOG_BUFSIZE\<close> - 1 bytes.
\<close>

theorem log_overrun_never_detected:
  assumes "length stack = CLR_OCI_LOG_BUFSIZE" and "NUL \<notin> set text"
  shows "calls (clr_oci_error E stack file line func fmt (Some text) w) = calls w @
     [Syslog (file @ '':'' @ dec_of_int line @ '':'' @ func @ '':'' @ take (CLR_OCI_LOG_BUFSIZE - 1) text), CloseLog]"
proof -
  let ?b = "snprintf_into (stack[CLR_OCI_LOG_BUFSIZE - 1 := NUL]) CLR_OCI_LOG_BUFSIZE text"
  have last: "?b ! (CLR_OCI_LOG_BUFSIZE - 1) = NUL"
  proof (cases "CLR_OCI_LOG_BUFSIZE - 1 \<le> length text")
    case True
    then show ?thesis by (simp add: snprintf_into_def nth_append)
  next
    case False
    then show ?thesis using assms(1) by (simp add: snprintf_into_def nth_append CLR_OCI_LOG_BUFSIZE_def)
  qed
  have "cstr_at ?b 0 = take (CLR_OCI_LOG_BUFSIZE - 1) text"
    using assms(2) cstr_at_prefix [of "take (CLR_OCI_LOG_BUFSIZE - 1) text"]
    by (simp add: snprintf_into_def) (meson in_set_takeD)
  with last show ?thesis by (simp add: clr_oci_error_def callB_def Let_def)
qed

lemma log_overrun_never_detected_witness:
  "calls (clr_oci_error env0 (replicate CLR_OCI_LOG_BUFSIZE (CHR ''z'')) ''f'' 1 ''g'' ''%s'' (Some (replicate 2000 (CHR ''x''))) []) =
     [Syslog (''f:1:g:'' @ replicate 1023 (CHR ''x'')), CloseLog]"
proof -
  have "dec_of_int 1 = ''1''" by code_simp
  then show ?thesis
    using log_overrun_never_detected [of "replicate CLR_OCI_LOG_BUFSIZE (CHR ''z'')" "replicate 2000 (CHR ''x'')"
        env0 "''f''" 1 "''g''" "''%s''" "[]"]
    by (simp add: NUL_def CLR_OCI_LOG_BUFSIZE_def)
qed

lemma timestamp_appended [simp]: "appended (snd (clr_oci_get_iso8601_timestamp E w)) = appended w"
  by (simp add: clr_oci_get_iso8601_timestamp_def call_defs split: option.split)

text \<open>
  C29. A log message goes to both files when they can be written: to the main log in the chosen
  form, unless it is a debug message and debugging is off, and to the global log always, and
  always in the ASCII form.
\<close>

theorem log_message_routing:
  assumes "log_files_work E" and "\<And>v. sys_int E v Getpid = pid" and "\<And>v. fst (clr_oci_get_iso8601_timestamp E v) = Some timestamp"
  shows "appended (snd (clr_oci_log_handler E enable_debug dmn log_level message opts (initialised, w))) =
     appended w @ log_entries E enable_debug dmn log_level message timestamp pid opts"
proof (cases "(filename opts = None \<or> log_level = G_LOG_LEVEL_DEBUG \<and> \<not> enable_debug) \<and> global_logfile opts = None")
  case True
  then have "clr_oci_log_handler E enable_debug dmn log_level message opts (initialised, w) = (initialised, w)"
    by (auto simp: clr_oci_log_handler_def)
  then show ?thesis using True by (auto simp: log_entries_def Let_def split: option.split)
next
  case False
  let ?json = "log_use_json opts" and ?level = "log_level_name log_level"
  let ?w0 = "if initialised then w else snd (callB E OpenLog w)"
  obtain w1 where ts: "clr_oci_get_iso8601_timestamp E ?w0 = (Some timestamp, w1)"
    using assms(3) [of ?w0] by (cases "clr_oci_get_iso8601_timestamp E ?w0") simp
  let ?final = "if ?json then json_entry E ?level message timestamp else ascii_entry dmn ?level message timestamp pid"
  obtain w2 where fmt: "clr_oci_msg_fmt E dmn ?level message timestamp ?json w1 = (?final, w2)" "appended w2 = appended w1"
    using msg_fmt [where E = E and json = ?json, OF assms(2)] by blast
  have "snd (clr_oci_log_handler E enable_debug dmn log_level message opts (initialised, w)) =
      log_final E enable_debug dmn log_level message timestamp ?final opts w2"
    using False fmt(1) ts by (cases initialised) (auto simp: clr_oci_log_handler_def)
  moreover have "appended w2 = appended w"
    using fmt(2) timestamp_appended [of E ?w0] by (simp add: ts callB_def del: timestamp_appended)
  ultimately show ?thesis
    using log_final_appends [OF assms(1,2), where final = ?final and w = w2] by simp
qed

lemma log_message_routing_witness:
  "appended (snd (clr_oci_log_handler (env0\<lparr>sys_str := \<lambda>w c. Some ''now''\<rparr>) False None G_LOG_LEVEL_DEBUG ''hello''
      \<lparr>filename = Some ''main.log'', global_logfile = Some ''global.log'', log_use_json = True\<rparr> (False, []))) =
     [(''global.log'', ''now:0::debug:hello'' @ [CHR 0x0A])]"
proof -
  let ?E = "env0\<lparr>sys_str := \<lambda>w c. Some ''now''\<rparr>"
  have f: "log_files_work ?E" "sys_int ?E v Getpid = 0" "fst (clr_oci_get_iso8601_timestamp ?E v) = Some ''now''" for v
    by (simp_all add: log_files_work_def env0_def clr_oci_get_iso8601_timestamp_def g_date_time_add_hours_def call_defs)
  have d: "dec_of_int (to_uint32 0) = ''0''" by code_simp
  show ?thesis
    using log_message_routing [OF f, of False None G_LOG_LEVEL_DEBUG "''hello''"
        "\<lparr>filename = Some ''main.log'', global_logfile = Some ''global.log'', log_use_json = True\<rparr>" False "[]"] d
    by (simp add: log_entries_def ascii_entry_def log_level_name_def log_levels)
qed

text \<open>
  When the main log cannot be opened, no file gets the message: the global log, which is to
  hold every message, does not get it either.
\<close>

theorem main_log_failure_silences_global:
  assumes "\<And>v m. sys_int E v (OpenAppend f m) < 0" and "filename opts = Some f" and "\<not> (log_level = G_LOG_LEVEL_DEBUG \<and> \<not> enable_debug)"
  shows "appended (snd (clr_oci_log_handler E enable_debug dmn log_level message opts (initialised, w))) = appended w"
proof -
  have "\<exists>v'. clr_oci_log_msg_write E f s v = (False, v') \<and> appended v' = appended v" for s v
    using assms(1) by (simp add: clr_oci_log_msg_write_def call_defs CLR_OCI_ERROR_def clr_oci_error_def Let_def)
  then obtain fail where fail: "clr_oci_log_msg_write E f s v = (False, fail s v)" "appended (fail s v) = appended v" for s v
    by metis
  have final: "appended (log_final E enable_debug dmn log_level message timestamp final opts v) = appended v"
    for timestamp final v
    using assms(2,3) fail by (auto simp: log_final_def callB_def Let_def)
  have fmt: "appended (snd (clr_oci_msg_fmt E dmn level message timestamp json v)) = appended v"
    for level timestamp json v
    by (simp add: clr_oci_msg_fmt_def callI_def)
  show ?thesis
    using assms(2,3) final fmt timestamp_appended [of E]
    by (simp add: clr_oci_log_handler_def callB_def Let_def case_prod_beta split: option.split)
qed

lemma main_log_failure_silences_global_witness:
  "appended (snd (clr_oci_log_handler (env0\<lparr>sys_str := \<lambda>w c. Some ''now'', sys_int := \<lambda>w c. - 1\<rparr>) True None
      G_LOG_LEVEL_INFO ''hello''
      \<lparr>filename = Some ''main.log'', global_logfile = Some ''global.log'', log_use_json = True\<rparr> (False, []))) = []"
  using main_log_failure_silences_global [where f = "''main.log''" and w = "[]"
      and E = "env0\<lparr>sys_str := \<lambda>w c. Some ''now'', sys_int := \<lambda>w c. - 1\<rparr>"]
  by (simp add: log_levels)

end
