(* ===== verification/Main_Program.thy ===== *)
theory Main_Program
  imports Listing Delete Events Attach Logging
begin

text \<open>
  \<^verbatim>\<open>src/main.c\<close>, the table of \<^verbatim>\<open>src/command.c\<close> and the commands "help"
  and "version": what a process of the runtime does with its command line.
\<close>

subsection \<open>Options\<close>

text \<open>
  The global options; those that nothing reads are left out, and "debug", which
  \<^verbatim>\<open>main\<close> sets in any case.
\<close>

record global_options =
  g_log_file :: cstring
  g_global_log :: cstring
  g_log_format :: cstring
  g_root :: cstring
  g_version :: bool
  g_help :: bool

text \<open>The static variables that the options of the sub-commands set.\<close>

record sub_options =
  so_start :: start_data
  so_format :: cstring
  so_all :: bool
  so_once :: bool
  so_interval :: int

definition sub_options0 :: sub_options where
  "sub_options0 = \<lparr>so_start = no_start_data, so_format = None, so_all = False, so_once = False,
     so_interval = DEFAULT_INTERVAL\<rparr>"

text \<open>
  GLib's option parser is a parameter: it takes an argument vector whose first element is the
  name of the program, or of the sub-command, and returns the options and the vector without
  them, or fails. The parser of a sub-command ends the process itself, successfully, when it is
  asked for help.
\<close>

datatype sub_parsed = ParseFailed | ParseExits | Parsed sub_options "string list"

record option_parser =
  parse_globals :: "string list \<Rightarrow> (global_options \<times> string list) option"
  globals_help :: string
  parse_sub :: "string \<Rightarrow> string list \<Rightarrow> sub_parsed"
  git_commit :: string

definition PACKAGE_NAME :: string where "PACKAGE_NAME = ''clr-oci-runtime''"
definition PACKAGE_VERSION :: string where "PACKAGE_VERSION = ''0.1''"

subsection \<open>help and version\<close>

text \<open>The names and descriptions of the sub-commands, in the order of the table.\<close>

definition subcommand_texts :: "(string \<times> string) list" where
  "subcommand_texts =
     [(''attach'', ''attach to a container''),
      (''checkpoint'', ''checkpoint a running container''),
      (''create'', ''create and start a container, but do not run workload''),
      (''delete'', ''delete resources held by a container''),
      (''events'', ''shows container resource usage statistics''),
      (''exec'', ''execute a new task inside an existing container''),
      (''help'', ''show this help''),
      (''kill'', ''send a signal to the container (signal may be symbolic (\"SIGKILL\"/\"KILL\") or numeric (\"9\"))''),
      (''list'', ''list all container details''),
      (''pause'', ''pause all the tasks inside a container''),
      (''ps'', ''display the processes running inside a container''),
      (''restore'', ''restore a container from a previous checkpoint''),
      (''resume'', ''resume a previously paused container''),
      (''run'', ''create and run a new container''),
      (''start'', ''run workload in a created container''),
      (''state'', ''shows the state of a container''),
      (''stop'', ''destroy a container''),
      (''update'', ''update container resource constraints''),
      (''version'', ''shows the program version and OCI spec supported version'')]"

text \<open>\<^verbatim>\<open>%8s\<close>: right-justified.\<close>

definition pad_left :: "nat \<Rightarrow> string \<Rightarrow> string" where
  "pad_left n s = replicate (n - length s) (CHR 0x20) @ s"

definition usage :: "env \<Rightarrow> world \<Rightarrow> world" where
  "usage E w =
     (let w = g_print E (''Usage:'' @ [CHR 0x0A]) w;
          w = g_print E (PACKAGE_NAME @ '' [options] [command] [options]'' @ [CHR 0x0A]) w;
          w = g_print E [CHR 0x0A] w;
          w = g_print E (''Supported commands:'' @ [CHR 0x0A]) w
      in fold (\<lambda>(name, description) w.
           g_print E ([CHR 0x09] @ pad 15 name @ '' '' @ pad_left 8 description @ [CHR 0x0A]) w) subcommand_texts w)"

definition handler_help :: "env \<Rightarrow> world \<Rightarrow> (bool \<times> world) option" where
  "handler_help E w = Some (True, usage E w)"

definition show_version :: "env \<Rightarrow> string \<Rightarrow> world \<Rightarrow> world" where
  "show_version E commit w =
     (let w = g_print E (PACKAGE_NAME @ '' version: '' @ PACKAGE_VERSION @ [CHR 0x0A]) w;
          w = g_print E (''spec version: '' @ CLR_OCI_SUPPORTED_SPEC_VERSION @ [CHR 0x0A]) w
      in g_print E (''commit: '' @ commit @ [CHR 0x0A]) w)"

definition handler_version :: "env \<Rightarrow> string \<Rightarrow> world \<Rightarrow> (bool \<times> world) option" where
  "handler_version E commit w = Some (True, show_version E commit w)"

subsection \<open>The table of sub-commands\<close>

record subcommand =
  sc_name :: string
  sc_options :: bool
  sc_handler :: "env \<Rightarrow> sub_options \<Rightarrow> clr_oci_config \<Rightarrow> string list \<Rightarrow> world \<Rightarrow> (bool \<times> world) option"

definition subcommands :: "option_parser \<Rightarrow> subcommand list" where
  "subcommands P =
     [\<lparr>sc_name = ''attach'', sc_options = False, sc_handler = \<lambda>E so. handler_attach E ''attach''\<rparr>,
      \<lparr>sc_name = ''checkpoint'', sc_options = False, sc_handler = \<lambda>E so. handler_checkpoint E ''checkpoint''\<rparr>,
      \<lparr>sc_name = ''create'', sc_options = True, sc_handler = \<lambda>E so. handler_create E ''create'' (so_start so)\<rparr>,
      \<lparr>sc_name = ''delete'', sc_options = False, sc_handler = \<lambda>E so. handle_command_stop E ''delete''\<rparr>,
      \<lparr>sc_name = ''events'', sc_options = True,
        sc_handler = \<lambda>E so. handler_events E ''events'' (so_once so) (so_interval so)\<rparr>,
      \<lparr>sc_name = ''exec'', sc_options = False, sc_handler = \<lambda>E so. handler_exec E ''exec''\<rparr>,
      \<lparr>sc_name = ''help'', sc_options = False, sc_handler = \<lambda>E so config argv. handler_help E\<rparr>,
      \<lparr>sc_name = ''kill'', sc_options = False, sc_handler = \<lambda>E so. handler_kill E ''kill''\<rparr>,
      \<lparr>sc_name = ''list'', sc_options = True,
        sc_handler = \<lambda>E so config argv. handler_list E (so_format so) (so_all so) config\<rparr>,
      \<lparr>sc_name = ''pause'', sc_options = False, sc_handler = \<lambda>E so. handler_pause E ''pause''\<rparr>,
      \<lparr>sc_name = ''ps'', sc_options = False, sc_handler = \<lambda>E so. handler_ps E ''ps''\<rparr>,
      \<lparr>sc_name = ''restore'', sc_options = False, sc_handler = \<lambda>E so. handler_restore E ''restore''\<rparr>,
      \<lparr>sc_name = ''resume'', sc_options = False, sc_handler = \<lambda>E so. handler_resume E ''resume''\<rparr>,
      \<lparr>sc_name = ''run'', sc_options = True, sc_handler = \<lambda>E so. handler_run E ''run'' (so_start so)\<rparr>,
      \<lparr>sc_name = ''start'', sc_options = True, sc_handler = \<lambda>E so. handler_start E ''start'' (so_start so)\<rparr>,
      \<lparr>sc_name = ''state'', sc_options = False, sc_handler = \<lambda>E so. handler_state E ''state''\<rparr>,
      \<lparr>sc_name = ''stop'', sc_options = False, sc_handler = \<lambda>E so. handle_command_stop E ''stop''\<rparr>,
      \<lparr>sc_name = ''update'', sc_options = False, sc_handler = \<lambda>E so. handler_update E ''update''\<rparr>,
      \<lparr>sc_name = ''version'', sc_options = False,
        sc_handler = \<lambda>E so config argv. handler_version E (git_commit P)\<rparr>]"

definition get_subcmd :: "option_parser \<Rightarrow> string \<Rightarrow> subcommand option" where
  "get_subcmd P cmd = find (\<lambda>sub. cmd = sc_name sub) (subcommands P)"

subsection \<open>The command line\<close>

text \<open>The inner option is \<^term>\<open>None\<close> when the process has ended, successfully.\<close>

definition handle_sub_commands ::
  "option_parser \<Rightarrow> env \<Rightarrow> string list \<Rightarrow> subcommand \<Rightarrow> clr_oci_config \<Rightarrow> world \<Rightarrow> (bool option \<times> world) option" where
  "handle_sub_commands P E argv sub config w =
     (case (if sc_options sub then parse_sub P (sc_name sub) argv else Parsed sub_options0 argv) of
        ParseFailed \<Rightarrow> Some (Some False, w)
      | ParseExits \<Rightarrow> Some (None, w)
      | Parsed so argv \<Rightarrow> do {
          (ret, w) \<leftarrow> sc_handler sub E so config (tl argv) w;
          Some (Some ret, w)
        })"

definition setup_logging :: "env \<Rightarrow> clr_log_options \<Rightarrow> clr_oci_config \<Rightarrow> world \<Rightarrow> bool \<times> world" where
  "setup_logging E log config w =
     (let log =
        (if global_logfile log = None then
           log\<lparr>global_logfile := Some (g_build_path
             [case root_dir config of Some d \<Rightarrow> d | None \<Rightarrow> CLR_OCI_RUNTIME_DIR_PREFIX, PACKAGE_NAME @ ''.log''])\<rparr>
         else log)
      in clr_oci_log_init E log w)"

text \<open>
  Without the privileges it needs, a command is left with the result of the option parser,
  which was true.
\<close>

definition handle_arguments ::
  "option_parser \<Rightarrow> env \<Rightarrow> string list \<Rightarrow> world \<Rightarrow> (bool option \<times> world) option" where
  "handle_arguments P E argv w =
     (case parse_globals P argv of
        None \<Rightarrow> Some (Some False, w)
      | Some (g, argv) \<Rightarrow>
          let ret = True;
              w = (if g_help g then g_print E (globals_help P) w else w);
              log = \<lparr>filename = g_log_file g, global_logfile = g_global_log g,
                     log_use_json = (g_log_format g = Some ''json'')\<rparr>
          in if g_version g then do { (ret, w) \<leftarrow> handler_version E (git_commit P) w; Some (Some ret, w) }
             else (case tl argv of
                [] \<Rightarrow> do { (ret, w) \<leftarrow> handler_help E w; Some (Some True, w) }
              | cmd # args \<Rightarrow>
                  let config = config0\<lparr>root_dir := g_root g\<rparr> in
                  (case get_subcmd P cmd of
                     None \<Rightarrow> Some (Some False, g_print E (''no such command: '' @ cmd @ [CHR 0x0A]) w)
                   | Some sub \<Rightarrow>
                       (case clr_oci_get_priv_level E (cmd # args) (sc_name sub) config w of
                          (priv_level, w) \<Rightarrow>
                            (case (if priv_level = 1 then callI E Getuid w else (0, w)) of
                               (user_id, w) \<Rightarrow>
                                 if priv_level = 1 \<and> user_id \<noteq> 0 then Some (Some ret, w)
                                 else
                                   (case (if 0 \<le> priv_level then setup_logging E log config w else (True, w)) of
                                      (False, w) \<Rightarrow> Some (Some False,
                                        snd (callB E (PrintErr (''failed to setup logging'' @ [CHR 0x0A])) w))
                                    | (True, w) \<Rightarrow> handle_sub_commands P E (cmd # args) sub config w))))))"

text \<open>The exit status of the process, \<^term>\<open>None\<close> when it does not end or is killed.\<close>

definition main :: "option_parser \<Rightarrow> env \<Rightarrow> string list \<Rightarrow> world \<Rightarrow> (nat \<times> world) option" where
  "main P E argv w = do {
     (ret, w) \<leftarrow> handle_arguments P E argv w;
     Some (if ret = Some False then 1 else 0, w)
   }"

subsection \<open>Lemmas\<close>

text \<open>The table and the texts of "help" agree, and each command is found under its name.\<close>

lemma subcommand_names: "map sc_name (subcommands P) = map fst subcommand_texts"
  by (simp add: subcommands_def subcommand_texts_def)

lemma get_subcmd_iff: "(\<exists>sub. get_subcmd P cmd = Some sub) \<longleftrightarrow> cmd \<in> fst ` set subcommand_texts"
proof -
  have "(\<exists>sub. get_subcmd P cmd = Some sub) \<longleftrightarrow> cmd \<in> set (map sc_name (subcommands P))"
    by (cases "get_subcmd P cmd") (auto simp: get_subcmd_def find_None_iff find_Some_iff)
  then show ?thesis by (simp add: subcommand_names)
qed

text \<open>A process that runs as root and can make the directory of the global log.\<close>

definition privileged :: "env \<Rightarrow> bool" where
  "privileged E \<longleftrightarrow> (\<forall>v. sys_int E v Getuid = 0) \<and> (\<forall>v p m. sys_int E v (MkdirParents p m) = 0)"

definition quiet :: "call \<Rightarrow> bool" where
  "quiet c \<longleftrightarrow> keeps_files c \<and> (case c of Print s \<Rightarrow> False | _ \<Rightarrow> True)"

lemma quiet_keeps: "extends_by quiet w v \<Longrightarrow> extends_by keeps_files w v \<and> prints v = prints w"
proof -
  assume e: "extends_by quiet w v"
  then have "prints v = prints w"
    by (induction rule: extends_by_induct) (auto simp: quiet_def split: call.splits)
  with e show ?thesis using extends_by_mono [of quiet w v keeps_files] by (simp add: quiet_def)
qed

lemma priv_level_quiet:
  "clr_oci_get_priv_level E argv name config w = (p, w') \<Longrightarrow> extends_by quiet w w'"
  by (auto simp: clr_oci_get_priv_level_def call_defs quiet_def keeps_files_def Let_def split: if_splits option.splits)

lemma setup_logging_quiet:
  "privileged E \<Longrightarrow> \<exists>w'. setup_logging E log config w = (True, w') \<and> extends_by quiet w w'"
  by (auto simp: setup_logging_def clr_oci_log_init_def privileged_def callI_def quiet_def keeps_files_def Let_def
      split: option.split)

text \<open>What the parser makes of the command line of a sub-command.\<close>

definition sub_parse :: "option_parser \<Rightarrow> subcommand \<Rightarrow> string list \<Rightarrow> sub_parsed" where
  "sub_parse P sub argv =
     (if sc_options sub then parse_sub P (sc_name sub) argv else Parsed sub_options0 argv)"

lemma main_dispatch:
  assumes "parse_globals P argv = Some (g, prog # cmd # args)" and "\<not> g_version g" and "\<not> g_help g"
    and "get_subcmd P cmd = Some sub" and "sub_parse P sub (cmd # args) = Parsed so (cmd' # args')"
    and "privileged E"
  shows "\<exists>v. extends_by quiet w v \<and>
     main P E argv w = do { (b, w') \<leftarrow> sc_handler sub E so (base (g_root g)) args' v; Some (if b then 0 else 1, w') }"
proof -
  let ?config = "base (g_root g)"
  obtain p w1 where p: "clr_oci_get_priv_level E (cmd # args) (sc_name sub) ?config w = (p, w1)"
    by (cases "clr_oci_get_priv_level E (cmd # args) (sc_name sub) ?config w")
  define w2 where "w2 = (if p = 1 then (Getuid, RInt 0) # w1 else w1)"
  have uid: "(if p = 1 then callI E Getuid w1 else (0, w1)) = (0, w2)"
    using assms(6) by (simp add: privileged_def callI_def w2_def)
  let ?log = "\<lparr>filename = g_log_file g, global_logfile = g_global_log g, log_use_json = (g_log_format g = Some ''json'')\<rparr>"
  obtain w3 where w3: "(if 0 \<le> p then setup_logging E ?log ?config w2 else (True, w2)) = (True, w3)"
    "extends_by quiet w2 w3"
    using setup_logging_quiet [OF assms(6), of ?log ?config w2] by (cases "0 \<le> p") auto
  have "extends_by quiet w w2"
    using priv_level_quiet [OF p] by (simp add: w2_def quiet_def keeps_files_def)
  from extends_by_trans [OF this w3(2)] have e: "extends_by quiet w w3" .
  have "main P E argv w = do { (ret, w) \<leftarrow> handle_sub_commands P E (cmd # args) sub ?config w3;
      Some (if ret = Some False then 1 else 0, w) }"
    using assms(1-4) p uid w3(1) by (simp add: main_def handle_arguments_def Let_def del: if_split)
  also have "\<dots> = do { (b, w') \<leftarrow> sc_handler sub E so ?config args' w3; Some (if b then 0 else 1, w') }"
    using assms(5)
    by (cases "sc_handler sub E so ?config args' w3") (auto simp: handle_sub_commands_def sub_parse_def)
  finally show ?thesis using e by blast
qed

subsection \<open>Sessions of processes\<close>

fun command_line :: "string \<Rightarrow> command \<Rightarrow> string list" where
  "command_line cid CStart = [''start'', cid]"
| "command_line cid (CKill args) = ''kill'' # cid # args"
| "command_line cid CPause = [''pause'', cid]"
| "command_line cid CResume = [''resume'', cid]"
| "command_line cid CDelete = [''delete'', cid]"

definition root_args :: "cstring \<Rightarrow> string list" where
  "root_args r = (case r of None \<Rightarrow> [] | Some d \<Rightarrow> [''--root'', d])"

definition plain_globals :: "cstring \<Rightarrow> global_options" where
  "plain_globals r = \<lparr>g_log_file = None, g_global_log = None, g_log_format = None, g_root = r,
     g_version = False, g_help = False\<rparr>"

text \<open>
  What is asked of the option parser: it takes the option "--root" and stops at the name of the
  sub-command, and takes a container's id for an argument.
\<close>

definition plain_parser :: "option_parser \<Rightarrow> string \<Rightarrow> string \<Rightarrow> bool" where
  "plain_parser P prog cid \<longleftrightarrow>
     (\<forall>r cmd. parse_globals P (prog # root_args r @ command_line cid cmd) =
        Some (plain_globals r, prog # command_line cid cmd))
     \<and> parse_sub P ''start'' [''start'', cid] = Parsed sub_options0 [''start'', cid]"

text \<open>One process; it succeeds when its exit status is 0.\<close>

definition run_process ::
  "option_parser \<Rightarrow> string \<Rightarrow> env \<Rightarrow> cstring \<Rightarrow> string \<Rightarrow> command \<Rightarrow> world \<Rightarrow> (bool \<times> world) option" where
  "run_process P prog E r cid cmd w = do {
     (st, w) \<leftarrow> main P E (prog # root_args r @ command_line cid cmd) w;
     Some (st = 0, w)
   }"

lemma command_subcmds:
  "get_subcmd P ''start'' = Some \<lparr>sc_name = ''start'', sc_options = True, sc_handler = \<lambda>E so. handler_start E ''start'' (so_start so)\<rparr>"
  "get_subcmd P ''kill'' = Some \<lparr>sc_name = ''kill'', sc_options = False, sc_handler = \<lambda>E so. handler_kill E ''kill''\<rparr>"
  "get_subcmd P ''pause'' = Some \<lparr>sc_name = ''pause'', sc_options = False, sc_handler = \<lambda>E so. handler_pause E ''pause''\<rparr>"
  "get_subcmd P ''resume'' = Some \<lparr>sc_name = ''resume'', sc_options = False, sc_handler = \<lambda>E so. handler_resume E ''resume''\<rparr>"
  "get_subcmd P ''delete'' = Some \<lparr>sc_name = ''delete'', sc_options = False, sc_handler = \<lambda>E so. handle_command_stop E ''delete''\<rparr>"
  by (simp_all add: get_subcmd_def subcommands_def)

text \<open>The handler that a command line leads to is the one of the session.\<close>

lemma command_dispatch:
  assumes "plain_parser P prog cid"
  shows "\<exists>name args sub so cmd'. command_line cid cmd = name # args \<and> get_subcmd P name = Some sub
     \<and> sub_parse P sub (name # args) = Parsed so (cmd' # args)
     \<and> (\<forall>v. sc_handler sub E so (base r) args v = run_command E r cid cmd v)"
proof (cases cmd)
  case CStart
  with assms show ?thesis
    by (auto simp: command_subcmds sub_parse_def run_command_def plain_parser_def sub_options0_def)
qed (auto simp: command_subcmds sub_parse_def run_command_def)

lemma process_runs_command:
  assumes "plain_parser P prog cid" and "privileged E"
  shows "\<exists>v. extends_by quiet w v \<and> run_process P prog E r cid cmd w = run_command E r cid cmd v"
proof -
  let ?g = "plain_globals r"
  obtain name args sub so cmd' where d: "command_line cid cmd = name # args" "get_subcmd P name = Some sub"
    "sub_parse P sub (name # args) = Parsed so (cmd' # args)"
    "\<And>v. sc_handler sub E so (base r) args v = run_command E r cid cmd v"
    using command_dispatch [OF assms(1), of cmd E r] by metis
  have g: "parse_globals P (prog # root_args r @ command_line cid cmd) = Some (?g, prog # name # args)"
    "\<not> g_version ?g" "\<not> g_help ?g" "g_root ?g = r"
    using assms(1) unfolding d(1) [symmetric] plain_parser_def by (simp_all add: plain_globals_def)
  from main_dispatch [OF g(1-3) d(2,3) assms(2), of w] obtain v where v: "extends_by quiet w v"
    "main P E (prog # root_args r @ command_line cid cmd) w =
       do { (b, w') \<leftarrow> sc_handler sub E so (base r) args v; Some (if b then 0 else 1, w') }"
    unfolding g(4) by blast
  then have "run_process P prog E r cid cmd w = run_command E r cid cmd v"
    unfolding run_process_def d(4) by (cases "run_command E r cid cmd v") auto
  with v(1) show ?thesis by blast
qed

interpretation processes: session_runner "run_process P prog" "\<lambda>E r cid. plain_parser P prog cid \<and> privileged E"
  for P prog
  using process_runs_command quiet_keeps by unfold_locales metis

subsection \<open>Properties\<close>


text \<open>A parser that understands just the option "--root".\<close>

definition root_parser :: option_parser where
  "root_parser = \<lparr>parse_globals = \<lambda>argv.
       (if length argv > 2 \<and> argv ! 1 = ''--root''
        then Some (plain_globals (Some (argv ! 2)), hd argv # drop 3 argv)
        else Some (plain_globals None, argv)),
     globals_help = [], parse_sub = \<lambda>name argv. Parsed sub_options0 argv, git_commit = []\<rparr>"

lemma root_parser_plain: "plain_parser root_parser prog cid"
proof -
  have "parse_globals root_parser (prog # root_args r @ command_line cid cmd) =
     Some (plain_globals r, prog # command_line cid cmd)" for r cmd
    by (cases cmd) (simp_all add: root_parser_def root_args_def split: option.split)
  then show ?thesis by (simp add: plain_parser_def root_parser_def)
qed

lemma web_privileged: "privileged (disk_env web_disk)"
  by (simp add: privileged_def disk_env_def env0_def)



text \<open>On the disk of a run of "create", the state file is read back.\<close>

lemma create_env_facts:
  "faithful create_env (\<lambda>_. None) (state_path None ''web'')" "privileged create_env" "responsive create_env"
  "\<forall>v. \<not> sys_bool create_env v IsATty" "\<forall>v dir args. sys_int create_env v (Spawn dir args) < 2 ^ 31"
  by (simp_all add: faithful_def codec_def reads_back_def privileged_def responsive_def)
    (simp_all add: create_env_def create_path_def)


text \<open>
  C4. Processes that are given "start" or "kill" for a well-formed container always come to an
  end, whatever the system answers: no check kills them and nothing they wait for can fail to
  come, when no standard stream is a terminal. What they did is a run of the abstract machine.
\<close>

theorem start_and_kill_return:
  assumes "plain_parser P prog (k_id c)" and "privileged E"
    and "faithful E d (state_path r (k_id c))" and "wf_container c" and "no_terminal E c"
    and "stored E d r w c" and "list_all prompt cmds"
  shows "\<exists>bs w'. session_of (run_process P prog E r (k_id c)) cmds w = Some (bs, w') \<and> length bs = length cmds
     \<and> (\<exists>s. lifecycles (Some (k_status c)) (zip cmds bs) s \<and> persisted E d r w' c s)"
proof -
  obtain bs w' where run: "session_of (run_process P prog E r (k_id c)) cmds w = Some (bs, w')"
    using processes.prompt_session [OF _ assms(3-5,7,6)] assms(1,2) by blast
  from processes.session_simulation [OF _ assms(3-5,6) run] assms(1,2) run show ?thesis by blast
qed

lemma start_and_kill_return_witness:
  "\<exists>bs w'. session_of (run_process root_parser ''runtime'' (disk_env web_disk) None (k_id web))
      [CStart, CKill [''TERM''], CStart] [] = Some (bs, w') \<and> length bs = 3"
  using start_and_kill_return [OF root_parser_plain web_privileged web_facts(1,2,3,4), of "[CStart, CKill [''TERM''], CStart]"]
  by fastforce


text \<open>The container \<^term>\<open>web\<close>, whose process takes signals but is never seen alive.\<close>

definition life_env :: env where
  "life_env = gone_env\<lparr>sys_int := \<lambda>w c. (case c of Kill p sig \<Rightarrow> if sig = 0 then - 1 else 0 | _ \<Rightarrow> 0)\<rparr>"




text \<open>
  A command that needs root and is run by another user does nothing, and its process reports
  success.
\<close>

theorem unprivileged_command_reports_success:
  assumes "parse_globals P argv = Some (plain_globals None, prog # cmd # args)"
    and "cmd \<in> fst ` set subcommand_texts" and "cmd \<noteq> ''help''" and "cmd \<noteq> ''version''"
    and "args = [] \<or> hd args \<noteq> ''--help'' \<and> hd args \<noteq> ''-h''" and "sys_int E w Getuid \<noteq> 0"
  shows "main P E argv w = Some (0, (Getuid, RInt (sys_int E w Getuid)) # w)"
proof -
  from assms(2) obtain sub where sub: "get_subcmd P cmd = Some sub" using get_subcmd_iff by blast
  then have name: "sc_name sub = cmd" by (auto simp: get_subcmd_def find_Some_iff)
  have "clr_oci_get_priv_level E (cmd # args) cmd (base None) w = (1, w)"
    using assms(3-5) by (cases args) (auto simp: clr_oci_get_priv_level_def config0_def)
  then show ?thesis
    using assms(1,6) sub name by (simp add: main_def handle_arguments_def plain_globals_def callI_def Let_def)
qed

lemma unprivileged_command_reports_success_witness:
  "main root_parser (env0\<lparr>sys_int := \<lambda>w c. 1000\<rparr>) [''runtime'', ''delete'', ''web''] [] = Some (0, [(Getuid, RInt 1000)])"
  using unprivileged_command_reports_success [of root_parser "[''runtime'', ''delete'', ''web'']" "''runtime''" "''delete''"
      "[''web'']" "env0\<lparr>sys_int := \<lambda>w c. 1000\<rparr>" "[]"]
  by (simp add: root_parser_def plain_globals_def subcommand_texts_def)

end
