(* ===== verification/Memory_Commands.thy ===== *)
theory Memory_Commands
  imports Memory Main_Program Command_Errors
begin

text \<open>
  The memory of whole commands: what a process allocates, which pointers it moves from the state
  to the configuration, and what it releases at the end.
\<close>

subsection \<open>State and configuration\<close>

text \<open>
  Reading the state file is given by its result; the new state is then the caller's. The path of
  the bundle is copied over the pointer that was there, which is not released first. When there
  is no path for \<^verbatim>\<open>config.json\<close> the state is released, but the caller keeps the pointer.
\<close>

definition get_config_and_state_mem ::
  "oci_state option \<Rightarrow> config_mem \<Rightarrow> mem \<Rightarrow> (bool \<times> addr option \<times> config_mem \<times> state_mem option \<times> mem) option" where
  "get_config_and_state_mem rd config m =
     (case rd of
        None \<Rightarrow> Some (False, None, config, None, m)
      | Some st \<Rightarrow>
          (case place_state st m of (p, m) \<Rightarrow>
           case place_ptr (s_bundle_path st) m of (bundle, m) \<Rightarrow>
             let config = config\<lparr>mc_bundle_path := bundle\<rparr> in
             (case place_ptr (clr_oci_config_file_path (s_bundle_path st)) m of
                (None, m) \<Rightarrow> do {
                  m \<leftarrow> state_free (Some p) m;
                  Some (False, None, config, Some p, m)
                }
              | (config_file, m) \<Rightarrow> Some (True, config_file, config, Some p, m))))"

text \<open>The pointers that change hands.\<close>

definition config_update_mem :: "config_mem \<Rightarrow> state_mem \<Rightarrow> config_mem \<times> state_mem" where
  "config_update_mem config state =
     (let (config, state) =
        (if ms_mounts state \<noteq> [] then (config\<lparr>mc_mounts := ms_mounts state\<rparr>, state\<lparr>ms_mounts := []\<rparr>)
         else (config, state));
          (config, state) =
        (if ms_console state \<noteq> None then (config\<lparr>mc_console := ms_console state\<rparr>, state\<lparr>ms_console := None\<rparr>)
         else (config, state));
          (config, state) =
        (if ms_vm state \<noteq> None then (config\<lparr>mc_vm := ms_vm state\<rparr>, state\<lparr>ms_vm := None\<rparr>)
         else (config, state))
      in (config, state))"

text \<open>
  What a command moves or makes while it has both: "exec", "attach" and "events" nothing; "kill",
  "pause" and "resume" the update; "delete" the hooks of \<^verbatim>\<open>config.json\<close> and the mounts.
\<close>

type_synonym transfer = "config_mem \<Rightarrow> state_mem \<Rightarrow> mem \<Rightarrow> config_mem \<times> state_mem \<times> mem"

definition keep_transfer :: transfer where
  "keep_transfer config state m = (config, state, m)"

definition update_transfer :: transfer where
  "update_transfer config state m = (case config_update_mem config state of (config, state) \<Rightarrow> (config, state, m))"

definition stop_transfer :: "oci_cfg_hooks \<Rightarrow> transfer" where
  "stop_transfer hs config state m =
     (case place_list place_hook (prestart hs) m of (h1, m) \<Rightarrow>
      case place_list place_hook (poststart hs) m of (h2, m) \<Rightarrow>
      case place_list place_hook (poststop hs) m of (h3, m) \<Rightarrow>
        (config\<lparr>mc_prestart := h1, mc_poststart := h2, mc_poststop := h3, mc_mounts := ms_mounts state\<rparr>,
         state\<lparr>ms_mounts := []\<rparr>, m))"

text \<open>
  The body that those handlers share; whatever happens, its end releases the state. \<open>ok\<close> is
  the result of the operation that the handler calls.
\<close>

type_synonym handler_result = "(bool \<times> config_mem \<times> mem) option"

definition handler_mem :: "transfer \<Rightarrow> bool \<Rightarrow> oci_state option \<Rightarrow> config_mem \<Rightarrow> mem \<Rightarrow> handler_result" where
  "handler_mem t ok rd config m = do {
     (ret, config_file, config, p, m) \<leftarrow> get_config_and_state_mem rd config m;
     let (config, p, m) =
       (case (ret, p) of
          (True, Some state) \<Rightarrow> (case t config state m of (config, state, m) \<Rightarrow> (config, Some state, m))
        | _ \<Rightarrow> (config, p, m));
     m \<leftarrow> g_free_if_set config_file m;
     m \<leftarrow> state_free p m;
     Some (ret \<and> ok, config, m)
   }"

text \<open>
  "start" releases the path only. When it waits for the container, it reads the state a second
  time, into its own variables, and releases the second path.
\<close>

definition start_wait_mem :: "oci_state option option \<Rightarrow> config_mem \<Rightarrow> mem \<Rightarrow> handler_result" where
  "start_wait_mem again config m =
     (case again of
        None \<Rightarrow> Some (True, config, m)
      | Some rd \<Rightarrow> do {
          (ret, config_file, config, _, m) \<leftarrow> get_config_and_state_mem rd config m;
          m \<leftarrow> g_free_if_set config_file m;
          Some (ret, config, m)
        })"

definition handler_start_mem ::
  "oci_state option \<Rightarrow> oci_state option option \<Rightarrow> config_mem \<Rightarrow> mem \<Rightarrow> handler_result" where
  "handler_start_mem rd again config m = do {
     (ret, config_file, config, p, m) \<leftarrow> get_config_and_state_mem rd config m;
     (ret, config, m) \<leftarrow>
       (case (ret, p) of
          (True, Some state) \<Rightarrow>
            (case config_update_mem config state of (config, _) \<Rightarrow> start_wait_mem again config m)
        | _ \<Rightarrow> Some (False, config, m));
     m \<leftarrow> g_free_if_set config_file m;
     Some (ret, config, m)
   }"

subsection \<open>list\<close>

text \<open>
  The state of a container, given by the result of reading its file. The two checks before it
  cannot fail: there is a name, and the path that is built from it has a slash.
\<close>

definition vm_get_state_mem :: "cstring \<Rightarrow> oci_state option \<Rightarrow> mem \<Rightarrow> (state_mem option \<times> mem) option" where
  "vm_get_state_mem root rd m =
     (case place_ptr root m of (r, m) \<Rightarrow>
      case (case rd of None \<Rightarrow> (None, m) | Some st \<Rightarrow> (case place_state st m of (p, m) \<Rightarrow> (Some p, m))) of
        (p, m) \<Rightarrow> do {
          (_, m) \<leftarrow> clr_oci_config_free (config_mem0\<lparr>mc_root_dir := r\<rparr>) m;
          Some (p, m)
        })"

text \<open>The directories under the root; the path that is built for each is released at once.\<close>

fun list_states_mem ::
  "cstring \<Rightarrow> oci_state option list \<Rightarrow> state_mem gslist \<Rightarrow> mem \<Rightarrow> (state_mem gslist \<times> mem) option" where
  "list_states_mem root [] vms m = Some (vms, m)"
| "list_states_mem root (rd # rds) vms m =
     (case g_malloc m of (path, m) \<Rightarrow> do {
        m \<leftarrow> g_free path m;
        (p, m) \<leftarrow> vm_get_state_mem root rd m;
        case p of
          None \<Rightarrow> list_states_mem root rds vms m
        | Some st \<Rightarrow> (case g_malloc m of (cell, m) \<Rightarrow> list_states_mem root rds (vms @ [(cell, st)]) m)
      })"

text \<open>
  \<open>str\<close> is the JSON text, when that format was asked for; when it cannot be made the list is not
  released.
\<close>

definition list_mem :: "cstring \<Rightarrow> cstring option \<Rightarrow> oci_state option list \<Rightarrow> mem \<Rightarrow> mem option" where
  "list_mem root json rds m = do {
     (vms, m) \<leftarrow> list_states_mem root rds [] m;
     case json of
       None \<Rightarrow> g_slist_free_full (\<lambda>st. state_free (Some st)) vms m
     | Some str \<Rightarrow>
         if vms = [] then Some m
         else (case place_ptr str m of
                 (None, m) \<Rightarrow> Some m
               | (p, m) \<Rightarrow> do {
                   m \<leftarrow> g_slist_free_full (\<lambda>st. state_free (Some st)) vms m;
                   g_free_if_set p m
                 })
   }"

definition handler_list_mem ::
  "cstring \<Rightarrow> cstring \<Rightarrow> cstring option \<Rightarrow> oci_state option list \<Rightarrow> config_mem \<Rightarrow> mem \<Rightarrow> handler_result" where
  "handler_list_mem format root json rds config m =
     (case place_ptr format m of (f, m) \<Rightarrow> do {
        m \<leftarrow> list_mem root json rds m;
        m \<leftarrow> g_free_if_set f m;
        Some (True, config, m)
      })"

subsection \<open>The process\<close>

definition clr_oci_log_free :: "addr option \<Rightarrow> addr option \<Rightarrow> mem \<Rightarrow> mem option" where
  "clr_oci_log_free log_filename log_global m = do {
     m \<leftarrow> g_free_if_set log_filename m;
     g_free_if_set log_global m
   }"

definition cleanup :: "addr option \<Rightarrow> addr option \<Rightarrow> addr option \<Rightarrow> addr option \<Rightarrow> mem \<Rightarrow> mem option" where
  "cleanup log_filename log_global criu root m = do {
     m \<leftarrow> clr_oci_log_free log_filename log_global m;
     m \<leftarrow> g_free_if_set criu m;
     g_free_if_set root m
   }"

text \<open>
  A process that runs a handler with logging set up. The option parser stores copies of the
  arguments; the format of the log is released when it is "json", and only then. The
  configuration is released when the handler succeeds.
\<close>

definition process_mem ::
  "global_options \<Rightarrow> cstring \<Rightarrow> (config_mem \<Rightarrow> mem \<Rightarrow> handler_result) \<Rightarrow> mem \<Rightarrow> (bool \<times> mem) option" where
  "process_mem g criu handler m =
     (case place_ptr (g_log_format g) m of (fmt, m) \<Rightarrow>
      case place_ptr (g_log_file g) m of (log, m) \<Rightarrow>
      case place_ptr (g_global_log g) m of (global_log, m) \<Rightarrow>
      case place_ptr criu m of (cr, m) \<Rightarrow>
      case place_ptr (g_root g) m of (root, m) \<Rightarrow> do {
        m \<leftarrow> (if g_log_format g = Some ''json'' then g_free_if_set fmt m else Some m);
        let (config_root, m) = place_ptr (g_root g) m;
        let (global_log, m) =
          (case global_log of
             None \<Rightarrow> (case g_malloc m of (a, m) \<Rightarrow> (Some a, m))
           | Some a \<Rightarrow> (Some a, m));
        (ret, config, m) \<leftarrow> handler (config_mem0\<lparr>mc_root_dir := config_root\<rparr>) m;
        m \<leftarrow> (if ret then map_option snd (clr_oci_config_free config m) else Some m);
        m \<leftarrow> cleanup log global_log cr root m;
        Some (ret, m)
      })"

subsection \<open>Lemmas\<close>

text \<open>A configuration that holds nothing of what a transfer gives it.\<close>

definition vacant :: "config_mem \<Rightarrow> bool" where
  "vacant c \<longleftrightarrow> mc_mounts c = [] \<and> mc_console c = None \<and> mc_vm c = None \<and> mc_prestart c = []
     \<and> mc_poststart c = [] \<and> mc_poststop c = []"

lemma owned_nothing [simp]: "owned_ptr None = []" "owned_list f [] = []" "owned_vm None = []" "owned_strv None = []"
  by (simp_all add: owned_ptr_def owned_list_def owned_vm_def owned_strv_def)

lemma owned_bundle:
  "mc_bundle_path c = None \<Longrightarrow>
     mset (owned_config (c\<lparr>mc_bundle_path := b\<rparr>)) = mset (owned_ptr b) + mset (owned_config c)"
  by (simp add: owned_config_def ac_simps)

lemma owned_root: "owned_config (config_mem0\<lparr>mc_root_dir := r\<rparr>) = owned_ptr r"
  by (simp add: owned_config_def config_mem0_def)

lemma config_free_holds:
  assumes "sound m0" and "holds m0 (mset (owned_config c) + M) m"
  shows "\<exists>c' m'. clr_oci_config_free c m = Some (c', m') \<and> holds m0 M m'"
proof -
  obtain m' where "free_list (owned_config c) m = Some m'" "holds m0 M m'" using holds_free [OF assms] by blast
  with free_config [of c m] show ?thesis by (cases "clr_oci_config_free c m") auto
qed

subsection \<open>Whole processes\<close>

lemma place_holds: "place_ptr v m = (p, m') \<Longrightarrow> holds m0 M m \<Longrightarrow> holds m0 (mset (owned_ptr p) + M) m'"
  using holds_grow ptr_grown by blast

lemma free_holds:
  "sound m0 \<Longrightarrow> holds m0 (mset (owned_ptr p) + M) m \<Longrightarrow> \<exists>m'. g_free_if_set p m = Some m' \<and> holds m0 M m'"
  using holds_free by (simp add: free_ptr)

lemma cleanup_holds:
  assumes "sound m0" and "holds m0 (mset (owned_ptr root) + mset (owned_ptr cr) + mset (owned_ptr gl)
      + mset (owned_ptr log) + M) m"
  shows "\<exists>m'. cleanup log gl cr root m = Some m' \<and> holds m0 M m'"
proof -
  have "holds m0 (mset (owned_ptr log @ owned_ptr gl @ owned_ptr cr @ owned_ptr root) + M) m"
    using assms(2) by (simp add: ac_simps)
  from holds_free [OF assms(1) this] show ?thesis
    by (simp add: cleanup_def clr_oci_log_free_def releases)
qed

text \<open>The format of the log, which "json" alone lets go.\<close>

definition format_kept :: "global_options \<Rightarrow> nat" where
  "format_kept g = (if g_log_format g \<in> {None, Some ''json''} then 0 else 1)"

text \<open>What a process does before its handler, and what it holds then.\<close>

lemma process_prefix:
  assumes m0: "sound m0"
  shows "\<exists>r m log gl cr root F. size F = format_kept g
    \<and> holds m0 (mset (owned_ptr r) + (mset (owned_ptr root) + mset (owned_ptr cr) + mset (owned_ptr gl)
        + mset (owned_ptr log) + F)) m
    \<and> process_mem g criu handler m0 = do {
        (ret, config, m) \<leftarrow> handler (config_mem0\<lparr>mc_root_dir := r\<rparr>) m;
        m \<leftarrow> (if ret then map_option snd (clr_oci_config_free config m) else Some m);
        m \<leftarrow> cleanup log gl cr root m;
        Some (ret, m)
      }"
proof -
  obtain fmt m1 where 1: "place_ptr (g_log_format g) m0 = (fmt, m1)" by fastforce
  obtain log m2 where 2: "place_ptr (g_log_file g) m1 = (log, m2)" by fastforce
  obtain gl m3 where 3: "place_ptr (g_global_log g) m2 = (gl, m3)" by fastforce
  obtain cr m4 where 4: "place_ptr criu m3 = (cr, m4)" by fastforce
  obtain root m5 where 5: "place_ptr (g_root g) m4 = (root, m5)" by fastforce
  let ?O = "mset (owned_ptr root) + mset (owned_ptr cr) + mset (owned_ptr gl) + mset (owned_ptr log)"
  let ?json = "g_log_format g = Some ''json''"
  define F where "F = (if ?json then {#} else mset (owned_ptr fmt))"
  have size_F: "size F = format_kept g"
    using 1 by (auto simp: F_def format_kept_def place_ptr_def owned_ptr_def split: option.splits prod.splits)
  have "holds m0 (mset (owned_ptr root) + (mset (owned_ptr cr) + (mset (owned_ptr gl) + (mset (owned_ptr log)
      + (mset (owned_ptr fmt) + {#}))))) m5"
    by (intro place_holds [OF 5] place_holds [OF 4] place_holds [OF 3] place_holds [OF 2] place_holds [OF 1] holds_none)
  then have h5: "holds m0 (mset (owned_ptr fmt) + ?O) m5" by (simp add: ac_simps)
  obtain m6 where 6: "(if ?json then g_free_if_set fmt m5 else Some m5) = Some m6"
    and h6: "holds m0 (F + ?O) m6"
    using free_holds [OF m0 h5] h5 that by (cases ?json) (auto simp: F_def)
  obtain cfg_root m7 where 7: "place_ptr (g_root g) m6 = (cfg_root, m7)" by fastforce
  obtain gl' m8 where 8: "(case gl of None \<Rightarrow> (case g_malloc m7 of (a, m) \<Rightarrow> (Some a, m)) | Some a \<Rightarrow> (Some a, m7)) = (gl', m8)"
    by fastforce
  let ?O' = "mset (owned_ptr root) + mset (owned_ptr cr) + mset (owned_ptr gl') + mset (owned_ptr log)"
  have "holds m0 (mset (owned_ptr cfg_root) + (?O' + F)) m8"
  proof (cases gl)
    case None
    then have "grown m7 (owned_ptr gl') m8"
      using 8 by (auto simp: owned_ptr_def dest: malloc_grown split: prod.splits)
    from holds_grow [OF place_holds [OF 7 h6] this] show ?thesis
      using None by (simp add: owned_ptr_def [of None] ac_simps)
  next
    case (Some a)
    then show ?thesis using 8 place_holds [OF 7 h6] by (simp add: ac_simps)
  qed
  with size_F show ?thesis
    by (intro exI [of _ cfg_root] exI [of _ m8] exI [of _ log] exI [of _ gl'] exI [of _ cr] exI [of _ root] exI [of _ F] conjI)
      (simp_all add: process_mem_def 1 2 3 4 5 6 7 8)
qed

text \<open>A handler that accounts for what it allocates makes a process that does.\<close>

lemma process_holds:
  assumes m0: "sound m0"
    and handler: "\<And>r m Z. holds m0 (mset (owned_ptr r) + Z) m \<Longrightarrow>
      \<exists>c' lost m'. handler (config_mem0\<lparr>mc_root_dir := r\<rparr>) m = Some (ret, c', m')
        \<and> holds m0 (mset (owned_config c') + (mset lost + Z)) m' \<and> P lost"
  shows "\<exists>c' lost F m'. process_mem g criu handler m0 = Some (ret, m') \<and> P lost \<and> size F = format_kept g
    \<and> holds m0 ((if ret then {#} else mset (owned_config c')) + mset lost + F) m'"
proof -
  obtain r m log gl cr root F where F: "size F = format_kept g"
    and h: "holds m0 (mset (owned_ptr r) + (mset (owned_ptr root) + mset (owned_ptr cr) + mset (owned_ptr gl)
        + mset (owned_ptr log) + F)) m"
    and p: "process_mem g criu handler m0 = do {
        (ret, config, m) \<leftarrow> handler (config_mem0\<lparr>mc_root_dir := r\<rparr>) m;
        m \<leftarrow> (if ret then map_option snd (clr_oci_config_free config m) else Some m);
        m \<leftarrow> cleanup log gl cr root m;
        Some (ret, m)
      }"
    using process_prefix [OF m0, of g criu handler] by blast
  let ?O = "mset (owned_ptr root) + mset (owned_ptr cr) + mset (owned_ptr gl) + mset (owned_ptr log)"
  from handler [OF h] obtain c' lost m9 where 9: "handler (config_mem0\<lparr>mc_root_dir := r\<rparr>) m = Some (ret, c', m9)"
    and h9: "holds m0 (mset (owned_config c') + (mset lost + (?O + F))) m9" and P: "P lost" by blast
  let ?rest = "(if ret then {#} else mset (owned_config c')) + mset lost + F"
  obtain m10 where 10: "(if ret then map_option snd (clr_oci_config_free c' m9) else Some m9) = Some m10"
    and h10: "holds m0 (?O + ?rest) m10"
  proof (cases ret)
    case True
    with config_free_holds [OF m0 h9] that show thesis by (auto simp: ac_simps)
  next
    case False
    with h9 that show thesis by (auto simp: ac_simps)
  qed
  from cleanup_holds [OF m0 h10] obtain m11 where "cleanup log gl cr root m10 = Some m11" "holds m0 ?rest m11" by blast
  then have "process_mem g criu handler m0 = Some (ret, m11)" using 9 10 by (simp add: p)
  with F P \<open>holds m0 ?rest m11\<close> show ?thesis by blast
qed

lemma config0_vacant: "vacant (config_mem0\<lparr>mc_root_dir := r\<rparr>)" "mc_bundle_path (config_mem0\<lparr>mc_root_dir := r\<rparr>) = None"
  by (simp_all add: vacant_def config_mem0_def)

text \<open>The state and the configuration after a successful read.\<close>

lemma read_holds:
  assumes h: "holds m0 M m" and path: "clr_oci_config_file_path (s_bundle_path st) \<noteq> None"
  shows "\<exists>f b p m1 m'. get_config_and_state_mem (Some st) c m =
      Some (True, Some f, c\<lparr>mc_bundle_path := b\<rparr>, Some p, m') \<and> b \<noteq> None \<and> place_state st m = (p, m1)
    \<and> holds m0 (mset (owned_ptr (Some f)) + (mset (owned_ptr b) + (mset (owned_state p) + M))) m'"
proof -
  obtain p m1 where p: "place_state st m = (p, m1)" by fastforce
  obtain b m2 where b: "place_ptr (s_bundle_path st) m1 = (b, m2)" by fastforce
  obtain f m3 where f: "place_ptr (clr_oci_config_file_path (s_bundle_path st)) m2 = (Some f, m3)"
  proof -
    obtain y where "clr_oci_config_file_path (s_bundle_path st) = Some y" using path by blast
    then show ?thesis by (intro that) (simp add: place_ptr_def g_malloc_def)
  qed
  have "holds m0 (mset (owned_ptr (Some f)) + (mset (owned_ptr b) + (mset (owned_state p) + M))) m3"
    by (intro holds_grow [OF _ ptr_grown [OF f]] holds_grow [OF _ ptr_grown [OF b]]
        holds_grow [OF _ state_grown [OF p]] h)
  moreover have "b \<noteq> None"
    using b path by (auto simp: place_ptr_def clr_oci_config_file_path_def split: option.splits prod.splits)
  ultimately show ?thesis using p b f by (auto simp: get_config_and_state_mem_def)
qed

locale transfers =
  fixes t :: transfer
  assumes conserves: "vacant c \<Longrightarrow> t c st m = (c', st', m') \<Longrightarrow>
    \<exists>as. grown m as m' \<and> mset (owned_config c') + mset (owned_state st') =
      mset as + mset (owned_config c) + mset (owned_state st)"
begin

lemma handler_balanced:
  assumes m0: "sound m0" and h: "holds m0 (mset (owned_config c) + Z) m" and v: "vacant c" "mc_bundle_path c = None"
    and path: "\<And>st. rd = Some st \<Longrightarrow> clr_oci_config_file_path (s_bundle_path st) \<noteq> None"
  shows "\<exists>c' m'. handler_mem t ok rd c m = Some (rd \<noteq> None \<and> ok, c', m') \<and> holds m0 (mset (owned_config c') + Z) m'"
proof (cases rd)
  case None
  then show ?thesis
    using h by (simp add: handler_mem_def get_config_and_state_mem_def g_free_if_set_def state_free_def)
next
  case (Some st)
  obtain f b p m3 where g: "get_config_and_state_mem (Some st) c m = Some (True, Some f, c\<lparr>mc_bundle_path := b\<rparr>, Some p, m3)"
    and h3: "holds m0 (mset (owned_ptr (Some f)) + (mset (owned_ptr b) + (mset (owned_state p) + (mset (owned_config c) + Z)))) m3"
    using read_holds [OF h path [OF Some]] by blast
  let ?c = "c\<lparr>mc_bundle_path := b\<rparr>"
  have "vacant ?c" using v(1) by (simp add: vacant_def)
  obtain c' p' m4 where t: "t ?c p m3 = (c', p', m4)" by (cases "t ?c p m3")
  from conserves [OF \<open>vacant ?c\<close> t] obtain as where as: "grown m3 as m4"
    "mset (owned_config c') + mset (owned_state p') = mset as + mset (owned_config ?c) + mset (owned_state p)" by blast
  have "mset as + (mset (owned_ptr (Some f)) + (mset (owned_ptr b) + (mset (owned_state p) + (mset (owned_config c) + Z)))) =
      mset (owned_ptr (Some f)) + (mset (owned_state p') + (mset (owned_config c') + Z))"
    using as(2) unfolding owned_bundle [OF v(2)] by (simp add: ac_simps)
  with holds_grow [OF h3 as(1)]
  have "holds m0 (mset (owned_ptr (Some f)) + (mset (owned_state p') + (mset (owned_config c') + Z))) m4" by simp
  from free_holds [OF m0 this] obtain m5 where m5: "g_free_if_set (Some f) m4 = Some m5"
    "holds m0 (mset (owned_state p') + (mset (owned_config c') + Z)) m5" by blast
  from holds_free [OF m0 m5(2)] obtain m6 where m6: "state_free (Some p') m5 = Some m6"
    "holds m0 (mset (owned_config c') + Z) m6" by (auto simp: free_state)
  have "handler_mem t ok rd c m = Some (rd \<noteq> None \<and> ok, c', m6)"
    using m5(1) m6(1) by (simp add: handler_mem_def g Some t)
  with m6(2) show ?thesis by blast
qed

lemma process_balanced:
  assumes m0: "sound m0"
    and path: "\<And>st. rd = Some st \<Longrightarrow> clr_oci_config_file_path (s_bundle_path st) \<noteq> None"
  shows "\<exists>c' F m'. process_mem g criu (handler_mem t ok rd) m0 = Some (rd \<noteq> None \<and> ok, m') \<and> size F = format_kept g
    \<and> holds m0 ((if rd \<noteq> None \<and> ok then {#} else mset (owned_config c')) + F) m'"
proof -
  have *: "\<exists>c' lost m'. handler_mem t ok rd (config_mem0\<lparr>mc_root_dir := r\<rparr>) m = Some (rd \<noteq> None \<and> ok, c', m')
      \<and> holds m0 (mset (owned_config c') + (mset lost + Z)) m' \<and> lost = []"
    if "holds m0 (mset (owned_ptr r) + Z) m" for r m Z
    using handler_balanced [OF m0 _ config0_vacant path, of r Z m] that by (simp add: owned_root)
  from process_holds [where P = "\<lambda>lost. lost = []" and handler = "handler_mem t ok rd", OF m0 *]
  show ?thesis by fastforce
qed

end

lemma update_conserves:
  assumes "vacant c" and "config_update_mem c st = (c', st')"
  shows "mset (owned_config c') + mset (owned_state st') = mset (owned_config c) + mset (owned_state st)"
  using assms
  by (auto simp: config_update_mem_def vacant_def owned_config_def owned_state_def ac_simps split: if_splits)

interpretation keep: transfers keep_transfer
  by unfold_locales (auto simp: keep_transfer_def intro: exI [of _ "[]"])

interpretation update: transfers update_transfer
  using update_conserves by unfold_locales (fastforce simp: update_transfer_def split: prod.splits intro: exI [of _ "[]"])

interpretation stop: transfers "stop_transfer hs" for hs
proof
  fix c st m c' st' m'
  assume v: "vacant c" and t: "stop_transfer hs c st m = (c', st', m')"
  then obtain h1 m1 h2 m2 h3 where h: "place_list place_hook (prestart hs) m = (h1, m1)"
    "place_list place_hook (poststart hs) m1 = (h2, m2)" "place_list place_hook (poststop hs) m2 = (h3, m')"
    and c': "c' = c\<lparr>mc_prestart := h1, mc_poststart := h2, mc_poststop := h3, mc_mounts := ms_mounts st\<rparr>"
    and st': "st' = st\<lparr>ms_mounts := []\<rparr>"
    by (auto simp: stop_transfer_def split: prod.splits)
  let ?as = "owned_list owned_hook h1 @ owned_list owned_hook h2 @ owned_list owned_hook h3"
  have "grown m ?as m'" using h hooks_place.list_grown grown_append by meson
  moreover have "mset (owned_config c') + mset (owned_state st') =
      mset ?as + mset (owned_config c) + mset (owned_state st)"
    using v by (simp add: c' st' vacant_def owned_config_def owned_state_def ac_simps)
  ultimately show "\<exists>as. grown m as m' \<and> mset (owned_config c') + mset (owned_state st') =
      mset as + mset (owned_config c) + mset (owned_state st)" by blast
qed

subsection \<open>start, list and the second release\<close>

lemma handler_crashes:
  assumes m0: "sound m0" and h: "holds m0 M m" and path: "clr_oci_config_file_path (s_bundle_path st) = None"
  shows "handler_mem t ok (Some st) c m = None"
proof -
  obtain p m1 where p: "place_state st m = (p, m1)" by fastforce
  obtain b m2 where b: "place_ptr (s_bundle_path st) m1 = (b, m2)" by fastforce
  have "holds m0 (mset (owned_state p) + (mset (owned_ptr b) + M)) m2"
    using holds_grow [OF holds_grow [OF h state_grown [OF p]] ptr_grown [OF b]] by (simp add: ac_simps)
  from holds_free [OF m0 this] obtain m3 where m3: "free_list (owned_state p) m2 = Some m3" by blast
  have "ms_block p \<in> set (owned_state p)" by (simp add: owned_state_def)
  moreover from this have "ms_block p \<notin> live m3" using m3 by (auto simp: free_list_iff split: if_splits)
  ultimately have "free_list (owned_state p) m3 = None" by (auto simp: free_list_iff)
  then have twice: "state_free (Some p) m3 = None" "state_free (Some p) m2 = Some m3"
    using m3 by (simp_all only: free_state)
  have none: "place_ptr None m2 = (None, m2)" "g_free_if_set None m3 = Some m3"
    by (simp_all add: place_ptr_def g_free_if_set_def)
  show ?thesis
    by (simp add: handler_mem_def get_config_and_state_mem_def p b path none twice)
qed

text \<open>What "start" loses: the first state without what moved, and what the wait adds.\<close>

definition start_loses :: "oci_state option option \<Rightarrow> addr list \<Rightarrow> bool" where
  "start_loses again lost \<longleftrightarrow> (\<exists>p. ms_mounts p = [] \<and> ms_console p = None \<and> ms_vm p = None \<and>
     (case again of
        None \<Rightarrow> lost = owned_state p
      | Some _ \<Rightarrow> \<exists>b p2. lost = owned_state p @ [b] @ owned_state p2))"

lemma update_keeps_nothing:
  "config_update_mem c st = (c', st') \<Longrightarrow> ms_mounts st' = [] \<and> ms_console st' = None \<and> ms_vm st' = None
     \<and> mc_bundle_path c' = mc_bundle_path c"
  by (auto simp: config_update_mem_def split: if_splits)

lemma start_transfers:
  assumes h: "holds m0 (mset (owned_ptr r) + Z) m" and path: "clr_oci_config_file_path (s_bundle_path st) \<noteq> None"
  shows "\<exists>f a cb p c1 p1 m1. get_config_and_state_mem (Some st) (config_mem0\<lparr>mc_root_dir := r\<rparr>) m =
      Some (True, Some f, cb, Some p, m1) \<and> config_update_mem cb p = (c1, p1) \<and> mc_bundle_path c1 = Some a
    \<and> holds m0 (mset (owned_config c1) + (mset (owned_ptr (Some f)) + (mset (owned_state p1) + Z))) m1"
proof -
  let ?c = "config_mem0\<lparr>mc_root_dir := r\<rparr>"
  obtain f b p m1 where g: "get_config_and_state_mem (Some st) ?c m = Some (True, Some f, ?c\<lparr>mc_bundle_path := b\<rparr>, Some p, m1)"
    and b: "b \<noteq> None"
    and h1: "holds m0 (mset (owned_ptr (Some f)) + (mset (owned_ptr b) + (mset (owned_state p) + (mset (owned_ptr r) + Z)))) m1"
    using read_holds [OF h path] by blast
  let ?cb = "?c\<lparr>mc_bundle_path := b\<rparr>"
  have v: "vacant ?cb" using config0_vacant(1) [of r] by (simp add: vacant_def)
  obtain c1 p1 where u: "config_update_mem ?cb p = (c1, p1)" by fastforce
  have eq: "mset (owned_config c1) + mset (owned_state p1) = mset (owned_ptr b) + mset (owned_ptr r) + mset (owned_state p)"
    using update_conserves [OF v u] unfolding owned_bundle [OF config0_vacant(2)] owned_root by simp
  have "mset (owned_ptr (Some f)) + (mset (owned_ptr b) + (mset (owned_state p) + (mset (owned_ptr r) + Z))) =
      mset (owned_ptr (Some f)) + (mset (owned_ptr b) + mset (owned_ptr r) + mset (owned_state p)) + Z"
    by (simp add: ac_simps)
  also have "\<dots> = mset (owned_config c1) + (mset (owned_ptr (Some f)) + (mset (owned_state p1) + Z))"
    unfolding eq [symmetric] by (simp add: ac_simps)
  finally have "holds m0 (mset (owned_config c1) + (mset (owned_ptr (Some f)) + (mset (owned_state p1) + Z))) m1"
    using h1 by (simp only:)
  moreover obtain a where "mc_bundle_path c1 = Some a" using update_keeps_nothing [OF u] b by auto
  ultimately show ?thesis using g u by blast
qed

lemma start_holds:
  assumes m0: "sound m0" and h: "holds m0 (mset (owned_ptr r) + Z) m"
    and path: "clr_oci_config_file_path (s_bundle_path st) \<noteq> None"
    and again: "again = None \<or> (\<exists>st2. again = Some (Some st2) \<and> clr_oci_config_file_path (s_bundle_path st2) \<noteq> None)"
  shows "\<exists>c' lost m'. handler_start_mem (Some st) again (config_mem0\<lparr>mc_root_dir := r\<rparr>) m = Some (True, c', m')
    \<and> holds m0 (mset (owned_config c') + (mset lost + Z)) m' \<and> start_loses again lost"
proof -
  let ?c = "config_mem0\<lparr>mc_root_dir := r\<rparr>"
  obtain f a cb p c1 p1 m1 where g: "get_config_and_state_mem (Some st) ?c m = Some (True, Some f, cb, Some p, m1)"
    and u: "config_update_mem cb p = (c1, p1)" and a: "mc_bundle_path c1 = Some a"
    and h2: "holds m0 (mset (owned_config c1) + (mset (owned_ptr (Some f)) + (mset (owned_state p1) + Z))) m1"
    using start_transfers [OF h path] by blast
  note e = update_keeps_nothing [OF u]
  show ?thesis
  proof (cases again)
    case None
    have "holds m0 (mset (owned_ptr (Some f)) + (mset (owned_config c1) + (mset (owned_state p1) + Z))) m1"
      using h2 by (simp add: ac_simps)
    from free_holds [OF m0 this] obtain m2 where m2: "g_free_if_set (Some f) m1 = Some m2"
      "holds m0 (mset (owned_config c1) + (mset (owned_state p1) + Z)) m2" by blast
    have "handler_start_mem (Some st) again ?c m = Some (True, c1, m2)"
      using m2(1) by (simp add: handler_start_mem_def start_wait_mem_def None g u)
    with m2(2) e None show ?thesis by (auto simp: start_loses_def)
  next
    case (Some rd2)
    with again obtain st2 where st2: "again = Some (Some st2)" "clr_oci_config_file_path (s_bundle_path st2) \<noteq> None" by auto
    obtain f2 b2 p2 m2 where g2: "get_config_and_state_mem (Some st2) c1 m1 = Some (True, Some f2, c1\<lparr>mc_bundle_path := b2\<rparr>, Some p2, m2)"
      and h3: "holds m0 (mset (owned_ptr (Some f2)) + (mset (owned_ptr b2) + (mset (owned_state p2) + (mset (owned_config c1)
        + (mset (owned_ptr (Some f)) + (mset (owned_state p1) + Z)))))) m2"
      using read_holds [OF h2 st2(2)] by blast
    let ?c2 = "c1\<lparr>mc_bundle_path := b2\<rparr>"
    have moved: "mset (owned_ptr b2) + mset (owned_config c1) = mset (owned_config ?c2) + mset [a]"
      by (simp add: a owned_config_def owned_ptr_def [of "Some a"] ac_simps)
    let ?lost = "owned_state p1 @ [a] @ owned_state p2"
    have "mset (owned_ptr (Some f2)) + (mset (owned_ptr b2) + (mset (owned_state p2) + (mset (owned_config c1)
        + (mset (owned_ptr (Some f)) + (mset (owned_state p1) + Z))))) =
      mset (owned_ptr (Some f2)) + (mset (owned_ptr (Some f)) + ((mset (owned_ptr b2) + mset (owned_config c1))
        + (mset (owned_state p1) + mset (owned_state p2) + Z)))" by (simp add: ac_simps)
    also have "\<dots> = mset (owned_ptr (Some f2)) + (mset (owned_ptr (Some f)) + (mset (owned_config ?c2) + (mset ?lost + Z)))"
      unfolding moved by (simp add: ac_simps)
    finally have "holds m0 (mset (owned_ptr (Some f2)) + (mset (owned_ptr (Some f)) + (mset (owned_config ?c2) + (mset ?lost + Z)))) m2"
      using h3 by (simp only:)
    from free_holds [OF m0 this] obtain m3 where m3: "g_free_if_set (Some f2) m2 = Some m3"
      and h4: "holds m0 (mset (owned_ptr (Some f)) + (mset (owned_config ?c2) + (mset ?lost + Z))) m3" by blast
    from free_holds [OF m0 h4] obtain m4 where m4: "g_free_if_set (Some f) m3 = Some m4"
      and h5: "holds m0 (mset (owned_config ?c2) + (mset ?lost + Z)) m4" by blast
    have "handler_start_mem (Some st) again ?c m = Some (True, ?c2, m4)"
      using m3 m4 by (simp add: handler_start_mem_def start_wait_mem_def st2 g g2 u)
    with h5 e st2 show ?thesis unfolding start_loses_def by (intro exI conjI; assumption?) auto
  qed
qed

text \<open>The list of the states, as it grows and as it goes.\<close>

interpretation states_release: releaser "\<lambda>st. state_free (Some st)" owned_state
  by unfold_locales (rule free_state)

lemma owned_list_snoc: "mset (owned_list f (l @ [(a, x)])) = mset (owned_list f l) + mset (f x) + {#a#}"
  by (simp add: owned_list_def ac_simps)

lemma vm_get_state_holds:
  assumes m0: "sound m0" and h: "holds m0 M m"
  shows "\<exists>p m'. vm_get_state_mem root rd m = Some (p, m')
    \<and> holds m0 ((case p of None \<Rightarrow> {#} | Some st \<Rightarrow> mset (owned_state st)) + M) m'"
proof -
  obtain r m1 where r: "place_ptr root m = (r, m1)" by fastforce
  have h1: "holds m0 (mset (owned_ptr r) + M) m1" by (rule place_holds [OF r h])
  obtain p m2 where p: "(case rd of None \<Rightarrow> (None, m1) | Some st \<Rightarrow> (case place_state st m1 of (p, m) \<Rightarrow> (Some p, m))) = (p, m2)"
    by fastforce
  let ?S = "case p of None \<Rightarrow> {#} | Some st \<Rightarrow> mset (owned_state st)"
  have "holds m0 (?S + (mset (owned_ptr r) + M)) m2"
    using p h1 holds_grow [OF h1 state_grown] by (auto split: option.splits prod.splits)
  then have "holds m0 (mset (owned_config (config_mem0\<lparr>mc_root_dir := r\<rparr>)) + (?S + M)) m2"
    by (simp add: owned_root ac_simps)
  from config_free_holds [OF m0 this] obtain c' m3 where
    "clr_oci_config_free (config_mem0\<lparr>mc_root_dir := r\<rparr>) m2 = Some (c', m3)" "holds m0 (?S + M) m3" by blast
  with r p show ?thesis by (auto simp: vm_get_state_mem_def)
qed

lemma list_states_holds:
  "sound m0 \<Longrightarrow> holds m0 (mset (owned_list owned_state vms) + M) m \<Longrightarrow>
     \<exists>vms' m'. list_states_mem root rds vms m = Some (vms', m') \<and> holds m0 (mset (owned_list owned_state vms') + M) m'"
proof (induction rds arbitrary: vms m)
  case (Cons rd rds)
  obtain path m1 where path: "g_malloc m = (path, m1)" by fastforce
  from holds_free [OF Cons.prems(1) holds_grow [OF Cons.prems(2) malloc_grown [OF path]]]
  obtain m2 where m2: "g_free path m1 = Some m2" "holds m0 (mset (owned_list owned_state vms) + M) m2"
    by auto
  from vm_get_state_holds [OF Cons.prems(1) m2(2)] obtain p m3 where p: "vm_get_state_mem root rd m2 = Some (p, m3)"
    and h3: "holds m0 ((case p of None \<Rightarrow> {#} | Some st \<Rightarrow> mset (owned_state st)) + (mset (owned_list owned_state vms) + M)) m3"
    by blast
  show ?case
  proof (cases p)
    case None
    with h3 Cons.IH [OF Cons.prems(1), of vms m3] path m2 p show ?thesis by simp
  next
    case (Some st)
    obtain cell m4 where cell: "g_malloc m3 = (cell, m4)" by fastforce
    from holds_grow [OF h3 malloc_grown [OF cell]]
    have "holds m0 (mset (owned_list owned_state (vms @ [(cell, st)])) + M) m4"
      by (simp add: Some owned_list_snoc ac_simps)
    from Cons.IH [OF Cons.prems(1) this] path m2 p Some cell show ?thesis by simp
  qed
qed simp

lemma list_holds:
  assumes m0: "sound m0" and h: "holds m0 M m" and json: "json \<noteq> Some None"
  shows "\<exists>m'. list_mem root json rds m = Some m' \<and> holds m0 M m'"
proof -
  from list_states_holds [of m0 "[]" M m root rds] m0 h
  obtain vms m1 where l: "list_states_mem root rds [] m = Some (vms, m1)" "holds m0 (mset (owned_list owned_state vms) + M) m1"
    by auto
  note rel = states_release.release_list
  show ?thesis
  proof (cases json)
    case None
    with l holds_free [OF m0 l(2)] show ?thesis by (simp add: list_mem_def rel)
  next
    case (Some str)
    with json obtain s where str: "str = Some s" by auto
    obtain a m2 where a: "place_ptr str m1 = (Some a, m2)" by (simp add: str place_ptr_def g_malloc_def)
    from holds_free [OF m0, of "owned_list owned_state vms" "mset (owned_ptr (Some a)) + M" m2] place_holds [OF a l(2)]
    obtain m3 where m3: "free_list (owned_list owned_state vms) m2 = Some m3" "holds m0 (mset (owned_ptr (Some a)) + M) m3"
      by (auto simp: ac_simps)
    from free_holds [OF m0 m3(2)] l m3(1) Some a show ?thesis
      by (cases "vms = []") (auto simp: list_mem_def rel)
  qed
qed

lemma handler_list_holds:
  assumes m0: "sound m0" and h: "holds m0 M m" and json: "json \<noteq> Some None"
  shows "\<exists>m'. handler_list_mem format root json rds c m = Some (True, c, m') \<and> holds m0 M m'"
proof -
  obtain f m1 where f: "place_ptr format m = (f, m1)" by fastforce
  from list_holds [OF m0 place_holds [OF f h] json] obtain m2 where
    m2: "list_mem root json rds m1 = Some m2" "holds m0 (mset (owned_ptr f) + M) m2" by blast
  from free_holds [OF m0 m2(2)] f m2(1) show ?thesis by (auto simp: handler_list_mem_def)
qed

subsection \<open>Properties\<close>







text \<open>How the pointer that the commands keep stands for a state in memory.\<close>

definition points_to :: "state_ptr \<Rightarrow> state_mem option \<Rightarrow> mem \<Rightarrow> bool" where
  "points_to ptr p m \<longleftrightarrow>
     (case ptr of
        NoState \<Rightarrow> p = None
      | Live st \<Rightarrow> \<exists>x m1 m2. p = Some x \<and> place_state st m1 = (x, m2) \<and> distinct (owned_state x)
          \<and> set (owned_state x) \<subseteq> live m
      | Dangling \<Rightarrow> \<exists>x. p = Some x \<and> set (owned_state x) \<inter> live m = {})"

lemma points_to_free: "points_to ptr p m \<Longrightarrow> state_free p m = None \<longleftrightarrow> clr_oci_state_free ptr = None"
proof (cases ptr)
  case Dangling
  assume "points_to ptr p m"
  with Dangling obtain x where x: "p = Some x" "set (owned_state x) \<inter> live m = {}" by (auto simp: points_to_def)
  moreover have "ms_block x \<in> set (owned_state x)" by (simp add: owned_state_def)
  ultimately have "\<not> set (owned_state x) \<subseteq> live m" by blast
  with x Dangling show ?thesis by (simp add: free_state free_list_iff clr_oci_state_free_def)
qed (auto simp: points_to_def state_free_def [of None] free_state free_list_iff clr_oci_state_free_def)

text \<open>The result of the read in an operation on the state.\<close>

definition state_read :: "env \<Rightarrow> clr_oci_config \<Rightarrow> world \<Rightarrow> oci_state option" where
  "state_read E config w =
     (case clr_oci_runtime_path_get config of
        (False, _) \<Rightarrow> None
      | (True, config) \<Rightarrow>
          (case clr_oci_state_file_get config of
             (False, _) \<Rightarrow> None
           | (True, config) \<Rightarrow> Option.bind (clr_oci_state_file_read E (Some (state_file_path (cstate config))) w) fst))"

lemma get_state_cases:
  assumes "clr_oci_get_config_and_state E config w = Some (ret, cf, config', ptr, w')"
  shows "case ptr of
      NoState \<Rightarrow> \<not> ret \<and> cf = None \<and> state_read E config w = None
    | Live st \<Rightarrow> ret \<and> cf \<noteq> None \<and> state_read E config w = Some st \<and> clr_oci_config_file_path (s_bundle_path st) \<noteq> None
    | Dangling \<Rightarrow> \<not> ret \<and> cf = None \<and> (\<exists>st. state_read E config w = Some st \<and> clr_oci_config_file_path (s_bundle_path st) = None)"
  using assms
  by (auto simp: clr_oci_get_config_and_state_def state_read_def Let_def
      split: prod.splits bool.splits option.splits Option.bind_splits; metis)

text \<open>
  C13. The pointer to the state as the operations treat it, none, live or dangling, is what it is
  in memory after the state was read, and releasing it fails in the one exactly when it fails in
  the other.
\<close>

theorem state_pointer_refined:
  assumes "sound m" and "clr_oci_get_config_and_state E config w = Some (ret, cf, config', ptr, w')"
  shows "\<exists>f c' p m'. get_config_and_state_mem (state_read E config w) c m = Some (ret, f, c', p, m')
    \<and> (f = None \<longleftrightarrow> cf = None) \<and> points_to ptr p m' \<and> (state_free p m' = None \<longleftrightarrow> clr_oci_state_free ptr = None)"
proof -
  have "\<exists>f c' p m'. get_config_and_state_mem (state_read E config w) c m = Some (ret, f, c', p, m')
    \<and> (f = None \<longleftrightarrow> cf = None) \<and> points_to ptr p m'"
  proof (cases ptr)
    case NoState
    with get_state_cases [OF assms(2)] have "\<not> ret" "cf = None" "state_read E config w = None" by simp_all
    then show ?thesis using NoState by (simp add: get_config_and_state_mem_def points_to_def)
  next
    case (Live st)
    with get_state_cases [OF assms(2)] have ret: "ret" "cf \<noteq> None" "state_read E config w = Some st"
      and path: "clr_oci_config_file_path (s_bundle_path st) \<noteq> None" by simp_all
    obtain f b p m1 m' where g: "get_config_and_state_mem (Some st) c m = Some (True, Some f, c\<lparr>mc_bundle_path := b\<rparr>, Some p, m')"
      and p: "place_state st m = (p, m1)"
      and h: "holds m (mset (owned_ptr (Some f)) + (mset (owned_ptr b) + (mset (owned_state p) + {#}))) m'"
      using read_holds [OF holds_none path] by blast
    from h obtain as where "mset as = mset (owned_ptr (Some f) @ owned_ptr b @ owned_state p)" "grown m as m'"
      by (auto simp: holds_def)
    then have "grown m (owned_ptr (Some f) @ owned_ptr b @ owned_state p) m'" using grown_perm by blast
    then have "distinct (owned_state p)" "set (owned_state p) \<subseteq> live m'" by (auto simp: grown_def)
    then show ?thesis using g ret p Live by (auto simp: points_to_def)
  next
    case Dangling
    with get_state_cases [OF assms(2)] obtain st where ret: "\<not> ret" "cf = None" "state_read E config w = Some st"
      and path: "clr_oci_config_file_path (s_bundle_path st) = None" by auto
    obtain p m1 where p: "place_state st m = (p, m1)" by fastforce
    obtain b m2 where b: "place_ptr (s_bundle_path st) m1 = (b, m2)" by fastforce
    have "holds m (mset (owned_state p) + (mset (owned_ptr b) + {#})) m2"
      using holds_grow [OF holds_grow [OF holds_none state_grown [OF p]] ptr_grown [OF b]] by (simp add: ac_simps)
    from holds_free [OF assms(1) this] obtain m3 where m3: "free_list (owned_state p) m2 = Some m3" by blast
    then have "set (owned_state p) \<inter> live m3 = {}" by (auto simp: free_list_iff split: if_splits)
    then show ?thesis
      using Dangling ret m3
      by (simp add: get_config_and_state_mem_def p b path place_ptr_def [of None] free_state points_to_def)
  qed
  then show ?thesis using points_to_free by blast
qed

lemma state_pointer_refined_witness:
  "\<exists>f c' p m'. get_config_and_state_mem (state_read (disk_env bare_disk) (config0\<lparr>optarg_container_id := Some ''web''\<rparr>) [])
     config_mem0 \<lparr>live = {7}, next_addr = 8\<rparr> = Some (False, f, c', p, m') \<and> state_free p m' = None"
proof -
  let ?E = "disk_env bare_disk"
  have f: "faithful ?E bare_disk (state_path None (k_id bare))"
    "stored ?E bare_disk None [] bare" "readable bare" "k_id bare = ''web''"
    "s_bundle_path (state_of bare) = Some []" "s_comms_path (state_of bare) = Some (k_comms web)"
    by (simp_all add: faithful_def disk_env_ok stored_def bare_disk_def readable_def bare_def web_def vm_fits_def
        PATH_MAX_def state_of_def) (simp_all add: disk_env_def)
  obtain rep where "clr_oci_state_file_read ?E (Some (state_path None ''web'')) [] =
     Some (Some (state_of bare), [(FileGet (state_path None ''web''), rep)])"
    using read_stored [OF f(1,2,3)] f(4) by auto
  from get_no_bundle [OF this f(5,6)] obtain config w' where
    "clr_oci_get_config_and_state ?E ((base None)\<lparr>optarg_container_id := Some ''web''\<rparr>) [] = Some (False, None, config, Dangling, w')"
    by blast
  from state_pointer_refined [OF _ this, of "\<lparr>live = {7}, next_addr = 8\<rparr>" config_mem0] show ?thesis
    by (auto simp: sound_def clr_oci_state_free_def config0_def)
qed

end
