(* ===== verification/Hook_Loop.thy ===== *)
theory Hook_Loop
  imports Process Logging
begin

text \<open>
  The loop in which \<^verbatim>\<open>clr_run_hook\<close> (\<^verbatim>\<open>src/process.c\<close>) waits for a hook: the watchers
  of the hook's output, which go to the log, and the watcher of its end, which stops the loop.
  In Process the loop is one call that answers with the exit status.
\<close>

subsection \<open>The watchers\<close>

definition G_IO_IN :: nat where "G_IO_IN = 1"
definition G_IO_HUP :: nat where "G_IO_HUP = 16"
definition STDOUT_FILENO :: nat where "STDOUT_FILENO = 1"
definition STDERR_FILENO :: nat where "STDERR_FILENO = 2"

type_synonym log_entry = "nat \<times> string"

text \<open>
  A line that the channel gives, \<^term>\<open>None\<close> at the end of the stream, is logged as a message or as
  a warning; only a hang-up with nothing to read removes the watch.
\<close>

definition clr_oci_output_watcher :: "nat \<Rightarrow> nat \<Rightarrow> cstring \<Rightarrow> bool \<times> log_entry list" where
  "clr_oci_output_watcher cond stream line =
     (if cond = G_IO_HUP then (False, [])
      else (True, [(if STDOUT_FILENO = stream then G_LOG_LEVEL_MESSAGE else G_LOG_LEVEL_WARNING, fmt_s line)]))"

text \<open>
  What is attached to the main context: the channels, by a number and their stream, and the
  children, by their process and the call of \<^verbatim>\<open>clr_run_hook\<close> whose variable takes the
  status. All hooks share the context; nothing is detached when a call returns.
\<close>

record hook_context =
  outputs :: "(nat \<times> nat) list"
  children :: "(int \<times> nat) list"
  hook_exit_code :: int
  quit :: bool
  hook_log :: "log_entry list"

datatype hook_event = Output nat nat cstring | ChildEnded int int

text \<open>
  The end of a child: its status is stored through the pointer that was given with the watch,
  which is wild when that call has returned.
\<close>

definition clr_oci_hook_watcher :: "nat \<Rightarrow> nat \<Rightarrow> int \<Rightarrow> hook_context \<Rightarrow> hook_context option" where
  "clr_oci_hook_watcher current owner code c =
     (if owner = current then Some (c\<lparr>hook_exit_code := code, quit := True\<rparr>) else None)"

definition dispatch :: "nat \<Rightarrow> hook_event \<Rightarrow> hook_context \<Rightarrow> hook_context option" where
  "dispatch current ev c =
     (case ev of
        Output i cond line \<Rightarrow>
          (case map_of (outputs c) i of
             None \<Rightarrow> Some c
           | Some stream \<Rightarrow>
               (case clr_oci_output_watcher cond stream line of
                  (keep, entries) \<Rightarrow>
                    Some (c\<lparr>outputs := (if keep then outputs c else filter (\<lambda>(j, _). j \<noteq> i) (outputs c)),
                            hook_log := hook_log c @ entries\<rparr>)))
      | ChildEnded pid code \<Rightarrow>
          (case map_of (children c) pid of
             None \<Rightarrow> Some c
           | Some owner \<Rightarrow>
               clr_oci_hook_watcher current owner code
                 (c\<lparr>children := filter (\<lambda>(p, _). p \<noteq> pid) (children c)\<rparr>)))"

text \<open>
  An iteration dispatches all that is ready; the loop looks for the quit after it. When no more
  iterations come it waits for ever.
\<close>

fun dispatch_all :: "nat \<Rightarrow> hook_event list \<Rightarrow> hook_context \<Rightarrow> hook_context option" where
  "dispatch_all n [] c = Some c"
| "dispatch_all n (ev # evs) c = do { c \<leftarrow> dispatch n ev c; dispatch_all n evs c }"

fun hook_loop_run :: "nat \<Rightarrow> hook_event list list \<Rightarrow> hook_context \<Rightarrow> hook_context option" where
  "hook_loop_run n [] c = None"
| "hook_loop_run n (evs # its) c = do {
     c \<leftarrow> dispatch_all n evs c;
     if quit c then Some c else hook_loop_run n its c
   }"

text \<open>
  A hook that was spawned: the watches are attached, then the state is written to it; when that
  fails the call returns, else the loop runs.
\<close>

record hook_run =
  hr_pid :: int
  hr_written :: bool
  hr_iterations :: "hook_event list list"

definition watch_hook :: "nat \<Rightarrow> int \<Rightarrow> hook_context \<Rightarrow> hook_context" where
  "watch_hook n pid c =
     c\<lparr>children := (pid, n) # children c,
       outputs := outputs c @ [(2 * n, STDOUT_FILENO), (2 * n + 1, STDERR_FILENO)],
       hook_exit_code := - 1, quit := False\<rparr>"

definition hook_wait :: "nat \<Rightarrow> hook_run \<Rightarrow> hook_context \<Rightarrow> (bool \<times> hook_context) option" where
  "hook_wait n h c =
     (let c = watch_hook n (hr_pid h) c in
      if \<not> hr_written h then Some (False, c)
      else do {
        c \<leftarrow> hook_loop_run n (hr_iterations h) c;
        Some (hook_exit_code c = 0, c)
      })"

fun hooks_wait :: "nat \<Rightarrow> bool \<Rightarrow> hook_run list \<Rightarrow> hook_context \<Rightarrow> (bool \<times> hook_context) option" where
  "hooks_wait n stop_on_failure [] c = Some (True, c)"
| "hooks_wait n stop_on_failure (h # hs) c = do {
     (ok, c) \<leftarrow> hook_wait n h c;
     if \<not> ok \<and> stop_on_failure then Some (False, c) else hooks_wait (Suc n) stop_on_failure hs c
   }"

subsection \<open>Lemmas\<close>

lemma dispatch_all_append: "dispatch_all n (xs @ ys) c = do { c \<leftarrow> dispatch_all n xs c; dispatch_all n ys c }"
proof (induction xs arbitrary: c)
  case (Cons ev xs)
  then show ?case by (cases "dispatch n ev c") simp_all
qed simp

text \<open>The loop is the dispatch of all the events of its first iterations.\<close>

lemma hook_loop_dispatches:
  "hook_loop_run n its c = Some c' \<Longrightarrow> \<exists>k. dispatch_all n (concat (take k its)) c = Some c' \<and> quit c'"
proof (induction its arbitrary: c)
  case (Cons evs its)
  then obtain c1 where c1: "dispatch_all n evs c = Some c1" by (cases "dispatch_all n evs c") auto
  show ?case
  proof (cases "quit c1")
    case True
    with Cons.prems c1 show ?thesis by (intro exI [of _ 1]) simp
  next
    case False
    with Cons.prems c1 have "hook_loop_run n its c1 = Some c'" by simp
    from Cons.IH [OF this] obtain k where "dispatch_all n (concat (take k its)) c1 = Some c'" "quit c'" by blast
    with c1 show ?thesis by (intro exI [of _ "Suc k"]) (simp add: dispatch_all_append)
  qed
qed simp

text \<open>
  What the log should be, from the whole sequence of the events: every line of a channel that is
  watched and has not hung up before, with the level of its stream.
\<close>

definition hung_up :: "hook_event list \<Rightarrow> nat \<Rightarrow> bool" where
  "hung_up evs i \<longleftrightarrow> (\<exists>l. Output i G_IO_HUP l \<in> set evs)"

definition logged_at :: "(nat \<times> nat) list \<Rightarrow> hook_event list \<Rightarrow> nat \<Rightarrow> log_entry list" where
  "logged_at ws evs j =
     (case evs ! j of
        Output i cond line \<Rightarrow>
          (case map_of ws i of
             Some stream \<Rightarrow>
               if cond \<noteq> G_IO_HUP \<and> \<not> hung_up (take j evs) i
               then [(if stream = STDOUT_FILENO then G_LOG_LEVEL_MESSAGE else G_LOG_LEVEL_WARNING, fmt_s line)]
               else []
           | None \<Rightarrow> [])
      | ChildEnded _ _ \<Rightarrow> [])"

definition logged :: "(nat \<times> nat) list \<Rightarrow> hook_event list \<Rightarrow> log_entry list" where
  "logged ws evs = concat (map (logged_at ws evs) [0..<length evs])"

lemma logged_snoc: "logged ws (evs @ [ev]) = logged ws evs @ logged_at ws (evs @ [ev]) (length evs)"
proof -
  have "map (logged_at ws (evs @ [ev])) [0..<length evs] = map (logged_at ws evs) [0..<length evs]"
    by (intro map_cong) (auto simp: logged_at_def nth_append split: hook_event.split option.split)
  then show ?thesis by (simp add: logged_def del: map_eq_conv)
qed

lemma map_of_watched: "map_of (filter (\<lambda>(i, _). P i) ws) i = (if P i then map_of ws i else None)"
  by (induction ws) auto

lemma dispatch_all_logs:
  "dispatch_all n evs c = Some c' \<Longrightarrow>
     outputs c' = filter (\<lambda>(i, _). \<not> hung_up evs i) (outputs c) \<and> hook_log c' = hook_log c @ logged (outputs c) evs"
proof (induction evs arbitrary: c' rule: rev_induct)
  case (snoc ev evs)
  from snoc.prems obtain c1 where c1: "dispatch_all n evs c = Some c1" and ev: "dispatch n ev c1 = Some c'"
    by (auto simp: dispatch_all_append Option.bind_eq_Some_conv)
  note IH = snoc.IH [OF c1]
  show ?case
  proof (cases ev)
    case (Output i cond line)
    have at: "logged_at (outputs c) (evs @ [ev]) (length evs) =
        (case map_of (outputs c1) i of None \<Rightarrow> [] | Some stream \<Rightarrow> snd (clr_oci_output_watcher cond stream line))"
      using Output IH by (auto simp: logged_at_def clr_oci_output_watcher_def map_of_watched split: option.split)
    have up: "hung_up (evs @ [ev]) j \<longleftrightarrow> hung_up evs j \<or> (j = i \<and> cond = G_IO_HUP)" for j
      using Output by (auto simp: hung_up_def)
    have gone: "map_of (outputs c1) i = None \<Longrightarrow> filter (\<lambda>(j, _). j \<noteq> i) (outputs c1) = outputs c1"
      by (rule filter_True) (force simp: map_of_eq_None_iff)
    have "outputs c' = (if cond = G_IO_HUP then filter (\<lambda>(j, _). j \<noteq> i) (outputs c1) else outputs c1)"
      using ev Output gone by (auto simp: dispatch_def clr_oci_output_watcher_def split: option.splits)
    then have "outputs c' = filter (\<lambda>(j, _). \<not> hung_up (evs @ [ev]) j) (outputs c)"
      using IH by (auto simp: up case_prod_unfold intro: filter_cong)
    moreover have "hook_log c' = hook_log c1 @ logged_at (outputs c) (evs @ [ev]) (length evs)"
      unfolding at using ev Output by (auto simp: dispatch_def split: option.splits prod.splits)
    ultimately show ?thesis using IH by (simp add: logged_snoc)
  next
    case (ChildEnded pid code)
    have "hung_up (evs @ [ev]) = hung_up evs" using ChildEnded by (auto simp: hung_up_def)
    moreover have "outputs c' = outputs c1" "hook_log c' = hook_log c1"
      using ev ChildEnded by (auto simp: dispatch_def clr_oci_hook_watcher_def split: option.splits if_splits)
    ultimately show ?thesis using IH ChildEnded by (simp add: logged_snoc logged_at_def)
  qed
qed (simp add: hung_up_def logged_def)

text \<open>The statuses with which a process was reported to have ended.\<close>

fun statuses :: "int \<Rightarrow> hook_event list \<Rightarrow> int list" where
  "statuses pid [] = []"
| "statuses pid (ChildEnded p code # evs) = (if p = pid then code # statuses pid evs else statuses pid evs)"
| "statuses pid (Output _ _ _ # evs) = statuses pid evs"

text \<open>Once the hook has ended, nothing changes the result; before, only its end does.\<close>

lemma dispatch_all_done:
  "dispatch_all n evs c = Some c' \<Longrightarrow> (\<forall>p code. ChildEnded p code \<in> set evs \<longrightarrow> p \<notin> fst ` set (children c)) \<Longrightarrow>
     hook_exit_code c' = hook_exit_code c \<and> quit c' = quit c"
proof (induction evs arbitrary: c)
  case (Cons ev evs)
  from Cons.prems(1) obtain c1 where c1: "dispatch n ev c = Some c1" "dispatch_all n evs c1 = Some c'"
    by (auto simp: Option.bind_eq_Some_conv)
  have "children c1 = children c \<and> hook_exit_code c1 = hook_exit_code c \<and> quit c1 = quit c"
    using c1(1) Cons.prems(2)
    by (cases ev) (auto simp: dispatch_def map_of_eq_None_iff split: option.splits prod.splits dest!: map_of_SomeD, force+)
  with Cons.IH [OF c1(2)] Cons.prems(2) show ?case by auto
qed simp

lemma dispatch_all_exit:
  "dispatch_all n evs c = Some c' \<Longrightarrow> map_of (children c) pid = Some n \<Longrightarrow> \<not> quit c \<Longrightarrow>
   (\<forall>p code. ChildEnded p code \<in> set evs \<longrightarrow> p = pid \<or> p \<notin> fst ` set (children c)) \<Longrightarrow> quit c' \<Longrightarrow>
     statuses pid evs \<noteq> [] \<and> hook_exit_code c' = hd (statuses pid evs)"
proof (induction evs arbitrary: c)
  case (Cons ev evs)
  from Cons.prems(1) obtain c1 where c1: "dispatch n ev c = Some c1" "dispatch_all n evs c1 = Some c'"
    by (auto simp: Option.bind_eq_Some_conv)
  show ?case
  proof (cases "\<exists>code. ev = ChildEnded pid code")
    case True
    then obtain code where ev: "ev = ChildEnded pid code" by blast
    with c1(1) Cons.prems(2) have c1': "c1 = c\<lparr>children := filter (\<lambda>(p, _). p \<noteq> pid) (children c), hook_exit_code := code, quit := True\<rparr>"
      by (simp add: dispatch_def clr_oci_hook_watcher_def)
    have "\<forall>p code. ChildEnded p code \<in> set evs \<longrightarrow> p \<notin> fst ` set (children c1)"
      using Cons.prems(4) c1' by force
    from dispatch_all_done [OF c1(2) this] show ?thesis by (simp add: ev c1')
  next
    case False
    have "children c1 = children c \<and> quit c1 = quit c"
      using c1(1) Cons.prems(4) False
      by (cases ev) (auto simp: dispatch_def split: option.splits prod.splits dest!: map_of_SomeD, force+)
    moreover have "statuses pid (ev # evs) = statuses pid evs" using False by (cases ev) auto
    ultimately show ?thesis using Cons.IH [OF c1(2)] Cons.prems(2-5) by auto
  qed
qed simp

text \<open>A loop that ends, as the dispatch of the events until then.\<close>

lemma hook_loop_exit:
  assumes "hook_wait n h c = Some (ok, c')" and "hr_written h"
    and "\<forall>p code. ChildEnded p code \<in> set (concat (hr_iterations h)) \<longrightarrow> p = hr_pid h \<or> p \<notin> fst ` set (children c)"
  shows "\<exists>k. dispatch_all n (concat (take k (hr_iterations h))) (watch_hook n (hr_pid h) c) = Some c'
    \<and> take 1 (statuses (hr_pid h) (concat (take k (hr_iterations h)))) = [hook_exit_code c'] \<and> ok = (hook_exit_code c' = 0)"
proof -
  let ?c = "watch_hook n (hr_pid h) c"
  have run: "hook_loop_run n (hr_iterations h) ?c = Some c'" and ok: "ok = (hook_exit_code c' = 0)"
    using assms(1,2) by (auto simp: hook_wait_def Let_def Option.bind_eq_Some_conv)
  from hook_loop_dispatches [OF run] obtain k where
    k: "dispatch_all n (concat (take k (hr_iterations h))) ?c = Some c'" "quit c'" by blast
  let ?evs = "concat (take k (hr_iterations h))"
  have sub: "set ?evs \<subseteq> set (concat (hr_iterations h))" by (auto dest: in_set_takeD)
  have "statuses (hr_pid h) ?evs \<noteq> [] \<and> hook_exit_code c' = hd (statuses (hr_pid h) ?evs)"
    using sub assms(3) by (intro dispatch_all_exit [OF k(1) _ _ _ k(2)]) (auto simp: watch_hook_def)
  then have "take 1 (statuses (hr_pid h) ?evs) = [hook_exit_code c']" by (cases "statuses (hr_pid h) ?evs") auto
  with k(1) ok show ?thesis by blast
qed

subsection \<open>Properties\<close>

text \<open>
  C14. A hook that got the state and whose loop ends: its result is the status of its own end, and
  what its channels gave until the loop stopped is in the log, each line once, in order, with the
  level of its stream. No earlier hook may end in this loop.
\<close>

theorem hook_wait_logs:
  assumes "hook_wait n h c = Some (ok, c')" and "hr_written h"
    and "\<forall>p code. ChildEnded p code \<in> set (concat (hr_iterations h)) \<longrightarrow> p = hr_pid h \<or> p \<notin> fst ` set (children c)"
  shows "\<exists>k code. let evs = concat (take k (hr_iterations h)) in
      take 1 (statuses (hr_pid h) evs) = [code] \<and> ok = (code = 0)
    \<and> hook_log c' = hook_log c @ logged (outputs (watch_hook n (hr_pid h) c)) evs"
proof -
  from hook_loop_exit [OF assms] obtain k where
    k: "dispatch_all n (concat (take k (hr_iterations h))) (watch_hook n (hr_pid h) c) = Some c'"
    "take 1 (statuses (hr_pid h) (concat (take k (hr_iterations h)))) = [hook_exit_code c']" "ok = (hook_exit_code c' = 0)"
    by blast
  have "hook_log c' = hook_log c @ logged (outputs (watch_hook n (hr_pid h) c)) (concat (take k (hr_iterations h)))"
    using dispatch_all_logs [OF k(1)] by (simp add: watch_hook_def)
  with k show ?thesis by (auto simp: Let_def)
qed

text \<open>A context with nothing attached.\<close>

definition context0 :: hook_context where
  "context0 = \<lparr>outputs = [], children = [], hook_exit_code = 0, quit = False, hook_log = []\<rparr>"

lemma hook_wait_logs_witness:
  "\<exists>ok c' k code. hook_wait 0 \<lparr>hr_pid = 42, hr_written = True,
       hr_iterations = [[Output 0 G_IO_IN (Some ''hello''), Output 1 G_IO_IN (Some ''oh'')], [ChildEnded 42 0, Output 0 G_IO_HUP None]]\<rparr>
       context0 = Some (ok, c')
     \<and> ok = (code = 0) \<and> hook_log c' = [(G_LOG_LEVEL_MESSAGE, ''hello''), (G_LOG_LEVEL_WARNING, ''oh'')]"
proof -
  let ?h = "\<lparr>hr_pid = 42, hr_written = True,
       hr_iterations = [[Output 0 G_IO_IN (Some ''hello''), Output 1 G_IO_IN (Some ''oh'')], [ChildEnded 42 0, Output 0 G_IO_HUP None]]\<rparr>"
  obtain c' where c': "hook_wait 0 ?h context0 = Some (True, c')"
    "hook_log c' = [(G_LOG_LEVEL_MESSAGE, ''hello''), (G_LOG_LEVEL_WARNING, ''oh'')]"
    by (simp add: hook_wait_def watch_hook_def context0_def dispatch_def clr_oci_output_watcher_def
        clr_oci_hook_watcher_def G_IO_IN_def G_IO_HUP_def STDOUT_FILENO_def STDERR_FILENO_def fmt_s_def)
  from hook_wait_logs [OF c'(1)] obtain code where "True = (code = (0::int))" by (auto simp: context0_def)
  with c' show ?thesis by blast
qed

text \<open>
  The hook up to the loop, as \<^const>\<open>clr_run_hook\<close> does it: its process, whether the state was
  written, and the history when the loop starts.
\<close>

definition hook_sent :: "env \<Rightarrow> oci_cfg_hook \<Rightarrow> string \<Rightarrow> world \<Rightarrow> int \<times> bool \<times> world" where
  "hook_sent E hook state w =
     (let (pid, w) = callI E (SpawnHook (hook_argv hook) (hook_env hook)) w;
          (std_in, w) = callI E (HookPipe 0) w;
          w = snd (callI E (HookPipe 2) (snd (callI E (HookPipe 1) w)));
          (r, w) = callI E (WriteFd std_in (hook_state state)) w
      in if r < 0 then (pid, False, w)
         else
           let (r, w) = callI E (WriteFd std_in [CHR 0x0A]) w
           in if r < 0 then (pid, False, w) else (pid, True, snd (callI E (Close std_in) w)))"

lemma run_hook_sent:
  assumes "hook_sent E hook state w = (pid, got, w1)" and "0 < pid"
  shows "fst (clr_run_hook E hook state w) = (got \<and> sys_int E w1 (RunHookLoop pid) = 0)"
  using assms by (auto simp: hook_sent_def clr_run_hook_def callI_def Let_def split: if_splits)

lemma statuses_append: "statuses pid (xs @ ys) = statuses pid xs @ statuses pid ys"
  by (induction pid xs rule: statuses.induct) simp_all



text \<open>
  When the state cannot be written to a hook, its watch stays: its end, in the loop of the next
  hook, is stored through a pointer into a call that has returned.
\<close>

theorem stale_hook_watch:
  assumes "pid \<noteq> hr_pid h" and "hr_written h"
    and "hr_iterations h = (ChildEnded pid code # evs) # its"
  shows "hooks_wait n False [\<lparr>hr_pid = pid, hr_written = False, hr_iterations = its0\<rparr>, h] c = None"
  using assms by (simp add: hook_wait_def watch_hook_def Let_def dispatch_def clr_oci_hook_watcher_def)

end
