(* ===== verification/Spec2Isabelle.thy ===== *)
theory Spec2Isabelle
  imports Memory_Commands Hook_Loop
begin

text \<open>
  A model of the Clear Containers OCI runtime (the C sources under \<^verbatim>\<open>src/src\<close>), with the
  theorems that make its components correct and those that record where the code does not do
  what it means to.

  The program. The runtime is a command line program. It creates, starts, pauses, resumes,
  kills, lists, watches and deletes containers, each of which is a virtual machine. A process of
  the runtime lives for one sub-command only; what the processes know of each other is in the
  state file \<^verbatim>\<open>state.json\<close> in the runtime directory of the container. "create" parses
  \<^verbatim>\<open>config.json\<close> of the bundle, makes the mounts and the workload script, launches the
  hypervisor stopped, and writes the state file with the status "created". "start" sends it on,
  "pause" and "resume" talk to it by QMP, "kill" signals it, "delete" asks it to power down and
  removes what "create" made. Each of them rewrites the state file.

  How the code is modelled. A structure is a record, an enumeration a datatype, a C string that
  may be NULL a \<^typ>\<open>string option\<close>; a string in a fixed buffer is cut where it is copied.
  Every call to the kernel, to GLib's input and output, to sockets and to other programs is a
  value of \<^typ>\<open>call\<close>; an \<^typ>\<open>env\<close> answers it from the history so far, and the
  history, a \<^typ>\<open>world\<close>, is threaded through the functions. So a theorem speaks about
  the calls that are made, their order, and the files they leave (\<^const>\<open>file_view\<close>). The
  error results of the code are values; a failed \<^verbatim>\<open>g_assert\<close>, a NULL dereference, a
  second free or a loop that never ends is the outer \<^term>\<open>None\<close>. The integers of the code
  are integers with the conversions \<^const>\<open>to_int32\<close> and \<^const>\<open>to_uint32\<close> where the
  code converts; flags are numbers.

  The JSON library (\<^const>\<open>json_parse\<close>, \<^const>\<open>json_gen\<close>) and GLib's option
  parser (\<^typ>\<open>option_parser\<close>) are parameters; where a theorem relies on them it says so:
  \<^const>\<open>codec\<close> (a document is read back as it was written), \<^const>\<open>reads_back\<close> (files
  are read as they were left), \<^const>\<open>plain_parser\<close> (the parser stops at the name of a
  sub-command). GLib's string functions are the string library of the program and are modelled
  by their documentation in Prelude, \<^verbatim>\<open>g_shell_quote\<close> in Shell_Quote.

  The theories, in the order of their imports:
  \<^item> Prelude: characters, C and GLib string functions, number conversion, with lemmas.
  \<^item> World: calls, histories, files, the iteration over lists of children.
  \<^item> Oci_Types (\<^verbatim>\<open>oci.h\<close>, \<^verbatim>\<open>command.h\<close>): the data. The locale
    \<open>enum_table\<close> has the laws of the tables of names, for namespaces and statuses.
  \<^item> Json (\<^verbatim>\<open>json.c\<close>), Util (\<^verbatim>\<open>util.c\<close>), Semver (\<^verbatim>\<open>semver.c\<close>),
    Namespace (\<^verbatim>\<open>namespace.c\<close>), Mount (\<^verbatim>\<open>mount.c\<close>, \<^verbatim>\<open>annotation.c\<close>),
    Hypervisor (\<^verbatim>\<open>hypervisor.c\<close>).
  \<^item> Network (\<^verbatim>\<open>network.c\<close>): the QMP client; the locale \<open>vm_command\<close> has what
    the three commands share.
  \<^item> State_File (\<^verbatim>\<open>state.c\<close>, \<^verbatim>\<open>runtime.c\<close>).
  \<^item> Spec_Handlers (\<^verbatim>\<open>spec_handler.c\<close>, \<^verbatim>\<open>spec_handlers/\<close>): the sections of
    \<^verbatim>\<open>config.json\<close>; the locale \<open>object_walk\<close> is the walk that collects objects
    of hooks, namespaces and mounts.
  \<^item> Process (\<^verbatim>\<open>process.c\<close>), Shell_Quote, Oci (\<^verbatim>\<open>oci.c\<close>,
    \<^verbatim>\<open>oci-config.c\<close>), Command (\<^verbatim>\<open>command.c\<close>, \<^verbatim>\<open>priv.c\<close>,
    \<^verbatim>\<open>commands/\<close>).
  \<^item> Lifecycle: the abstract machine over the status in the state file, and the refinement of
    the commands to it; the locale \<open>session_runner\<close> lifts it to sessions, of handlers and
    of whole processes. Create: what "create" leaves. Delete: what "delete" removes. Command_Errors: error paths of
    commands.
  \<^item> Listing ("list"), Events (\<^verbatim>\<open>events.c\<close>), Attach ("attach"), Logging
    (\<^verbatim>\<open>logging.c\<close>), Main_Program (\<^verbatim>\<open>main.c\<close>, "help", "version").
  \<^item> Memory: what the structures of \<^verbatim>\<open>oci.h\<close> own, as trees of blocks, and the functions
    that release them (\<^verbatim>\<open>oci-config.c\<close>, \<^verbatim>\<open>state.c\<close>, \<^verbatim>\<open>mount.c\<close>,
    \<^verbatim>\<open>annotation.c\<close>, \<^verbatim>\<open>namespace.c\<close>, \<^verbatim>\<open>network.c\<close>, \<^verbatim>\<open>util.h\<close>); the
    locales \<open>releaser\<close> and \<open>placer\<close> lift the release and the making of an element to
    lists. Memory_Commands: which pointers each command moves and what a process leaves; the
    locale \<open>transfers\<close> has the law that the moves of a command keep what is owned.
  \<^item> Hook_Loop: the loop in which a hook is waited for, with its watchers (\<^verbatim>\<open>process.c\<close>).

  What is shown, by group:
  \<^item> Composition: processes run one after another on a container refine the lifecycle; a
    container is started at most once; "create" leaves a well-formed container that is
    "created", and the processes that follow a process "create" start it at most once; "start"
    and "kill" come to an end, whatever the system answers; "kill" announces the stop before it
    signals; "delete" unmounts and removes what "create" made, and on a well-behaved system the
    commands of a whole life succeed; \<^verbatim>\<open>main\<close> runs the handler
    that the table names and returns its result; "list" reports the containers of the directory.
  \<^item> Files and formats: the state file is read back as it was written, reading never aborts and
    accepts only complete files; the workload script, read by a shell, runs the arguments of the
    container; the tree of mounts of a configuration; tokens of the hypervisor's arguments.
  \<^item> Protocols: QMP messages are found however the stream is cut, and a command that reports
    success was sent and answered; waits end only when the socket was connected, "events" when it
    is deleted, "attach" when the VM is dead.
  \<^item> Versions: on well-formed versions the comparison is the precedence of Semantic Versioning,
    except where numeric and alphanumeric identifiers meet; it is a total preorder.
  \<^item> Memory: releasing works exactly when the blocks are live and distinct; the processes of the
    commands release what they allocate, except "start", and crash exactly when the state would be
    released twice; the pointer of the operations to the state is refined by the one in memory.
  \<^item> Hooks: the lines that a hook writes reach the log once and in order, its result is the
    status with which it ended, and the loop refines the single call that Process makes of it.
  \<^item> Error behaviour: the theorems that record how the code fails.

  Bounds. Fixed buffers have \<^const>\<open>PATH_MAX\<close> or \<^const>\<open>LINE_MAX\<close> bytes; theorems
  about paths state the lengths they need. No fuel is used: loops over lists are structural, the
  inner loop of the QMP receiver decreases the length of the buffer, and the three loops that may
  run for ever (receiving from the hypervisor, and the two loops of "attach" on a channel) are
  partial functions whose \<^term>\<open>None\<close> includes not returning. A main loop runs over the list
  of the events it will receive; when the list ends without the event that quits the loop, it
  waits for ever, which is \<^term>\<open>None\<close> too.

  Not modelled: log messages inside the operations (Logging has the handler by itself); memory
  that one function allocates and releases by itself, and the memory of "create", of which only
  the configuration is shown to be released as it was made; the loop of \<^verbatim>\<open>exec\<close> and its watcher,
  with the connection of a new process to the VM, which the code leaves unimplemented
  (\<^verbatim>\<open>#if 0\<close>); the options that nothing reads ("criu", "systemd-cgroup"), but for the memory of
  the first; the unit tests. The headers only declare.
\<close>

end
